(* ===== verification/Prelude.thy ===== *)
theory Prelude imports Main "HOL-Library.Word" "HOL-Library.Signed_Division" begin

text \<open>
  Shared vocabulary of the development: the machine integers of the Rust code, Rust's
  \<open>Result\<close> and \<open>Option\<close> combinators, the checked, saturating and overflowing
  integer operations of the standard library, and the facts about them that the component
  theories use.  Every integer fact is stated over \<^const>\<open>unat\<close>, so that the
  proofs about prices and inventories are proofs about natural numbers.
\<close>

section \<open>Machine integers\<close>

unbundle bit_operations_syntax

type_synonym u8 = "8 word"
type_synonym u16 = "16 word"
type_synonym u32 = "32 word"
type_synonym u64 = "64 word"
type_synonym u128 = "128 word"

text \<open>
  Signed values (\<open>i16\<close>, \<open>i32\<close>, \<open>i128\<close>) are integers of type \<^typ>\<open>int\<close>; where
  the code saturates or clamps, the bound is written out.
\<close>

definition i32_min :: int where "i32_min = - (2 ^ 31)"
definition i32_max :: int where "i32_max = 2 ^ 31 - 1"
definition i128_min :: int where "i128_min = - (2 ^ 127)"
definition i128_max :: int where "i128_max = 2 ^ 127 - 1"

definition clamp :: "int \<Rightarrow> int \<Rightarrow> int \<Rightarrow> int" where
  "clamp x lo hi = (if x < lo then lo else if hi < x then hi else x)"

definition saturate_i128 :: "int \<Rightarrow> int" where
  "saturate_i128 x = clamp x i128_min i128_max"

lemma clamp_bounds [simp]: "lo \<le> hi \<Longrightarrow> lo \<le> clamp x lo hi" "lo \<le> hi \<Longrightarrow> clamp x lo hi \<le> hi"
  by (auto simp: clamp_def)

lemma clamp_id [simp]: "lo \<le> x \<Longrightarrow> x \<le> hi \<Longrightarrow> clamp x lo hi = x"
  by (simp add: clamp_def)

lemma saturate_i128_id [simp]: "i128_min \<le> x \<Longrightarrow> x \<le> i128_max \<Longrightarrow> saturate_i128 x = x"
  by (simp add: saturate_i128_def)

section \<open>Results\<close>

text \<open>
  \<open>Result<T, E>\<close> is the sum type \<open>'e + 'a\<close>.  \<open>and_then\<close> is the \<open>?\<close> operator
  (and \<open>Result::and_then\<close>), \<open>ok_or\<close> and \<open>map_err\<close> are the methods of the same names,
  \<open>require\<close> is Anchor's \<open>require!\<close> (and the early return \<open>return Err(e)\<close> under a guard).
\<close>

abbreviation Ok :: "'a \<Rightarrow> 'e + 'a" where "Ok \<equiv> Inr"
abbreviation Err :: "'e \<Rightarrow> 'e + 'a" where "Err \<equiv> Inl"

definition and_then :: "'e + 'a \<Rightarrow> ('a \<Rightarrow> 'e + 'b) \<Rightarrow> 'e + 'b" where
  "and_then r f = (case r of Inl e \<Rightarrow> Inl e | Inr x \<Rightarrow> f x)"

definition ok_or :: "'e \<Rightarrow> 'a option \<Rightarrow> 'e + 'a" where
  "ok_or e x = (case x of None \<Rightarrow> Inl e | Some y \<Rightarrow> Inr y)"

definition map_ok :: "('a \<Rightarrow> 'b) \<Rightarrow> 'e + 'a \<Rightarrow> 'e + 'b" where
  "map_ok f r = (case r of Inl e \<Rightarrow> Inl e | Inr x \<Rightarrow> Inr (f x))"

definition map_err :: "('e \<Rightarrow> 'f) \<Rightarrow> 'e + 'a \<Rightarrow> 'f + 'a" where
  "map_err f r = (case r of Inl e \<Rightarrow> Inl (f e) | Inr x \<Rightarrow> Inr x)"

definition require :: "bool \<Rightarrow> 'e \<Rightarrow> 'e + unit" where
  "require c e = (if c then Inr () else Inl e)"

definition is_ok :: "'e + 'a \<Rightarrow> bool" where
  "is_ok r = (case r of Inl _ \<Rightarrow> False | Inr _ \<Rightarrow> True)"

named_theorems result_simps \<open>inversion and computation of results\<close>

lemma and_then_Ok [simp, result_simps]: "and_then (Ok x) f = f x"
  and and_then_Err [simp, result_simps]: "and_then (Err e) f = Err e"
  by (simp_all add: and_then_def)

lemma and_then_cong [fundef_cong]:
  "r = r' \<Longrightarrow> (\<And>x. r' = Ok x \<Longrightarrow> f x = g x) \<Longrightarrow> and_then r f = and_then r' g"
  by (cases r') (auto simp: and_then_def)

lemma and_then_eq_Ok [result_simps]: "and_then r f = Ok y \<longleftrightarrow> (\<exists>x. r = Ok x \<and> f x = Ok y)"
  by (cases r) (auto simp: and_then_def)

lemma and_then_eq_Err [result_simps]:
  "and_then r f = Err e \<longleftrightarrow> r = Err e \<or> (\<exists>x. r = Ok x \<and> f x = Err e)"
  by (cases r) (auto simp: and_then_def)

lemma ok_or_simps [simp, result_simps]:
  "ok_or e None = Err e" "ok_or e (Some x) = Ok x"
  by (simp_all add: ok_or_def)

lemma ok_or_eq [result_simps]:
  "ok_or e x = Ok y \<longleftrightarrow> x = Some y"
  "ok_or e x = Err e' \<longleftrightarrow> x = None \<and> e' = e"
  by (cases x; auto)+

lemma map_ok_simps [simp, result_simps]:
  "map_ok f (Ok x) = Ok (f x)" "map_ok f (Err e) = Err e"
  by (simp_all add: map_ok_def)

lemma map_ok_eq [result_simps]:
  "map_ok f r = Ok y \<longleftrightarrow> (\<exists>x. r = Ok x \<and> y = f x)"
  "map_ok f r = Err e \<longleftrightarrow> r = Err e"
  by (cases r; auto)+

lemma map_err_simps [simp, result_simps]:
  "map_err f (Ok x) = Ok x" "map_err f (Err e) = Err (f e)"
  by (simp_all add: map_err_def)

lemma map_err_eq [result_simps]:
  "map_err f r = Ok y \<longleftrightarrow> r = Ok y"
  "map_err f r = Err e \<longleftrightarrow> (\<exists>e'. r = Err e' \<and> e = f e')"
  by (cases r; auto)+

lemma require_eq [simp, result_simps]:
  "require c e = Ok u \<longleftrightarrow> c"
  "require c e = Err e' \<longleftrightarrow> \<not> c \<and> e' = e"
  by (auto simp: require_def)

lemma require_simps [simp]: "require True e = Ok ()" "require False e = Err e"
  by (simp_all add: require_def)

lemma is_ok_simps [simp]: "is_ok (Ok x)" "\<not> is_ok (Err e)"
  by (simp_all add: is_ok_def)

section \<open>Checked, saturating and overflowing operations\<close>

definition checked_add :: "'a::len word \<Rightarrow> 'a word \<Rightarrow> 'a word option" where
  "checked_add a b = (if unat a + unat b < 2 ^ LENGTH('a) then Some (a + b) else None)"

definition checked_sub :: "'a::len word \<Rightarrow> 'a word \<Rightarrow> 'a word option" where
  "checked_sub a b = (if b \<le> a then Some (a - b) else None)"

definition checked_mul :: "'a::len word \<Rightarrow> 'a word \<Rightarrow> 'a word option" where
  "checked_mul a b = (if unat a * unat b < 2 ^ LENGTH('a) then Some (a * b) else None)"

definition saturating_add :: "'a::len word \<Rightarrow> 'a word \<Rightarrow> 'a word" where
  "saturating_add a b = (if unat a + unat b < 2 ^ LENGTH('a) then a + b else - 1)"

definition saturating_sub :: "'a::len word \<Rightarrow> 'a word \<Rightarrow> 'a word" where
  "saturating_sub a b = (if b \<le> a then a - b else 0)"

definition saturating_mul :: "'a::len word \<Rightarrow> 'a word \<Rightarrow> 'a word" where
  "saturating_mul a b = (if unat a * unat b < 2 ^ LENGTH('a) then a * b else - 1)"

definition overflowing_add :: "'a::len word \<Rightarrow> 'a word \<Rightarrow> 'a word \<times> bool" where
  "overflowing_add a b = (a + b, 2 ^ LENGTH('a) \<le> unat a + unat b)"

text \<open>\<open>u64::try_from\<close> on a \<open>u128\<close>, and the widening cast \<open>as u128\<close>.\<close>

definition u64_try_from :: "u128 \<Rightarrow> u64 option" where
  "u64_try_from x = (if unat x < 2 ^ 64 then Some (ucast x) else None)"

abbreviation as_u128 :: "u64 \<Rightarrow> u128" where "as_u128 \<equiv> ucast"

text \<open>
  Code equations over \<^typ>\<open>int\<close>, so that evaluation does binary arithmetic.
\<close>

lemma nat_less_pow: "(m :: nat) < 2 ^ n \<longleftrightarrow> int m < 2 ^ n"
  by (metis of_nat_less_iff of_nat_numeral of_nat_power)
lemma nat_le_pow: "2 ^ n \<le> (m :: nat) \<longleftrightarrow> 2 ^ n \<le> int m"
  by (metis of_nat_le_iff of_nat_numeral of_nat_power)

lemma checked_code [code]:
  "checked_add a b = (if uint a + uint b < 2 ^ LENGTH('a) then Some (a + b) else None)"
  "checked_mul a b = (if uint a * uint b < 2 ^ LENGTH('a) then Some (a * b) else None)"
  for a b :: "'a::len word"
  by (simp_all add: checked_add_def checked_mul_def nat_less_pow)

lemma saturating_code [code]:
  "saturating_add a b = (if uint a + uint b < 2 ^ LENGTH('a) then a + b else - 1)"
  "saturating_mul a b = (if uint a * uint b < 2 ^ LENGTH('a) then a * b else - 1)"
  for a b :: "'a::len word"
  by (simp_all add: saturating_add_def saturating_mul_def nat_less_pow)

lemma overflowing_add_code [code]:
  "overflowing_add a b = (a + b, 2 ^ LENGTH('a) \<le> uint a + uint b)" for a b :: "'a::len word"
  by (simp add: overflowing_add_def nat_le_pow)

lemma u64_try_from_code [code]: "u64_try_from x = (if uint x < 2 ^ 64 then Some (ucast x) else None)"
  unfolding u64_try_from_def nat_less_pow by simp

named_theorems unat_simps \<open>values of machine operations as natural numbers\<close>

lemma unat_lt2p [intro]: "unat (a :: 'a::len word) < 2 ^ LENGTH('a)"
  by (rule unsigned_less)

lemma word_eq_iff_unat: "a = b \<longleftrightarrow> unat a = unat (b :: 'a::len word)"
  by (rule word_unat_eq_iff)

lemma unat_of_nat_fits: "n < 2 ^ LENGTH('a) \<Longrightarrow> unat (of_nat n :: 'a::len word) = n"
  by (simp add: unsigned_of_nat take_bit_nat_eq_self_iff)

lemma of_nat_unat_id: "of_nat (unat w) = (w :: 'a::len word)"
  by simp

lemma unat_add_fits [unat_simps]:
  "unat a + unat b < 2 ^ LENGTH('a) \<Longrightarrow> unat (a + b) = unat a + unat (b :: 'a::len word)"
  by (simp add: unat_word_ariths)

lemma unat_mul_fits [unat_simps]:
  "unat a * unat b < 2 ^ LENGTH('a) \<Longrightarrow> unat (a * b) = unat a * unat (b :: 'a::len word)"
  by (simp add: unat_word_ariths)

lemma unat_sub_le [unat_simps]:
  "b \<le> a \<Longrightarrow> unat (a - b) = unat a - unat (b :: 'a::len word)"
  by (rule unat_sub)

lemma unat_max_word [unat_simps]: "unat (- 1 :: 'a::len word) = 2 ^ LENGTH('a) - 1"
  by (simp add: unsigned_minus_1_eq_mask mask_eq_exp_minus_1)

lemma checked_add_eq_Some [unat_simps]:
  "checked_add a b = Some c \<longleftrightarrow> unat c = unat a + unat (b :: 'a::len word)"
  by (auto simp: checked_add_def word_eq_iff_unat unat_add_fits) (metis unat_lt2p)

lemma checked_add_eq_None [unat_simps]:
  "checked_add a b = None \<longleftrightarrow> 2 ^ LENGTH('a) \<le> unat a + unat (b :: 'a::len word)"
  by (auto simp: checked_add_def)

lemma checked_sub_eq_Some [unat_simps]:
  "checked_sub a b = Some c \<longleftrightarrow> unat a = unat b + unat (c :: 'a::len word)"
  by (auto simp: checked_sub_def word_eq_iff_unat unat_sub_le word_le_nat_alt)

lemma checked_sub_eq_None [unat_simps]: "checked_sub a b = None \<longleftrightarrow> unat a < unat b"
  by (auto simp: checked_sub_def word_le_nat_alt)

lemma checked_mul_eq_Some [unat_simps]:
  "checked_mul a b = Some c \<longleftrightarrow> unat c = unat a * unat (b :: 'a::len word)"
  by (auto simp: checked_mul_def word_eq_iff_unat unat_mul_fits) (metis unat_lt2p)

lemma checked_mul_eq_None [unat_simps]:
  "checked_mul a b = None \<longleftrightarrow> 2 ^ LENGTH('a) \<le> unat a * unat (b :: 'a::len word)"
  by (auto simp: checked_mul_def)

lemma unat_saturating_sub [unat_simps, simp]:
  "unat (saturating_sub a b) = unat a - unat (b :: 'a::len word)"
  by (auto simp: saturating_sub_def unat_sub_le word_le_nat_alt)

lemma unat_saturating_add [unat_simps]:
  "unat (saturating_add a b) = min (unat a + unat b) (2 ^ LENGTH('a) - 1)" for a b :: "'a::len word"
  by (auto simp: saturating_add_def unat_add_fits unat_max_word)

lemma unat_saturating_mul [unat_simps]:
  "unat (saturating_mul a b) = min (unat a * unat b) (2 ^ LENGTH('a) - 1)" for a b :: "'a::len word"
  by (auto simp: saturating_mul_def unat_mul_fits unat_max_word)

lemma unat_min [unat_simps, simp]: "unat (min a b) = min (unat a) (unat (b :: 'a::len word))"
  by (simp add: min_def word_le_nat_alt)

lemma unat_max [unat_simps, simp]: "unat (max a b) = max (unat a) (unat (b :: 'a::len word))"
  by (simp add: max_def word_le_nat_alt)

lemma unat_div_word [unat_simps, simp]: "unat (a div b) = unat a div unat (b :: 'a::len word)"
  by (rule unat_div)

lemma unat_ucast_widen:
  "LENGTH('a) \<le> LENGTH('b) \<Longrightarrow> unat (ucast (a :: 'a::len word) :: 'b::len word) = unat a"
  using less_le_trans[OF unat_lt2p power_increasing[of "LENGTH('a)" "LENGTH('b)" 2]]
  by (simp add: unsigned_ucast_eq take_bit_nat_eq_self_iff)

lemma unat_ucast_narrow:
  "unat a < 2 ^ LENGTH('b) \<Longrightarrow> unat (ucast (a :: 'a::len word) :: 'b::len word) = unat a"
  by (simp add: unsigned_ucast_eq take_bit_nat_eq_self_iff)

lemma unat_widen [unat_simps, simp]:
  "unat (ucast (a :: u64) :: u128) = unat a"
  "unat (ucast (c :: u16) :: u128) = unat c"
  "unat (ucast (c :: u16) :: u64) = unat c"
  "unat (ucast (c :: u16) :: u32) = unat c"
  "unat (ucast (d :: u8) :: u64) = unat d"
  "unat (ucast (d :: u8) :: u128) = unat d"
  "unat (ucast (e :: u32) :: u64) = unat e"
  "unat (ucast (e :: u32) :: u128) = unat e"
  by (rule unat_ucast_widen; simp)+

lemma u64_bound: "unat (a :: u64) < 18446744073709551616"
  using unat_lt2p[of a] by simp

lemma u128_bound: "unat (a :: u128) < 340282366920938463463374607431768211456"
  using unat_lt2p[of a] by simp

lemma u16_bound: "unat (a :: u16) < 65536"
  using unat_lt2p[of a] by simp

lemma u8_bound: "unat (a :: u8) < 256"
  using unat_lt2p[of a] by simp

lemma u32_bound: "unat (a :: u32) < 4294967296"
  using unat_lt2p[of a] by simp

text \<open>The product of two 64-bit values always fits a \<open>u128\<close>.\<close>

lemma mul_u64_bound: "unat (a :: u64) * unat (b :: u64) < 340282366920938463463374607431768211456"
proof -
  have "unat a * unat b \<le> (2 ^ 64 - 1) * (2 ^ 64 - 1)"
    using u64_bound[of a] u64_bound[of b] by (intro mult_le_mono) auto
  then show ?thesis by simp
qed

lemma unat_mul_as_u128 [unat_simps, simp]: "unat (as_u128 a * as_u128 b) = unat a * unat b"
  using mul_u64_bound[of a b] by (simp add: unat_mul_fits)

lemma u64_try_from_eq_Some [unat_simps]: "u64_try_from x = Some y \<longleftrightarrow> unat y = unat x"
    using u64_bound[of y] by (auto simp: u64_try_from_def word_eq_iff_unat unat_ucast_narrow)

lemma u64_try_from_eq_None [unat_simps]: "u64_try_from x = None \<longleftrightarrow> 18446744073709551616 \<le> unat x"
  by (auto simp: u64_try_from_def)

section \<open>Floor division of naturals\<close>

lemma div_mult_self_le: "(a div d) * d \<le> (a :: nat)"
  by simp

lemma div_bracket: "0 < d \<Longrightarrow> a < (a div d + 1) * (d :: nat)"
  using dividend_less_div_times[of d a] by (simp add: algebra_simps)

lemma div_le_iff_mult: "0 < d \<Longrightarrow> q \<le> a div d \<longleftrightarrow> q * d \<le> (a :: nat)"
  by (simp add: less_eq_div_iff_mult_less_eq)

lemma div_less_iff_mult: "0 < d \<Longrightarrow> a div d < q \<longleftrightarrow> a < q * (d :: nat)"
  by (simp add: div_less_iff_less_mult)

section \<open>Basis points and narrowing quotients\<close>

lemma unat_narrow_quotient:
  fixes x :: u64 and y d :: u128
  assumes d: "0 < unat d" and le: "unat y \<le> unat d"
  shows "unat x * unat y div unat d \<le> unat x"
    and "unat y < 2 ^ 64 \<Longrightarrow> unat (ucast (as_u128 x * y div d) :: u64) = unat x * unat y div unat d"
proof -
  show *: "unat x * unat y div unat d \<le> unat x"
  proof -
    have "unat x * unat y div unat d \<le> unat x * unat d div unat d"
      using le by (intro div_le_mono mult_le_mono2)
    with d show ?thesis by simp
  qed
  show "unat (ucast (as_u128 x * y div d) :: u64) = unat x * unat y div unat d"
    if "unat y < 2 ^ 64"
  proof -
    have "unat x * unat y < 2 ^ 64 * 2 ^ 64"
      using that u64_bound[of x] by (intro mult_strict_mono') auto
    then have v: "unat (as_u128 x * y div d) = unat x * unat y div unat d"
      by (simp add: unat_mul_fits)
    with * have "unat (as_u128 x * y div d) < 2 ^ 64"
      using u64_bound[of x] by simp
    with v show ?thesis by (simp add: unat_ucast_narrow)
  qed
qed

text \<open>\<open>((amount as u128) * ((10_000 - fee_bps) as u128) / 10_000) as u64\<close>\<close>

lemma unat_less_fee:
  fixes a :: u64 and f :: u16
  assumes "f \<le> 10000"
  shows "unat (ucast (as_u128 a * ucast (10000 - f) div 10000) :: u64)
      = unat a * (10000 - unat f) div 10000"
proof -
  have f: "unat (10000 - f) = 10000 - unat f"
    using assms by (simp add: unat_sub_le)
  have "unat (ucast (10000 - f) :: u128) = 10000 - unat f" by (simp add: f)
  with unat_narrow_quotient(2)[of 10000 "ucast (10000 - f) :: u128" a] show ?thesis by simp
qed

lemma less_fee_le: "n * (10000 - f) div 10000 \<le> (n :: nat)"
proof -
  have "n * (10000 - f) div 10000 \<le> n * 10000 div 10000"
    by (intro div_le_mono mult_le_mono2) simp
  then show ?thesis by simp
qed

text \<open>The value a fee leaves, over the naturals.\<close>

definition net_of_fee :: "u64 \<Rightarrow> u16 \<Rightarrow> nat" where
  "net_of_fee a f = unat a * (10000 - unat f) div 10000"

lemma net_of_fee_le: "net_of_fee a f \<le> unat a"
  by (simp add: net_of_fee_def less_fee_le)

end
