(* ===== verification/Fixed.thy ===== *)
theory Fixed imports Prelude begin

text \<open>
  The Q64.64 fixed-point arithmetic of \<open>crates/meta_amm_math/src/fixed.rs\<close> and the error
  type of \<open>errors.rs\<close>.  \<open>mul_div_floor\<close> is the routine every price in the repository goes
  through: a 128 x 128 multiplication split into 64-bit limbs, followed by a bit-serial
  256 / 128 division.  It is proved equal to floor division over the natural numbers, and
  its contract is the locale \<open>floor_mul_div\<close>, which the quote theories use.
\<close>

section \<open>Errors and the Q64.64 type\<close>

datatype math_error =
    DivByZero | Overflow | Underflow | InvalidAmount | InvalidFee | InvalidConfig
  | EmptyLiquidity | DecimalsOutOfRange | StaleQuote | QuoteProtected | InventoryBand
  | PoolPaused

datatype q64x64 = Q64x64 (raw: u128)

text \<open>The derived \<open>PartialOrd\<close>/\<open>Ord\<close> of the newtype compares the raw values.\<close>

instantiation q64x64 :: linorder
begin

definition less_eq_q64x64 :: "q64x64 \<Rightarrow> q64x64 \<Rightarrow> bool" where
  "less_eq_q64x64 x y = (raw x \<le> raw y)"

definition less_q64x64 :: "q64x64 \<Rightarrow> q64x64 \<Rightarrow> bool" where
  "less_q64x64 x y = (raw x < raw y)"

instance
proof
  fix x y z :: q64x64
  show "x < y \<longleftrightarrow> x \<le> y \<and> \<not> y \<le> x" and "x \<le> x" and "x \<le> y \<or> y \<le> x"
    by (auto simp: less_eq_q64x64_def less_q64x64_def)
  show "x \<le> y \<Longrightarrow> y \<le> z \<Longrightarrow> x \<le> z"
    by (auto simp: less_eq_q64x64_def)
  show "x \<le> y \<Longrightarrow> y \<le> x \<Longrightarrow> x = y"
    by (auto simp: less_eq_q64x64_def intro: q64x64.expand)
qed

end

lemma q64x64_le_iff: "x \<le> y \<longleftrightarrow> unat (raw x) \<le> unat (raw y)"
  by (simp add: less_eq_q64x64_def word_le_nat_alt)

lemma q64x64_less_iff: "x < y \<longleftrightarrow> unat (raw x) < unat (raw y)"
  by (simp add: less_q64x64_def word_less_nat_alt)

section \<open>Widening multiplication and bit-serial division\<close>

definition mul_128_to_256 :: "u128 \<Rightarrow> u128 \<Rightarrow> math_error + (u128 \<times> u128)" where
  "mul_128_to_256 a b =
    (let mask = push_bit 64 1 - 1;
         ah = drop_bit 64 a; al = a AND mask;
         bh = drop_bit 64 b; bl = b AND mask;
         ll = al * bl; lh = al * bh; hl = ah * bl; hh = ah * bh;
         (mid, carry_mid) = overflowing_add lh hl;
         mid_lo = mid AND mask; mid_hi = drop_bit 64 mid;
         (low, carry_low) = overflowing_add ll (push_bit 64 mid_lo)
     in and_then (ok_or Overflow (checked_add hh mid_hi)) (\<lambda>high.
        and_then (if carry_mid then ok_or Overflow (checked_add high (push_bit 64 1)) else Ok high) (\<lambda>high.
        and_then (if carry_low then ok_or Overflow (checked_add high 1) else Ok high) (\<lambda>high.
        Ok (high, low)))))"

text \<open>One iteration of the division loop: \<open>k\<close> is the loop variable \<open>bit\<close>.\<close>

definition div_step :: "u128 \<Rightarrow> u128 \<Rightarrow> nat \<Rightarrow> u128 \<times> u128 \<Rightarrow> u128 \<times> u128" where
  "div_step low denominator k = (\<lambda>(remainder, quotient).
    (let carry = drop_bit 127 remainder;
         remainder = push_bit 1 remainder OR (drop_bit k low AND 1);
         quotient = push_bit 1 quotient
     in if carry = 1 \<or> denominator \<le> remainder
        then (if carry = 1 then remainder + (- denominator) else remainder - denominator,
              quotient OR 1)
        else (remainder, quotient)))"

text \<open>\<open>for bit in (0..n).rev()\<close>\<close>

fun div_loop :: "u128 \<Rightarrow> u128 \<Rightarrow> nat \<Rightarrow> u128 \<times> u128 \<Rightarrow> u128 \<times> u128" where
  "div_loop low denominator 0 rq = rq"
| "div_loop low denominator (Suc n) rq =
     div_loop low denominator n (div_step low denominator n rq)"

definition div_256_by_128 :: "u128 \<Rightarrow> u128 \<Rightarrow> u128 \<Rightarrow> math_error + u128" where
  "div_256_by_128 high low denominator =
    (if denominator = 0 then Err DivByZero
     else if high = 0 then Ok (low div denominator)
     else if denominator \<le> high then Err Overflow
     else Ok (snd (div_loop low denominator 128 (high, 0))))"

definition mul_div_floor :: "u128 \<Rightarrow> u128 \<Rightarrow> u128 \<Rightarrow> math_error + u128" where
  "mul_div_floor a b denominator =
    (if denominator = 0 then Err DivByZero
     else case checked_mul a b of
       Some product \<Rightarrow> Ok (product div denominator)
     | None \<Rightarrow> and_then (mul_128_to_256 a b) (\<lambda>(high, low). div_256_by_128 high low denominator))"

section \<open>Q64.64 operations\<close>

definition Q64 :: u128 where "Q64 = push_bit 64 1"

lemma Q64_code [code]: "Q64 = 18446744073709551616"
  by (simp add: Q64_def push_bit_eq_mult)

definition ZERO :: q64x64 where "ZERO = Q64x64 0"
definition ONE :: q64x64 where "ONE = Q64x64 Q64"

definition from_int :: "u64 \<Rightarrow> q64x64" where
  "from_int value = Q64x64 (push_bit 64 (as_u128 value))"

definition from_ratio :: "u128 \<Rightarrow> u128 \<Rightarrow> math_error + q64x64" where
  "from_ratio numerator denominator = map_ok Q64x64 (mul_div_floor numerator Q64 denominator)"

definition to_int_floor :: "q64x64 \<Rightarrow> u64" where
  "to_int_floor x = ucast (drop_bit 64 (raw x))"

definition q_checked_add :: "q64x64 \<Rightarrow> q64x64 \<Rightarrow> math_error + q64x64" where
  "q_checked_add x rhs = ok_or Overflow (map_option Q64x64 (checked_add (raw x) (raw rhs)))"

definition q_checked_sub :: "q64x64 \<Rightarrow> q64x64 \<Rightarrow> math_error + q64x64" where
  "q_checked_sub x rhs = ok_or Underflow (map_option Q64x64 (checked_sub (raw x) (raw rhs)))"

definition q_checked_mul :: "q64x64 \<Rightarrow> q64x64 \<Rightarrow> math_error + q64x64" where
  "q_checked_mul x rhs = map_ok Q64x64 (mul_div_floor (raw x) (raw rhs) Q64)"

definition q_checked_div :: "q64x64 \<Rightarrow> q64x64 \<Rightarrow> math_error + q64x64" where
  "q_checked_div x rhs = map_ok Q64x64 (mul_div_floor (raw x) Q64 (raw rhs))"

definition mul_amount_floor :: "q64x64 \<Rightarrow> u64 \<Rightarrow> math_error + u64" where
  "mul_amount_floor x amount =
    and_then (mul_div_floor (as_u128 amount) (raw x) Q64)
      (\<lambda>scaled. ok_or Overflow (u64_try_from scaled))"

definition div_amount_floor :: "q64x64 \<Rightarrow> u64 \<Rightarrow> math_error + u64" where
  "div_amount_floor x amount =
    and_then (mul_div_floor (as_u128 amount) Q64 (raw x))
      (\<lambda>scaled. ok_or Overflow (u64_try_from scaled))"

section \<open>The multiplication is exact\<close>

lemma unat_low_limb: "unat ((a :: u128) AND (push_bit 64 1 - 1)) = unat a mod 2 ^ 64"
proof -
  have "a AND (push_bit 64 1 - 1) = take_bit 64 a"
    by (simp only: take_bit_eq_mask mask_eq_exp_minus_1 push_bit_eq_mult mult_1)
  then have "unat (a AND (push_bit 64 1 - 1)) = take_bit 64 (unat a)"
    by (simp only: unsigned_take_bit_eq)
  then show ?thesis by (simp only: take_bit_eq_mod)
qed

lemma unat_shift_limb:
  assumes "unat x < 2 ^ 64" shows "unat (push_bit 64 (x :: u128)) = unat x * 2 ^ 64"
  using assms by (simp add: push_bit_eq_mult unat_mul_fits)

lemma unat_high_limb: "unat (drop_bit 64 (a :: u128)) = unat a div 2 ^ 64"
  by (simp add: unsigned_drop_bit_eq drop_bit_eq_div take_bit_eq_mod
      less_mult_imp_div_less u128_bound)

lemma overflowing_add_value:
  "overflowing_add a b = (s, c) \<Longrightarrow> of_bool c * 2 ^ 128 + unat s = unat a + unat (b :: u128)"
  using u128_bound[of a] u128_bound[of b]
  by (auto simp: overflowing_add_def unat_word_ariths mod_if)


lemma limb_split: "unat (a :: u128) = unat a div 2 ^ 64 * 2 ^ 64 + unat a mod 2 ^ 64"
  by (simp add: div_mult_mod_eq)

lemma limb_less: "unat (a :: u128) mod 2 ^ 64 < 2 ^ 64" "unat (a :: u128) div 2 ^ 64 < 2 ^ 64"
  using u128_bound[of a] by (auto simp: less_mult_imp_div_less)

lemma limb_product:
  assumes "x < 2 ^ 64" "y < (2 :: nat) ^ 64"
  shows "x * y \<le> (2 ^ 64 - 1) * (2 ^ 64 - 1)" and "x * y < 2 ^ 128"
proof -
  show *: "x * y \<le> (2 ^ 64 - 1) * (2 ^ 64 - 1)"
    using assms by (intro mult_le_mono) auto
  have "(2 ^ 64 - 1) * (2 ^ 64 - 1) < (2 :: nat) ^ 128" by simp
  with * show "x * y < 2 ^ 128" by (rule le_less_trans)
qed

lemma unat_limb_product:
  "unat x < 2 ^ 64 \<Longrightarrow> unat y < 2 ^ 64 \<Longrightarrow> unat (x * y :: u128) = unat x * unat y"
  using limb_product(2)[of "unat x" "unat y"] by (simp add: unat_mul_fits)

text \<open>The carries of the schoolbook multiplication, over the naturals: \<open>B\<close> is the limb base.\<close>

lemma schoolbook:
  fixes B :: nat
  assumes mid: "c * (B * B) + (mh * B + ml) = lh + hl"
    and low: "c' * (B * B) + lo = ll + ml * B"
  shows "(hh + mh + c * B + c') * (B * B) + lo = hh * (B * B) + (lh + hl) * B + ll"
  unfolding mid[symmetric] using low by (simp add: algebra_simps)

lemma limb_sum_product:
  fixes B :: nat
  shows "(ah * B + al) * (bh * B + bl) = (ah * bh) * (B * B) + (al * bh + ah * bl) * B + al * bl"
  by (simp add: algebra_simps)

text \<open>The high word fits because the whole product does.\<close>

lemma high_word_bound:
  assumes "h * 2 ^ 128 + l = unat (a :: u128) * unat (b :: u128)"
  shows "h < 2 ^ 128"
proof -
  have "unat a * unat b < 2 ^ 128 * 2 ^ 128"
    using u128_bound[of a] u128_bound[of b] by (intro mult_strict_mono) auto
  with assms have "h * 2 ^ 128 < 2 ^ 128 * 2 ^ 128" by linarith
  then show ?thesis by simp
qed

lemma add_carry:
  fixes x y :: u128
  assumes "unat x + of_bool c * unat y < 2 ^ 128"
  shows "(if c then ok_or e (checked_add x y) else Ok x) = Ok (if c then x + y else x)"
    and "unat (if c then x + y else x) = unat x + of_bool c * unat y"
  using assms by (auto simp: checked_add_def unat_add_fits)

lemma carry_chain:
  fixes hh mh low :: u128
  assumes "unat hh + unat mh + of_bool cm * 2 ^ 64 + of_bool cl < (2 :: nat) ^ 128"
  shows "\<exists>h. and_then (ok_or Overflow (checked_add hh mh)) (\<lambda>high.
      and_then (if cm then ok_or Overflow (checked_add high (push_bit 64 1)) else Ok high) (\<lambda>high.
      and_then (if cl then ok_or Overflow (checked_add high 1) else Ok high) (\<lambda>high.
      Ok (high, low)))) = Ok (h, low)
    \<and> unat h = unat hh + unat mh + of_bool cm * 2 ^ 64 + of_bool cl"
proof -
  have h1: "checked_add hh mh = Some (hh + mh)" and v1: "unat (hh + mh) = unat hh + unat mh"
    using assms by (simp_all add: checked_add_def unat_add_fits)
  define h2 where "h2 = (if cm then hh + mh + push_bit 64 1 else hh + mh)"
  note c2 = add_carry(1)[of "hh + mh" cm "push_bit 64 1" Overflow, folded h2_def]
    add_carry(2)[of "hh + mh" cm "push_bit 64 1", folded h2_def]
  have v2: "unat h2 = unat hh + unat mh + of_bool cm * 2 ^ 64"
    using assms v1 c2(2) by simp
  have e2: "(if cm then ok_or Overflow (checked_add (hh + mh) (push_bit 64 1))
      else Ok (hh + mh)) = Ok h2"
    using assms v1 by (intro c2(1)) simp
  define h3 where "h3 = (if cl then h2 + 1 else h2)"
  note c3 = add_carry(1)[of h2 cl 1 Overflow, folded h3_def] add_carry(2)[of h2 cl 1, folded h3_def]
  have v3: "unat h3 = unat hh + unat mh + of_bool cm * 2 ^ 64 + of_bool cl"
    using assms v2 c3(2) by simp
  have e3: "(if cl then ok_or Overflow (checked_add h2 1) else Ok h2) = Ok h3"
    using assms v2 by (intro c3(1)) simp
  show ?thesis
    using v3 by (intro exI[of _ h3]) (simp only: h1 e2 e3 ok_or_simps and_then_Ok simp_thms)
qed

lemma mul_128_to_256_correct:
  "\<exists>high low. mul_128_to_256 a b = Ok (high, low)
     \<and> unat high * 2 ^ 128 + unat low = unat a * unat b"
proof -
  let ?B = "2 ^ 64 :: nat"
  define mask :: u128 where "mask = push_bit 64 1 - 1"
  define al ah bl bh where "al = a AND mask" and "ah = drop_bit 64 a"
    and "bl = b AND mask" and "bh = drop_bit 64 b"
  note limbs = unat_low_limb unat_high_limb mask_def al_def ah_def bl_def bh_def
  have lt: "unat al < ?B" "unat ah < ?B" "unat bl < ?B" "unat bh < ?B"
    by (simp_all only: limbs limb_less)
  have a: "unat a = unat ah * ?B + unat al" and b: "unat b = unat bh * ?B + unat bl"
    by (simp_all only: limbs limb_split[symmetric])
  note prod = unat_limb_product[OF lt(1) lt(3)] unat_limb_product[OF lt(1) lt(4)]
    unat_limb_product[OF lt(2) lt(3)] unat_limb_product[OF lt(2) lt(4)]
  obtain mid cm where mid: "overflowing_add (al * bh) (ah * bl) = (mid, cm)" by fastforce
  define ml mh where "ml = mid AND mask" and "mh = drop_bit 64 mid"
  obtain lo cl where lo: "overflowing_add (al * bl) (push_bit 64 ml) = (lo, cl)" by fastforce
  have mid_limbs: "unat ml = unat mid mod ?B" "unat mh = unat mid div ?B"
    by (simp_all only: ml_def mh_def mask_def unat_low_limb unat_high_limb)
  have ml: "unat (push_bit 64 ml) = unat ml * ?B"
    by (rule unat_shift_limb) (simp only: mid_limbs limb_less)
  have mid': "of_bool cm * (?B * ?B) + (unat mh * ?B + unat ml) = unat al * unat bh + unat ah * unat bl"
    using overflowing_add_value[OF mid] by (simp add: prod mid_limbs)
  have lo': "of_bool cl * (?B * ?B) + unat lo = unat al * unat bl + unat ml * ?B"
    using overflowing_add_value[OF lo] by (simp add: prod ml)
  have total: "(unat ah * unat bh + unat mh + of_bool cm * ?B + of_bool cl) * 2 ^ 128 + unat lo
      = unat a * unat b"
    using schoolbook[OF mid' lo', of "unat ah * unat bh"]
    by (simp only: a b limb_sum_product) (simp add: algebra_simps)
  note fits = high_word_bound[OF total]
  obtain h where h: "unat h = unat ah * unat bh + unat mh + of_bool cm * ?B + of_bool cl"
    and chain: "and_then (ok_or Overflow (checked_add (ah * bh) mh)) (\<lambda>high.
      and_then (if cm then ok_or Overflow (checked_add high (push_bit 64 1)) else Ok high) (\<lambda>high.
      and_then (if cl then ok_or Overflow (checked_add high 1) else Ok high) (\<lambda>high.
      Ok (high, lo)))) = Ok (h, lo)"
    using carry_chain[of "ah * bh" mh cm cl lo] fits by (auto simp: prod)
  have "mul_128_to_256 a b = Ok (h, lo)"
    unfolding mul_128_to_256_def Let_def mask_def[symmetric] al_def[symmetric] ah_def[symmetric]
      bl_def[symmetric] bh_def[symmetric] mid prod.case ml_def[symmetric] mh_def[symmetric] lo
    by (rule chain)
  then show ?thesis using total h by auto
qed


section \<open>The bit-serial division is floor division\<close>

lemma unat_and_1: "unat ((x :: u128) AND 1) = of_bool (odd x)"
  by (simp add: and_one_eq mod_2_eq_odd)

lemma unat_shift_in_bit:
  fixes r :: u128
  shows "unat (push_bit 1 r OR (x AND 1)) = (2 * unat r) mod 2 ^ 128 + of_bool (odd x)"
proof -
  have "push_bit 1 r OR (x AND 1) = push_bit 1 r + (x AND 1)"
  proof (rule disjunctive_add_eq_or[symmetric], rule bit_eqI)
    fix n show "bit (push_bit 1 r AND (x AND 1)) n = bit 0 n"
      by (auto simp only: bit_push_bit_iff bit_and_iff bit_1_iff bit_0_eq)
  qed
  moreover have "unat (push_bit 1 r) = (2 * unat r) mod 2 ^ 128"
    by (simp add: unat_word_ariths mult.commute)
  moreover have "(2 * unat r) mod 2 ^ 128 + of_bool (odd x) < (2 :: nat) ^ 128"
  proof -
    have "(2 * unat r) mod (2 * 2 ^ 127) = 2 * (unat r mod 2 ^ 127)"
      by (rule mult_mod_right[symmetric])
    moreover have "unat r mod 2 ^ 127 < 2 ^ 127" by simp
    ultimately show ?thesis by (cases "odd x") auto
  qed
  ultimately show ?thesis by (simp add: unat_add_fits unat_and_1)
qed


lemma div_eq_1_iff: "n < 2 * m \<Longrightarrow> n div m = 1 \<longleftrightarrow> m \<le> (n :: nat)"
  by (cases "m \<le> n") (auto simp: le_div_geq)

lemma carry_iff: "drop_bit 127 r = 1 \<longleftrightarrow> 2 ^ 127 \<le> unat (r :: u128)"
proof -
  have "unat (drop_bit 127 r) = unat r div 2 ^ 127"
    using u128_bound[of r]
    by (simp add: unsigned_drop_bit_eq drop_bit_eq_div take_bit_eq_mod)
  then have "drop_bit 127 r = 1 \<longleftrightarrow> unat r div 2 ^ 127 = 1"
    by (simp add: word_eq_iff_unat)
  also have "\<dots> \<longleftrightarrow> 2 ^ 127 \<le> unat r"
    using u128_bound[of r] by (intro div_eq_1_iff) simp
  finally show ?thesis .
qed

text \<open>
  One step shifts the next bit of \<open>low\<close> into the remainder and subtracts the denominator when
  it fits: the remainder stays below the denominator although \<open>2 r + b\<close> may exceed 128 bits.
\<close>

lemma div_step_remainder:
  fixes r d low :: u128
  assumes "unat r < unat d" and step: "div_step low d k (r, q) = (r', q')"
  defines "x \<equiv> 2 * unat r + of_bool (odd (drop_bit k low))"
  shows "unat r' = (if unat d \<le> x then x - unat d else x)"
    and "q' = push_bit 1 q OR (if unat d \<le> x then 1 else 0)"
proof -
  define s where "s = push_bit 1 r OR (drop_bit k low AND 1)"
  have s: "unat s = (2 * unat r) mod 2 ^ 128 + of_bool (odd (drop_bit k low))"
    by (simp only: s_def unat_shift_in_bit)
  note step' = step[unfolded div_step_def prod.case Let_def, folded s_def]
  have x: "x < 2 * unat d"
    using assms(1) by (simp add: x_def)
  show "unat r' = (if unat d \<le> x then x - unat d else x)"
    and "q' = push_bit 1 q OR (if unat d \<le> x then 1 else 0)"
  proof (atomize (full), cases "drop_bit 127 r = 1")
    case True
    then have "2 ^ 128 \<le> 2 * unat r" by (simp add: carry_iff)
    then have sx: "unat s + 2 ^ 128 = x" and dx: "unat d \<le> x"
      using s u128_bound[of r] u128_bound[of d] by (auto simp: x_def mod_if)
    have "unat (s + (- d)) = x - unat d"
      using sx dx x assms(1) u128_bound[of s] u128_bound[of d]
      by (auto simp: unat_sub_if')
    with True dx step' show "unat r' = (if unat d \<le> x then x - unat d else x) \<and>
        q' = push_bit 1 q OR (if unat d \<le> x then 1 else 0)"
      by simp
  next
    case False
    then have "2 * unat r < 2 ^ 128" by (simp add: carry_iff)
    then have "unat s = x" using s by (simp add: x_def)
    with False step' show "unat r' = (if unat d \<le> x then x - unat d else x) \<and>
        q' = push_bit 1 q OR (if unat d \<le> x then 1 else 0)"
      by (auto simp: word_le_nat_alt unat_sub_le split: if_splits)
  qed
qed


lemma div_step_quotient:
  fixes q :: u128
  assumes "unat q < 2 ^ 127"
  shows "unat (push_bit 1 q OR (if c then 1 else 0)) = 2 * unat q + of_bool c"
proof -
  have "(if c then 1 else 0) = (if c then 1 else 0) AND (1 :: u128)" by simp
  then have "unat (push_bit 1 q OR (if c then 1 else 0))
      = (2 * unat q) mod 2 ^ 128 + of_bool (odd (if c then 1 else (0 :: u128)))"
    using unat_shift_in_bit[of q "if c then 1 else 0"] by simp
  with assms show ?thesis by simp
qed

text \<open>
  The loop invariant: after the bits from 127 down to \<open>n\<close>, the pair is quotient and remainder
  of the numerator's leading bits.
\<close>

definition leading_bits :: "nat \<Rightarrow> nat \<Rightarrow> nat \<Rightarrow> nat" where
  "leading_bits high low n = high * 2 ^ (128 - n) + low div 2 ^ n"

definition div_inv :: "nat \<Rightarrow> nat \<Rightarrow> nat \<Rightarrow> nat \<Rightarrow> nat \<Rightarrow> nat \<Rightarrow> bool" where
  "div_inv high low d n r q \<longleftrightarrow> leading_bits high low n = q * d + r \<and> r < d \<and> q < 2 ^ (128 - n)"

lemma leading_bits_Suc:
  assumes "n < 128"
  shows "leading_bits high low n = 2 * leading_bits high low (Suc n) + (low div 2 ^ n) mod 2"
proof -
  have "128 - n = Suc (128 - Suc n)" using assms by simp
  then have "(2 :: nat) ^ (128 - n) = 2 * 2 ^ (128 - Suc n)" by (simp only: power_Suc)
  moreover have "low div 2 ^ Suc n = low div 2 ^ n div 2"
    by (simp only: power_Suc2 div_mult2_eq)
  then have "low div 2 ^ n = 2 * (low div 2 ^ Suc n) + (low div 2 ^ n) mod 2"
    by (simp only: mult_div_mod_eq)
  ultimately show ?thesis by (simp only: leading_bits_def distrib_left mult.left_commute)
qed

lemma odd_drop_bit: "of_bool (odd (drop_bit n (low :: u128))) = unat low div 2 ^ n mod 2"
proof -
  have "odd (drop_bit n low) = bit (unat low) n"
    by (simp only: bit_iff_odd_drop_bit[symmetric] bit_unsigned_iff possible_bit_nat simp_thms)
  also have "\<dots> = odd (unat low div 2 ^ n)" by (rule bit_iff_odd)
  finally show ?thesis by (simp add: mod_2_eq_odd)
qed

lemma div_step_inv:
  assumes inv: "div_inv high (unat low) (unat d) (Suc n) (unat r) (unat q)" and n: "n < 128"
    and step: "div_step low d n (r, q) = (r', q')"
  shows "div_inv high (unat low) (unat d) n (unat r') (unat q')"
proof -
  define x where "x = 2 * unat r + of_bool (odd (drop_bit n low))"
  have rd: "unat r < unat d" and q: "unat q < 2 ^ (128 - Suc n)"
    and lead: "leading_bits high (unat low) (Suc n) = unat q * unat d + unat r"
    using inv by (simp_all add: div_inv_def)
  have "(2 :: nat) ^ (128 - Suc n) \<le> 2 ^ 127" by (rule power_increasing) auto
  with q have "unat q < 2 ^ 127" by (rule less_le_trans)
  then have q': "unat q' = 2 * unat q + of_bool (unat d \<le> x)"
    using div_step_remainder(2)[OF rd step] by (simp only: div_step_quotient x_def)
  have r': "unat r' = (if unat d \<le> x then x - unat d else x)"
    using div_step_remainder(1)[OF rd step] by (simp only: x_def)
  have "leading_bits high (unat low) n = 2 * (unat q * unat d) + x"
    using lead leading_bits_Suc[OF n, of high "unat low"] odd_drop_bit[of n low]
    by (simp add: x_def)
  moreover have "x < 2 * unat d" using rd by (simp add: x_def)
  moreover have "(2 :: nat) ^ (128 - n) = 2 * 2 ^ (128 - Suc n)"
    using n by (simp flip: power_Suc add: Suc_diff_Suc)
  ultimately show ?thesis
    using q q' r' by (auto simp: div_inv_def algebra_simps split: if_splits)
qed

lemma div_loop_inv:
  "div_inv high (unat low) (unat d) n (unat r) (unat q) \<Longrightarrow> n \<le> 128 \<Longrightarrow>
   div_loop low d n (r, q) = (r', q') \<Longrightarrow> div_inv high (unat low) (unat d) 0 (unat r') (unat q')"
proof (induction n arbitrary: r q)
  case 0
  then show ?case by simp
next
  case (Suc n)
  obtain r1 q1 where step: "div_step low d n (r, q) = (r1, q1)" by fastforce
  from Suc.prems have "div_inv high (unat low) (unat d) n (unat r1) (unat q1)"
    by (intro div_step_inv[OF _ _ step]) auto
  then show ?case using Suc.IH Suc.prems step by simp
qed

lemma div_256_by_128_correct:
  assumes "unat high < unat d"
  shows "\<exists>q. div_256_by_128 high low d = Ok q
    \<and> unat q = (unat high * 2 ^ 128 + unat low) div unat d"
proof (cases "high = 0")
  case True
  with assms show ?thesis by (auto simp: div_256_by_128_def)
next
  case False
  obtain r q where loop: "div_loop low d 128 (high, 0) = (r, q)" by fastforce
  have "div_inv (unat high) (unat low) (unat d) 128 (unat high) (unat (0 :: u128))"
    using assms u128_bound[of low] by (simp add: div_inv_def leading_bits_def)
  from div_loop_inv[OF this _ loop]
  have "div_inv (unat high) (unat low) (unat d) 0 (unat r) (unat q)" by simp
  then have "unat high * 2 ^ 128 + unat low = unat q * unat d + unat r" and "unat r < unat d"
    by (simp_all add: div_inv_def leading_bits_def)
  then have "unat q = (unat high * 2 ^ 128 + unat low) div unat d"
    by (simp add: div_mult_self3)
  moreover have "div_256_by_128 high low d = Ok q"
    using False assms loop by (auto simp: div_256_by_128_def word_le_nat_alt)
  ultimately show ?thesis by blast
qed


section \<open>The contract of the division\<close>

lemma product_high_word:
  assumes "h * 2 ^ 128 + l = p" "l < 2 ^ 128"
  shows "h = p div (2 :: nat) ^ 128"
proof -
  from assms have "p div 2 ^ 128 = (l + h * 2 ^ 128) div 2 ^ 128" by (simp only: add.commute)
  also have "\<dots> = h" using assms(2) by (simp only: div_mult_self1 div_less)
  finally show ?thesis ..
qed

lemma high_word_less_iff:
  fixes p h l d :: nat
  assumes p: "h * 2 ^ 128 + l = p" "l < 2 ^ 128" and d: "0 < d"
  shows "h < d \<longleftrightarrow> p div d < 2 ^ 128"
proof -
  have "h < d \<longleftrightarrow> p < d * 2 ^ 128"
    using product_high_word[OF p] by (simp add: div_less_iff_mult)
  also have "\<dots> \<longleftrightarrow> p div d < 2 ^ 128"
    using d by (simp add: div_less_iff_mult mult.commute)
  finally show ?thesis .
qed

text \<open>Every outcome of \<open>mul_div_floor\<close>, on the fast and on the 256-bit path.\<close>

lemma mul_div_floor_zero: "mul_div_floor a b 0 = Err DivByZero"
  by (simp add: mul_div_floor_def)

lemma mul_div_floor_slow:
  assumes "d \<noteq> 0" "checked_mul a b = None"
  shows "mul_div_floor a b d =
    (if unat a * unat b div unat d < 2 ^ 128 then Ok (of_nat (unat a * unat b div unat d))
     else Err Overflow)"
proof -
  obtain h l where mul: "mul_128_to_256 a b = Ok (h, l)"
    and p: "unat h * 2 ^ 128 + unat l = unat a * unat b"
    using mul_128_to_256_correct by blast
  have d: "0 < unat d" using assms(1) by (simp add: unat_gt_0)
  have fits: "unat h < unat d \<longleftrightarrow> unat a * unat b div unat d < 2 ^ 128"
    using p _ d by (rule high_word_less_iff) (use unat_lt2p[of l] in simp)
  have "mul_div_floor a b d = div_256_by_128 h l d"
    using assms mul by (simp add: mul_div_floor_def)
  also have "\<dots> = (if unat h < unat d then Ok (of_nat (unat a * unat b div unat d)) else Err Overflow)"
  proof (cases "unat h < unat d")
    case True
    then obtain q where q: "div_256_by_128 h l d = Ok q" and v: "unat q = unat a * unat b div unat d"
      using div_256_by_128_correct[of h d l] p by auto
    then have "q = of_nat (unat a * unat b div unat d)" by (simp flip: v)
    with True q show ?thesis by simp
  next
    case False
    then have "h \<noteq> 0" using d by auto
    with False assms(1) show ?thesis by (simp add: div_256_by_128_def word_le_nat_alt)
  qed
  finally show ?thesis by (simp only: fits)
qed

lemma mul_div_floor_spec:
  "mul_div_floor a b d =
    (if unat d = 0 then Err DivByZero
     else if unat a * unat b div unat d < 2 ^ 128 then Ok (of_nat (unat a * unat b div unat d))
     else Err Overflow)"
proof (cases "d = 0")
  case True
  then show ?thesis by (simp add: mul_div_floor_zero)
next
  case d: False
  show ?thesis
  proof (cases "checked_mul a b")
    case None
    with d show ?thesis by (simp add: mul_div_floor_slow unat_eq_0)
  next
    case (Some p)
    then have "unat p = unat a * unat b" by (simp add: checked_mul_eq_Some)
    then have v: "unat (p div d) = unat a * unat b div unat d" by simp
    then have "p div d = of_nat (unat a * unat b div unat d)" by (metis of_nat_unat_id)
    moreover have "unat a * unat b div unat d < 2 ^ 128" using v unat_lt2p[of "p div d"] by simp
    ultimately show ?thesis using d Some by (simp add: mul_div_floor_def unat_eq_0)
  qed
qed

text \<open>The interface: what the quote functions rely on, and what follows from it.\<close>

locale floor_mul_div =
  fixes md :: "u128 \<Rightarrow> u128 \<Rightarrow> u128 \<Rightarrow> math_error + u128"
  assumes md_zero: "md a b 0 = Err DivByZero"
    and md_exact: "d \<noteq> 0 \<Longrightarrow> unat a * unat b div unat d < 2 ^ 128 \<Longrightarrow>
      md a b d = Ok (of_nat (unat a * unat b div unat d))"
    and md_overflow: "d \<noteq> 0 \<Longrightarrow> 2 ^ 128 \<le> unat a * unat b div unat d \<Longrightarrow> md a b d = Err Overflow"
begin

lemma md_Ok_iff: "md a b d = Ok q \<longleftrightarrow> d \<noteq> 0 \<and> unat q = unat a * unat b div unat d"
proof (cases "d = 0")
  case False
  show ?thesis
  proof (cases "unat a * unat b div unat d < 2 ^ 128")
    case True
    with False show ?thesis
      by (auto simp: md_exact word_eq_iff_unat unat_of_nat_fits)
  next
    case large: False
    then have "unat q \<noteq> unat a * unat b div unat d" using unat_lt2p[of q] by auto
    with False large show ?thesis by (simp add: md_overflow)
  qed
qed (simp add: md_zero)

lemma md_Err_iff:
  "md a b d = Err e \<longleftrightarrow>
    (d = 0 \<and> e = DivByZero) \<or> (d \<noteq> 0 \<and> 2 ^ 128 \<le> unat a * unat b div unat d \<and> e = Overflow)"
proof (cases "d = 0")
  case False
  then show ?thesis
    by (cases "unat a * unat b div unat d < 2 ^ 128") (auto simp: md_exact md_overflow)
qed (auto simp: md_zero)

lemma md_mono:
  "md a b d = Ok q \<Longrightarrow> md a' b' d = Ok q' \<Longrightarrow> unat a \<le> unat a' \<Longrightarrow> unat b \<le> unat b' \<Longrightarrow>
   unat q \<le> unat q'"
  by (simp add: md_Ok_iff div_le_mono mult_le_mono)

lemma md_shrinks: "md a b d = Ok q \<Longrightarrow> unat b \<le> unat d \<Longrightarrow> unat q \<le> unat a"
proof -
  assume "md a b d = Ok q" and le: "unat b \<le> unat d"
  then have "0 < unat d" and q: "unat q = unat a * unat b div unat d"
    by (auto simp: md_Ok_iff unat_gt_0)
  moreover have "unat a * unat b \<le> unat a * unat d" using le by simp
  ultimately show ?thesis by (metis div_le_mono nonzero_mult_div_cancel_right less_irrefl)
qed

lemma md_total: "d \<noteq> 0 \<Longrightarrow> unat b \<le> unat d \<Longrightarrow> \<exists>q. md a b d = Ok q"
proof -
  assume d: "d \<noteq> 0" and le: "unat b \<le> unat d"
  have "unat a * unat b div unat d \<le> unat a * unat d div unat d"
    using le by (intro div_le_mono mult_le_mono2)
  also have "\<dots> = unat a" using d by (simp add: unat_eq_0)
  finally have "unat a * unat b div unat d < 2 ^ 128"
    using unat_lt2p[of a] by (simp add: le_less_trans)
  with d show ?thesis by (auto simp: md_exact)
qed

end

interpretation mdf: floor_mul_div mul_div_floor
  by unfold_locales (auto simp: mul_div_floor_spec unat_eq_0)


section \<open>Facts about Q64.64 values\<close>

named_theorems q64_simps \<open>Q64.64 operations as arithmetic on raw values\<close>

lemma unat_Q64 [simp]: "unat Q64 = 18446744073709551616"
  by (simp add: Q64_def)

lemma Q64_nonzero [simp]: "Q64 \<noteq> 0"
  by (simp add: word_eq_iff_unat)

lemma raw_simps [simp]: "raw ZERO = 0" "raw ONE = Q64"
  by (simp_all add: ZERO_def ONE_def)

lemma unat_raw_from_int [q64_simps]: "unat (raw (from_int v)) = unat v * 2 ^ 64"
  using u64_bound[of v] by (simp add: from_int_def unat_shift_limb)

lemma q64x64_eq_iff: "x = y \<longleftrightarrow> unat (raw x) = unat (raw y)"
  by (metis q64x64.expand word_eq_iff_unat)

lemma q_checked_mul_Ok [q64_simps]:
  "q_checked_mul x y = Ok z \<longleftrightarrow> unat (raw z) = unat (raw x) * unat (raw y) div 2 ^ 64"
  by (cases z) (auto simp: q_checked_mul_def map_ok_eq mdf.md_Ok_iff)

lemma q_checked_div_Ok [q64_simps]:
  "q_checked_div x y = Ok z \<longleftrightarrow> raw y \<noteq> 0 \<and> unat (raw z) = unat (raw x) * 2 ^ 64 div unat (raw y)"
  by (cases z) (auto simp: q_checked_div_def map_ok_eq mdf.md_Ok_iff)

lemma from_ratio_Ok [q64_simps]:
  "from_ratio n d = Ok z \<longleftrightarrow> d \<noteq> 0 \<and> unat (raw z) = unat n * 2 ^ 64 div unat d"
  by (cases z) (auto simp: from_ratio_def map_ok_eq mdf.md_Ok_iff)

lemma from_ratio_u64_total:
  "d \<noteq> 0 \<Longrightarrow> unat n < 2 ^ 64 \<Longrightarrow> \<exists>z. from_ratio n d = Ok z"
proof -
  assume d: "d \<noteq> 0" and n: "unat n < 2 ^ 64"
  have "unat n * 2 ^ 64 div unat d \<le> unat n * 2 ^ 64" by (rule div_le_dividend)
  also have "\<dots> < 2 ^ 128" using n by simp
  finally have "mul_div_floor n Q64 d = Ok (of_nat (unat n * 2 ^ 64 div unat d))"
    using d mdf.md_exact[of d n Q64] by simp
  then show ?thesis by (simp add: from_ratio_def)
qed

lemma mul_amount_floor_Ok [q64_simps]:
  "mul_amount_floor p n = Ok m \<longleftrightarrow> unat m = unat n * unat (raw p) div 2 ^ 64"
proof
  assume "unat m = unat n * unat (raw p) div 2 ^ 64"
  then have "mul_div_floor (as_u128 n) (raw p) Q64 = Ok (as_u128 m)"
    by (simp add: mdf.md_Ok_iff)
  then show "mul_amount_floor p n = Ok m"
    by (simp add: mul_amount_floor_def ok_or_eq u64_try_from_eq_Some)
qed (auto simp: mul_amount_floor_def result_simps mdf.md_Ok_iff u64_try_from_eq_Some)

lemma div_amount_floor_Ok [q64_simps]:
  "div_amount_floor p n = Ok m \<longleftrightarrow> raw p \<noteq> 0 \<and> unat m = unat n * 2 ^ 64 div unat (raw p)"
proof
  assume "raw p \<noteq> 0 \<and> unat m = unat n * 2 ^ 64 div unat (raw p)"
  then have "mul_div_floor (as_u128 n) Q64 (raw p) = Ok (as_u128 m)" and "raw p \<noteq> 0"
    by (simp_all add: mdf.md_Ok_iff)
  then show "div_amount_floor p n = Ok m"
    by (simp add: div_amount_floor_def ok_or_eq u64_try_from_eq_Some)
qed (auto simp: div_amount_floor_def result_simps mdf.md_Ok_iff u64_try_from_eq_Some)

lemma mul_amount_floor_Err: "mul_amount_floor p n = Err e \<Longrightarrow> e = Overflow"
  by (auto simp: mul_amount_floor_def result_simps mdf.md_Err_iff)

lemma div_amount_floor_Err:
  "div_amount_floor p n = Err e \<Longrightarrow> e = Overflow \<or> (raw p = 0 \<and> e = DivByZero)"
  by (auto simp: div_amount_floor_def result_simps mdf.md_Err_iff)

lemma floor_roundtrip_le:
  fixes n p s :: nat
  assumes "0 < p" "0 < s"
  shows "(n * p div s) * s div p \<le> n"
proof -
  have "(n * p div s) * s \<le> n * p" by simp
  then have "(n * p div s) * s div p \<le> n * p div p" by (rule div_le_mono)
  with assms show ?thesis by simp
qed

section \<open>Properties\<close>

text \<open>
  C5: on every input \<open>mul_div_floor\<close> returns exactly floor(a b / d): \<open>DivByZero\<close> for a zero
  denominator, \<open>Overflow\<close> exactly when the quotient does not fit 128 bits, and otherwise the
  exact quotient, whether the product fits 128 bits or goes through the 256-bit limbs.
\<close>

theorem mul_div_floor_is_floor_division:
  "mul_div_floor a b d =
    (if unat d = 0 then Err DivByZero
     else if unat a * unat b div unat d < 2 ^ 128 then Ok (of_nat (unat a * unat b div unat d))
     else Err Overflow)"
  by (rule mul_div_floor_spec)

text \<open>
  The limb multiplication never fails and its two words are the exact 256-bit product,
  so none of its internal products or carries overflows.
\<close>

lemma mul_128_to_256_exact:
  "\<exists>high low. mul_128_to_256 a b = Ok (high, low)
     \<and> unat high * 2 ^ 128 + unat low = unat a * unat b"
  by (rule mul_128_to_256_correct)

text \<open>
  Converting base atoms to quote atoms at a price and back never gains an atom, in either
  order of the two conversions.
\<close>

lemma amount_conversion_never_gains:
  assumes "raw p \<noteq> 0"
  shows "(mul_amount_floor p n = Ok m \<longrightarrow> div_amount_floor p m = Ok n' \<longrightarrow> n' \<le> n)
    \<and> (div_amount_floor p n = Ok m \<longrightarrow> mul_amount_floor p m = Ok n' \<longrightarrow> n' \<le> n)"
proof -
  have pos: "0 < unat (raw p)" using assms by (simp add: unat_gt_0)
  show ?thesis
    using floor_roundtrip_le[OF pos, of "2 ^ 64" "unat n"]
      floor_roundtrip_le[of "2 ^ 64" "unat (raw p)" "unat n"] pos
    by (simp add: q64_simps word_le_nat_alt)
qed

theorem amount_conversion_never_gains_witness:
  "mul_amount_floor (Q64x64 27670116110564327424) 1001 = Ok 1501
     \<and> div_amount_floor (Q64x64 27670116110564327424) 1501 = Ok 1000 \<and> (1000 :: u64) \<le> 1001"
proof -
  have nz: "raw (Q64x64 27670116110564327424) \<noteq> 0" by simp
  have "mul_amount_floor (Q64x64 27670116110564327424) 1001 = Ok 1501"
    and "div_amount_floor (Q64x64 27670116110564327424) 1501 = Ok 1000"
    by (simp_all add: q64_simps)
  then show ?thesis
    using amount_conversion_never_gains[OF nz] by blast
qed

end
