(* ===== verification/Cpmm.thy ===== *)
theory Cpmm imports Fixed begin

text \<open>
  The constant-product quote of \<open>crates/meta_amm_math/src/cpmm.rs\<close>.  The quote is
  characterised over the natural numbers on every branch, and from that follow the two facts
  a liquidity provider relies on: the product of the reserves never falls along any sequence
  of trades, and no trade can be undone at a profit.
\<close>

section \<open>Data and the quote\<close>

record cpmm_reserves =
  base :: u64
  quote :: u64

record cpmm_quote =
  cq_amount_in_less_fee :: u64
  cq_amount_out :: u64
  cq_new_base :: u64
  cq_new_quote :: u64
  cq_effective_price :: q64x64

definition cpmm_quote_exact_in ::
    "cpmm_reserves \<Rightarrow> u64 \<Rightarrow> bool \<Rightarrow> u16 \<Rightarrow> math_error + cpmm_quote" where
  "cpmm_quote_exact_in reserves amount_in base_to_quote fee_bps =
    (if base reserves = 0 \<or> quote reserves = 0 then Err EmptyLiquidity
     else if amount_in = 0 then Err InvalidAmount
     else if 10000 \<le> fee_bps then Err InvalidFee
     else
       let amount_in_less_fee = ucast (as_u128 amount_in * ucast (10000 - fee_bps) div 10000) :: u64
       in if amount_in_less_fee = 0 then Err InvalidAmount
     else
       let (in_reserve, out_reserve) =
         (if base_to_quote then (base reserves, quote reserves) else (quote reserves, base reserves))
       in and_then (ok_or Overflow (checked_add (as_u128 in_reserve) (as_u128 amount_in_less_fee)))
         (\<lambda>denominator.
       let amount_out = ucast (as_u128 out_reserve * as_u128 amount_in_less_fee div denominator) :: u64
       in if amount_out = 0 \<or> out_reserve \<le> amount_out then Err InvalidAmount
     else and_then
       (if base_to_quote then
          and_then (ok_or Overflow (checked_add (base reserves) amount_in)) (\<lambda>new_base.
          and_then (ok_or Underflow (checked_sub (quote reserves) amount_out)) (\<lambda>new_quote.
          and_then (from_ratio (as_u128 amount_out) (as_u128 amount_in)) (\<lambda>price.
          Ok (new_base, new_quote, price))))
        else
          and_then (ok_or Overflow (checked_add (quote reserves) amount_in)) (\<lambda>new_quote.
          and_then (ok_or Underflow (checked_sub (base reserves) amount_out)) (\<lambda>new_base.
          and_then (from_ratio (as_u128 amount_in) (as_u128 amount_out)) (\<lambda>price.
          Ok (new_base, new_quote, price)))))
       (\<lambda>(new_base, new_quote, effective_price).
         Ok \<lparr>cq_amount_in_less_fee = amount_in_less_fee, cq_amount_out = amount_out,
             cq_new_base = new_base, cq_new_quote = new_quote,
             cq_effective_price = effective_price\<rparr>)))"

section \<open>What the quote computes\<close>

text \<open>
  The abstract quote: the fee is taken from the input, the output is the floor of the
  constant-product formula, and \<open>None\<close> stands for every rejection.
\<close>

definition cpmm_out :: "nat \<Rightarrow> nat \<Rightarrow> nat \<Rightarrow> nat" where
  "cpmm_out rin rout net = rout * net div (rin + net)"

definition in_reserve :: "cpmm_reserves \<Rightarrow> bool \<Rightarrow> u64" where
  "in_reserve r b2q = (if b2q then base r else quote r)"

definition out_reserve :: "cpmm_reserves \<Rightarrow> bool \<Rightarrow> u64" where
  "out_reserve r b2q = (if b2q then quote r else base r)"

definition reserves_after :: "cpmm_quote \<Rightarrow> cpmm_reserves" where
  "reserves_after q = \<lparr>base = cq_new_base q, quote = cq_new_quote q\<rparr>"

definition product_k :: "cpmm_reserves \<Rightarrow> nat" where
  "product_k r = unat (base r) * unat (quote r)"

lemma product_k_in_out: "product_k r = unat (in_reserve r b) * unat (out_reserve r b)"
  by (simp add: product_k_def in_reserve_def out_reserve_def mult.commute)

lemma cpmm_out_le: "cpmm_out i r n \<le> r"
proof (cases "i + n = 0")
  case False
  have "r * n \<le> r * (i + n)" by simp
  then have "cpmm_out i r n \<le> r * (i + n) div (i + n)"
    unfolding cpmm_out_def by (rule div_le_mono)
  with False show ?thesis by simp
qed (simp add: cpmm_out_def)

lemma cpmm_out_less:
  assumes "0 < i" "0 < r" shows "cpmm_out i r n < r"
  using assms by (simp add: cpmm_out_def div_less_iff_mult algebra_simps)

text \<open>The abstract trade keeps the product: what is added before fees only helps.\<close>

lemma cpmm_out_k:
  assumes "n \<le> a" shows "i * r \<le> (i + a) * (r - cpmm_out i r n)"
proof -
  have "cpmm_out i r n * (i + n) \<le> r * n"
    by (simp add: cpmm_out_def)
  then have "i * r \<le> (i + n) * r - (i + n) * cpmm_out i r n"
    by (simp add: algebra_simps)
  also have "\<dots> = (i + n) * (r - cpmm_out i r n)" by (simp add: right_diff_distrib')
  also have "\<dots> \<le> (i + a) * (r - cpmm_out i r n)" using assms by (intro mult_le_mono1) simp
  finally show ?thesis .
qed

lemma cpmm_out_word:
  fixes i r n :: u64
  assumes "0 < unat i"
  shows "checked_add (as_u128 i) (as_u128 n) = Some (as_u128 i + as_u128 n)"
    and "unat (ucast (as_u128 r * as_u128 n div (as_u128 i + as_u128 n)) :: u64)
       = cpmm_out (unat i) (unat r) (unat n)"
proof -
  have fits: "unat i + unat n < 2 ^ 128"
    using u64_bound[of i] u64_bound[of n] by simp
  then show "checked_add (as_u128 i) (as_u128 n) = Some (as_u128 i + as_u128 n)"
    by (simp add: checked_add_def)
  have v: "unat (as_u128 i + as_u128 n) = unat i + unat n"
    using fits by (simp add: unat_add_fits)
  show "unat (ucast (as_u128 r * as_u128 n div (as_u128 i + as_u128 n)) :: u64)
       = cpmm_out (unat i) (unat r) (unat n)"
    using assms unat_narrow_quotient(2)[of "as_u128 i + as_u128 n" "as_u128 n" r] u64_bound[of n]
    by (simp add: v cpmm_out_def)
qed

text \<open>Every outcome of the quote, in the order the code tests them.\<close>

lemma cpmm_price_total:
  assumes "(d :: u64) \<noteq> 0" obtains p where "from_ratio (as_u128 n) (as_u128 d) = Ok p"
proof -
  have "as_u128 d \<noteq> 0" using assms by (simp add: word_eq_iff_unat)
  then show thesis using from_ratio_u64_total[of "as_u128 d" "as_u128 n"] u64_bound[of n] that
    by auto
qed

definition cpmm_outcome :: "cpmm_reserves \<Rightarrow> u64 \<Rightarrow> bool \<Rightarrow> u16 \<Rightarrow> math_error option" where
  "cpmm_outcome r a b2q f =
    (let net = net_of_fee a f;
         out = cpmm_out (unat (in_reserve r b2q)) (unat (out_reserve r b2q)) net
     in if base r = 0 \<or> quote r = 0 then Some EmptyLiquidity
        else if a = 0 then Some InvalidAmount
        else if 10000 \<le> f then Some InvalidFee
        else if net = 0 \<or> out = 0 then Some InvalidAmount
        else if 2 ^ 64 \<le> unat (in_reserve r b2q) + unat a then Some Overflow
        else None)"

definition trade_delta :: "cpmm_reserves \<Rightarrow> u64 \<Rightarrow> bool \<Rightarrow> u16 \<Rightarrow> cpmm_quote \<Rightarrow> bool" where
  "trade_delta r a b2q f q \<longleftrightarrow>
     unat (cq_amount_in_less_fee q) = net_of_fee a f
   \<and> unat (cq_amount_out q)
       = cpmm_out (unat (in_reserve r b2q)) (unat (out_reserve r b2q)) (net_of_fee a f)
   \<and> unat (in_reserve (reserves_after q) b2q) = unat (in_reserve r b2q) + unat a
   \<and> unat (out_reserve (reserves_after q) b2q) + unat (cq_amount_out q) = unat (out_reserve r b2q)
   \<and> unat (raw (cq_effective_price q))
       = (if b2q then unat (cq_amount_out q) * 2 ^ 64 div unat a
          else unat a * 2 ^ 64 div unat (cq_amount_out q))"

lemma cpmm_quote_computes:
  assumes nz: "base r \<noteq> 0" "quote r \<noteq> 0" "a \<noteq> 0" and f: "f < 10000"
    and net: "net_of_fee a f \<noteq> 0"
    and out: "cpmm_out (unat (in_reserve r b2q)) (unat (out_reserve r b2q)) (net_of_fee a f) \<noteq> 0"
  shows "if unat (in_reserve r b2q) + unat a < 2 ^ 64
    then \<exists>q. cpmm_quote_exact_in r a b2q f = Ok q \<and> trade_delta r a b2q f q
    else cpmm_quote_exact_in r a b2q f = Err Overflow"
proof -
  define less :: u64 where "less = ucast (as_u128 a * ucast (10000 - f) div 10000)"
  have less: "unat less = net_of_fee a f"
    using unat_less_fee[of f a] f by (simp add: less_def net_of_fee_def)
  have less_nz: "less \<noteq> 0" using less net by auto
  have pos: "0 < unat (in_reserve r b2q)" "0 < unat (out_reserve r b2q)"
    using nz by (auto simp: in_reserve_def out_reserve_def unat_gt_0)
  define amt :: u64 where
    "amt = ucast (as_u128 (out_reserve r b2q) * as_u128 less
                    div (as_u128 (in_reserve r b2q) + as_u128 less))"
  have amt: "unat amt = cpmm_out (unat (in_reserve r b2q)) (unat (out_reserve r b2q)) (net_of_fee a f)"
    using cpmm_out_word(2)[OF pos(1), of "out_reserve r b2q" less] by (simp add: amt_def less)
  have amt_nz: "amt \<noteq> 0" using amt out by auto
  have amt_less: "amt < out_reserve r b2q"
    using cpmm_out_less[OF pos] by (simp add: amt word_less_nat_alt)
  obtain p where p: "(if b2q then from_ratio (as_u128 amt) (as_u128 a)
      else from_ratio (as_u128 a) (as_u128 amt)) = Ok p"
    using cpmm_price_total[OF nz(3), of amt] cpmm_price_total[OF amt_nz, of a] that by (metis (full_types))
  have sub: "checked_sub (out_reserve r b2q) amt = Some (out_reserve r b2q - amt)"
    using amt_less by (simp add: checked_sub_def)
  have guards: "\<not> (base r = 0 \<or> quote r = 0)" "a \<noteq> 0" "\<not> 10000 \<le> f" "less \<noteq> 0"
      "\<not> (amt = 0 \<or> out_reserve r b2q \<le> amt)"
    using nz f less_nz amt_nz amt_less by auto
  have amt_cases:
    "b2q \<Longrightarrow> ucast (as_u128 (quote r) * as_u128 less div (as_u128 (base r) + as_u128 less)) = amt"
    "\<not> b2q \<Longrightarrow> ucast (as_u128 (base r) * as_u128 less div (as_u128 (quote r) + as_u128 less)) = amt"
    by (simp_all add: amt_def in_reserve_def out_reserve_def)
  have run: "cpmm_quote_exact_in r a b2q f =
    and_then (ok_or Overflow (checked_add (in_reserve r b2q) a)) (\<lambda>i.
      Ok \<lparr>cq_amount_in_less_fee = less, cq_amount_out = amt,
          cq_new_base = (if b2q then i else out_reserve r b2q - amt),
          cq_new_quote = (if b2q then out_reserve r b2q - amt else i),
          cq_effective_price = p\<rparr>)"
    using guards p sub cpmm_out_word(1)[OF pos(1), of less]
    by (cases b2q; cases "checked_add (in_reserve r b2q) a")
      (simp_all add: cpmm_quote_exact_in_def less_def[symmetric] amt_cases
        in_reserve_def out_reserve_def Let_def)
  show ?thesis
  proof (cases "unat (in_reserve r b2q) + unat a < 2 ^ 64")
    case True
    then have add: "checked_add (in_reserve r b2q) a = Some (in_reserve r b2q + a)"
      and v: "unat (in_reserve r b2q + a) = unat (in_reserve r b2q) + unat a"
      by (simp_all add: checked_add_def unat_add_fits)
    have "unat (out_reserve r b2q - amt) + unat amt = unat (out_reserve r b2q)"
      using amt_less by (simp add: unat_sub_le word_le_nat_alt word_less_nat_alt)
    moreover have "unat (raw p) = (if b2q then unat amt * 2 ^ 64 div unat a
        else unat a * 2 ^ 64 div unat amt)"
      using p by (cases b2q) (auto simp: from_ratio_Ok)
    ultimately show ?thesis
      using True add v less amt
      by (simp add: run trade_delta_def reserves_after_def in_reserve_def out_reserve_def
          split: if_splits)
  next
    case False
    then show ?thesis by (simp add: run checked_add_def)
  qed
qed

lemma cpmm_quote_spec:
  "case cpmm_outcome r a b2q f of
     Some e \<Rightarrow> cpmm_quote_exact_in r a b2q f = Err e
   | None \<Rightarrow> \<exists>q. cpmm_quote_exact_in r a b2q f = Ok q \<and> trade_delta r a b2q f q"
proof (cases "base r = 0 \<or> quote r = 0 \<or> a = 0 \<or> 10000 \<le> f")
  case True
  then show ?thesis
    by (cases "base r = 0 \<or> quote r = 0"; cases "a = 0")
      (simp_all add: cpmm_outcome_def cpmm_quote_exact_in_def Let_def)
next
  case guards: False
  then have f: "f < 10000" by (simp add: not_le)
  define less :: u64 where "less = ucast (as_u128 a * ucast (10000 - f) div 10000)"
  have less: "unat less = net_of_fee a f"
    using unat_less_fee[of f a] f by (simp add: less_def net_of_fee_def)
  show ?thesis
  proof (cases "net_of_fee a f = 0")
    case True
    with less have "less = 0" by (simp add: unat_eq_0)
    with guards True show ?thesis
      by (simp add: cpmm_outcome_def cpmm_quote_exact_in_def less_def[symmetric])
  next
    case net: False
    then have less_nz: "less \<noteq> 0" using less by auto
    show ?thesis
    proof (cases "cpmm_out (unat (in_reserve r b2q)) (unat (out_reserve r b2q)) (net_of_fee a f) = 0")
      case True
      have "0 < unat (in_reserve r b2q)"
        using guards by (auto simp: in_reserve_def unat_gt_0)
      from cpmm_out_word[OF this, where n = less] True
      have add: "checked_add (as_u128 (in_reserve r b2q)) (as_u128 less)
          = Some (as_u128 (in_reserve r b2q) + as_u128 less)"
        and zero: "ucast (as_u128 (out_reserve r b2q) * as_u128 less
          div (as_u128 (in_reserve r b2q) + as_u128 less)) = (0 :: u64)"
        by (simp_all add: less word_eq_iff_unat)
      with guards less_nz True net show ?thesis
        by (cases b2q) (simp_all add: cpmm_outcome_def cpmm_quote_exact_in_def less_def[symmetric]
            Let_def in_reserve_def out_reserve_def)
    next
      case False
      with guards net f cpmm_quote_computes[of r a f b2q] show ?thesis
        by (auto simp: cpmm_outcome_def Let_def)
    qed
  qed
qed

lemma cpmm_quote_Ok:
  assumes "cpmm_quote_exact_in r a b2q f = Ok q"
  shows "trade_delta r a b2q f q" and "cpmm_outcome r a b2q f = None"
  using assms cpmm_quote_spec[of r a b2q f] by (auto split: option.splits)

lemma cpmm_outcome_NoneD:
  assumes "cpmm_outcome r a b2q f = None"
  shows "0 < unat (in_reserve r b2q)" "0 < unat (out_reserve r b2q)" "a \<noteq> 0" "f < 10000"
    "net_of_fee a f \<noteq> 0"
  using assms by (auto simp: cpmm_outcome_def Let_def in_reserve_def out_reserve_def unat_gt_0
      split: if_splits)

lemma cpmm_k_step:
  assumes "cpmm_quote_exact_in r a b2q f = Ok q"
  shows "product_k r \<le> product_k (reserves_after q)"
    and "0 < unat (in_reserve (reserves_after q) b2q)" "0 < unat (out_reserve (reserves_after q) b2q)"
proof -
  note d = cpmm_quote_Ok(1)[OF assms] and n = cpmm_outcome_NoneD[OF cpmm_quote_Ok(2)[OF assms]]
  have out: "unat (out_reserve (reserves_after q) b2q) = unat (out_reserve r b2q)
      - cpmm_out (unat (in_reserve r b2q)) (unat (out_reserve r b2q)) (net_of_fee a f)"
    using d by (auto simp: trade_delta_def)
  with d n show "0 < unat (in_reserve (reserves_after q) b2q)"
      "0 < unat (out_reserve (reserves_after q) b2q)"
    using cpmm_out_less[of "unat (in_reserve r b2q)" "unat (out_reserve r b2q)" "net_of_fee a f"]
    by (simp_all add: trade_delta_def)
  show "product_k r \<le> product_k (reserves_after q)"
    using cpmm_out_k[OF net_of_fee_le] d
    by (simp add: product_k_in_out[where b = b2q] out trade_delta_def)
qed

section \<open>Properties\<close>

text \<open>
  C34: every outcome of the constant-product quote, in the order the code tests them: each
  rejection has exactly the stated cause, and on success the fee, the output, both new
  reserves and the reported price are the stated exact values.
\<close>

theorem cpmm_quote_every_branch:
  "case cpmm_outcome r a b2q f of
     Some e \<Rightarrow> cpmm_quote_exact_in r a b2q f = Err e
   | None \<Rightarrow> \<exists>q. cpmm_quote_exact_in r a b2q f = Ok q \<and> trade_delta r a b2q f q"
  by (rule cpmm_quote_spec)

text \<open>
  C35: an accepted constant-product trade never lowers the product of the reserves and never
  empties a side.
\<close>

theorem cpmm_k_never_falls:
  assumes "cpmm_quote_exact_in r a b2q f = Ok q"
  shows "product_k r \<le> product_k (reserves_after q)
    \<and> 0 < unat (cq_new_base q) \<and> 0 < unat (cq_new_quote q)"
  using cpmm_k_step[OF assms]
  by (cases b2q) (simp_all add: in_reserve_def out_reserve_def reserves_after_def)

theorem cpmm_k_never_falls_witness:
  "product_k \<lparr>base = 1000000, quote = 30000000000\<rparr> \<le> product_k \<lparr>base = 1001000, quote = 29970119791\<rparr>"
proof -
  have "cpmm_quote_exact_in \<lparr>base = 1000000, quote = 30000000000\<rparr> 1000 True 30 =
    Ok \<lparr>cq_amount_in_less_fee = 997, cq_amount_out = 29880209,
        cq_new_base = 1001000, cq_new_quote = 29970119791,
        cq_effective_price = Q64x64 551192568291952807582367\<rparr>"
    by code_simp
  from cpmm_k_never_falls[OF this] show ?thesis by (simp add: reserves_after_def)
qed

text \<open>
  A trade cannot be undone at a profit: swapping the whole output straight back, at any
  fee, returns at most the original input.
\<close>

lemma cpmm_no_round_trip_profit:
  assumes fwd: "cpmm_quote_exact_in r a b2q f = Ok q"
    and undo: "cpmm_quote_exact_in (reserves_after q) (cq_amount_out q) (\<not> b2q) f' = Ok q'"
  shows "cq_amount_out q' \<le> a"
proof -
  note d = cpmm_quote_Ok(1)[OF fwd] and d' = cpmm_quote_Ok(1)[OF undo]
  have swap: "in_reserve x (\<not> b2q) = out_reserve x b2q" "out_reserve x (\<not> b2q) = in_reserve x b2q" for x
    by (simp_all add: in_reserve_def out_reserve_def)
  have out: "unat (out_reserve (reserves_after q') b2q) = unat (out_reserve r b2q)"
    and inn: "unat (in_reserve (reserves_after q') b2q) + unat (cq_amount_out q')
      = unat (in_reserve r b2q) + unat a"
    using d d' by (simp_all add: trade_delta_def swap)
  have pos: "0 < unat (out_reserve r b2q)"
    using cpmm_outcome_NoneD[OF cpmm_quote_Ok(2)[OF fwd]] by simp
  have "product_k r \<le> product_k (reserves_after q')"
    using cpmm_k_step(1)[OF fwd] cpmm_k_step(1)[OF undo] by simp
  then have "unat (in_reserve r b2q) \<le> unat (in_reserve (reserves_after q') b2q)"
    using pos by (simp add: product_k_in_out[where b = b2q] out)
  with inn show ?thesis by (simp add: word_le_nat_alt)
qed

theorem cpmm_no_round_trip_profit_witness:
  "\<exists>q'. cpmm_quote_exact_in \<lparr>base = 1001000, quote = 29970119791\<rparr> 29880209 False 0 = Ok q'
     \<and> cq_amount_out q' \<le> 1000"
proof -
  define q where "q = \<lparr>cq_amount_in_less_fee = 997, cq_amount_out = 29880209,
    cq_new_base = 1001000, cq_new_quote = 29970119791,
    cq_effective_price = Q64x64 551192568291952807582367\<rparr>"
  have fwd: "cpmm_quote_exact_in \<lparr>base = 1000000, quote = 30000000000\<rparr> 1000 True 30 = Ok q"
    unfolding q_def by code_simp
  have undo: "cpmm_quote_exact_in (reserves_after q) (cq_amount_out q) (\<not> True) 0 =
    Ok \<lparr>cq_amount_in_less_fee = 29880209, cq_amount_out = 997,
        cq_new_base = 1000003, cq_new_quote = 30000000000,
        cq_effective_price = Q64x64 552851121656923578317319\<rparr>"
    unfolding q_def by code_simp
  from cpmm_no_round_trip_profit[OF fwd undo] undo show ?thesis
    by (simp add: q_def reserves_after_def)
qed

end
