(* ===== verification/Bytes.thy ===== *)
theory Bytes imports Prelude "HOL-Library.Monad_Syntax" begin

text \<open>
  Fixed-size byte buffers as the Rust code writes and reads them: a cursor (buffer and
  offset), \<open>copy_from_slice\<close> into \<open>out[offset..offset + n]\<close>, which panics (here
  \<^const>\<open>None\<close>) when the range leaves the buffer, and little-endian integers.  The locale
  \<open>byte_codec\<close> is what the layouts rely on; it is interpreted for the three widths in use.
\<close>

section \<open>Little-endian integers\<close>

text \<open>\<open>to_le_bytes\<close> for an integer of \<open>n\<close> bytes, and \<open>from_le_bytes\<close>.\<close>

fun to_le_bytes :: "nat \<Rightarrow> 'a::len word \<Rightarrow> u8 list" where
  "to_le_bytes 0 w = []"
| "to_le_bytes (Suc n) w = ucast w # to_le_bytes n (drop_bit 8 w)"

fun from_le_bytes :: "u8 list \<Rightarrow> 'a::len word" where
  "from_le_bytes [] = 0"
| "from_le_bytes (b # bs) = ucast b OR push_bit 8 (from_le_bytes bs)"

lemma length_to_le_bytes [simp]: "length (to_le_bytes n w) = n"
  by (induction n arbitrary: w) auto

lemma from_le_to_le: "from_le_bytes (to_le_bytes n w) = take_bit (8 * n) w"
proof (induction n arbitrary: w)
  case (Suc n)
  show ?case
  proof (rule bit_word_eqI)
    fix i assume i: "i < LENGTH('a)"
    have ix: "i < 8 \<or> (8 \<le> i \<and> 8 + (i - 8) = i)" by arith
    show "bit (from_le_bytes (to_le_bytes (Suc n) w) :: 'a word) i = bit (take_bit (8 * Suc n) w) i"
      using i ix by (auto simp: Suc.IH bit_simps)
  qed
qed simp

lemma from_le_to_le_u16: "from_le_bytes (to_le_bytes 2 (w :: u16)) = w"
  by (simp add: from_le_to_le take_bit_word_eq_self)

lemma from_le_to_le_u64: "from_le_bytes (to_le_bytes 8 (w :: u64)) = w"
  by (simp add: from_le_to_le take_bit_word_eq_self)

section \<open>Writing\<close>

type_synonym byte_cursor = "u8 list \<times> nat"

definition put_bytes :: "u8 list \<Rightarrow> byte_cursor \<Rightarrow> byte_cursor option" where
  "put_bytes value = (\<lambda>(out, offset).
    if offset + length value \<le> length out
    then Some (take offset out @ value @ drop (offset + length value) out, offset + length value)
    else None)"

definition put_u8 :: "u8 \<Rightarrow> byte_cursor \<Rightarrow> byte_cursor option" where
  "put_u8 value = (\<lambda>(out, offset).
    if offset < length out then Some (out[offset := value], offset + 1) else None)"

definition put_u16 :: "u16 \<Rightarrow> byte_cursor \<Rightarrow> byte_cursor option" where
  "put_u16 value = put_bytes (to_le_bytes 2 value)"

definition put_u64 :: "u64 \<Rightarrow> byte_cursor \<Rightarrow> byte_cursor option" where
  "put_u64 value = put_bytes (to_le_bytes 8 value)"

text \<open>A zeroed buffer into which \<open>p\<close> has been written, with \<open>n\<close> bytes left.\<close>

definition cursor :: "u8 list \<Rightarrow> nat \<Rightarrow> byte_cursor" where
  "cursor p n = (p @ replicate n 0, length p)"

named_theorems cursor_simps \<open>writing into a zeroed buffer\<close>

lemma cursor_start: "(replicate n 0, 0) = cursor [] n"
  by (simp add: cursor_def)

lemma cursor_done [cursor_simps]: "fst (cursor p 0) = p"
  by (simp add: cursor_def)

lemma put_bytes_cursor [cursor_simps]:
  "length v \<le> n \<Longrightarrow> put_bytes v (cursor p n) = Some (cursor (p @ v) (n - length v))"
  by (simp add: put_bytes_def cursor_def)

lemma put_bytes_cursor_full [cursor_simps]:
  "n < length v \<Longrightarrow> put_bytes v (cursor p n) = None"
  by (simp add: put_bytes_def cursor_def)

lemma put_u8_cursor [cursor_simps]:
  "0 < n \<Longrightarrow> put_u8 v (cursor p n) = Some (cursor (p @ [v]) (n - 1))"
  by (cases n) (simp_all add: put_u8_def cursor_def)

lemma put_int_cursor [cursor_simps]:
  "2 \<le> n \<Longrightarrow> put_u16 a (cursor p n) = Some (cursor (p @ to_le_bytes 2 a) (n - 2))"
  "8 \<le> n \<Longrightarrow> put_u64 b (cursor p n) = Some (cursor (p @ to_le_bytes 8 b) (n - 8))"
  by (simp_all add: put_u16_def put_u64_def put_bytes_cursor)

section \<open>Reading\<close>

definition read_bytes :: "nat \<Rightarrow> u8 list \<Rightarrow> nat \<Rightarrow> (u8 list \<times> nat) option" where
  "read_bytes n source offset =
    (if offset + n \<le> length source then Some (take n (drop offset source), offset + n) else None)"

definition read_u16 :: "u8 list \<Rightarrow> nat \<Rightarrow> (u16 \<times> nat) option" where
  "read_u16 source offset = map_option (map_prod from_le_bytes id) (read_bytes 2 source offset)"

definition read_u64 :: "u8 list \<Rightarrow> nat \<Rightarrow> (u64 \<times> nat) option" where
  "read_u64 source offset = map_option (map_prod from_le_bytes id) (read_bytes 8 source offset)"

definition read_2 :: "u8 list \<Rightarrow> nat \<Rightarrow> (u8 list \<times> nat) option" where
  "read_2 source offset = read_bytes 2 source offset"

text \<open>
  A fixed-width field: \<open>enc\<close> writes \<open>n\<close> bytes and \<open>dec\<close> recovers the value from them.
  From this alone a field reads back wherever it stands, and fields concatenate without
  ambiguity.
\<close>

locale byte_codec =
  fixes enc :: "'v \<Rightarrow> u8 list" and dec :: "u8 list \<Rightarrow> 'v" and n :: nat
  assumes enc_length: "length (enc v) = n"
    and dec_enc: "dec (enc v) = v"
begin

lemma read_back:
  "length p = off \<Longrightarrow> map_option (map_prod dec id) (read_bytes n (p @ enc v @ q) off) = Some (v, off + n)"
  by (simp add: read_bytes_def enc_length dec_enc)

lemma enc_inj: "enc v = enc w \<longleftrightarrow> v = w"
  by (metis dec_enc)

lemma append_inj: "enc v @ xs = enc w @ ys \<longleftrightarrow> v = w \<and> xs = ys"
  by (simp add: append_eq_append_conv enc_length enc_inj)

end

interpretation u8f: byte_codec "\<lambda>v. [v]" hd 1
  by unfold_locales auto

interpretation u16f: byte_codec "to_le_bytes 2 :: u16 \<Rightarrow> u8 list" from_le_bytes 2
  by unfold_locales (simp_all only: length_to_le_bytes from_le_to_le_u16)

interpretation u64f: byte_codec "to_le_bytes 8 :: u64 \<Rightarrow> u8 list" from_le_bytes 8
  by unfold_locales (simp_all only: length_to_le_bytes from_le_to_le_u64)

text \<open>Reading from a concatenation: skip what lies before the offset, then decode the head.\<close>

named_theorems read_simps \<open>reading from concatenated fields\<close>

lemma read_bytes_skip:
  "length p \<le> off \<Longrightarrow>
   read_bytes n (p @ q) off = map_option (map_prod id (\<lambda>i. i + length p)) (read_bytes n q (off - length p))"
  by (auto simp: read_bytes_def)

lemma read_skip [read_simps]:
  assumes "length p \<le> off"
  shows "read_u16 (p @ q) off = map_option (map_prod id (\<lambda>i. i + length p)) (read_u16 q (off - length p))"
    and "read_u64 (p @ q) off = map_option (map_prod id (\<lambda>i. i + length p)) (read_u64 q (off - length p))"
    and "read_2 (p @ q) off = map_option (map_prod id (\<lambda>i. i + length p)) (read_2 q (off - length p))"
  using assms
  by (simp_all add: read_u16_def read_u64_def read_2_def read_bytes_skip option.map_comp comp_def
      map_prod_def case_prod_beta)

lemma read_head [read_simps]:
  "read_u16 (to_le_bytes 2 v @ q) 0 = Some (v, 2)"
  "read_u64 (to_le_bytes 8 w @ q) 0 = Some (w, 8)"
  "length x = 2 \<Longrightarrow> read_2 (x @ q) 0 = Some (x, 2)"
  using u16f.read_back[of "[]" 0 v q] u64f.read_back[of "[]" 0 w q]
  by (simp_all add: read_u16_def read_u64_def read_2_def read_bytes_def)

text \<open>A byte string literal \<open>b"..."\<close>.\<close>

definition byte_string :: "string \<Rightarrow> u8 list" where
  "byte_string s = map of_char s"

text \<open>A \<open>[u8; 32]\<close> (a public key) is a byte list of length 32.\<close>

type_synonym pubkey = "u8 list"

definition is_pubkey :: "pubkey \<Rightarrow> bool" where "is_pubkey p \<longleftrightarrow> length p = 32"

end
