(* ===== verification/Decimal.thy ===== *)
theory Decimal imports Fixed Bytes begin

text \<open>
  Decimal scaling, \<open>crates/meta_amm_math/src/decimal.rs\<close>: the factor between human and
  atom prices of a token pair, and the canonical byte string (the pre-image) that identifies
  a pair and its scale on chain.
\<close>

section \<open>The pre-image\<close>

definition DECIMAL_SCALE_DOMAIN :: "u8 list" where
  "DECIMAL_SCALE_DOMAIN = byte_string ''meta-amm:decimal-scale:v1''"

definition DECIMAL_SCALE_PREIMAGE_LEN :: nat where
  "DECIMAL_SCALE_PREIMAGE_LEN = length DECIMAL_SCALE_DOMAIN + 32 * 4 + 3"

datatype price_domain = RawQuoteAtomsPerRawBaseAtom

definition price_domain_as_u8 :: "price_domain \<Rightarrow> u8" where
  "price_domain_as_u8 d = (case d of RawQuoteAtomsPerRawBaseAtom \<Rightarrow> 0)"

record decimal_scale_preimage =
  pre_base_mint :: pubkey
  pre_quote_mint :: pubkey
  pre_base_token_program :: pubkey
  pre_quote_token_program :: pubkey
  pre_base_decimals :: u8
  pre_quote_decimals :: u8
  pre_price_domain :: price_domain

text \<open>\<open>copy_into\<close> is the slice copy of \<^const>\<open>put_bytes\<close>; the last three bytes are indexed writes.\<close>

definition preimage_to_bytes :: "decimal_scale_preimage \<Rightarrow> u8 list option" where
  "preimage_to_bytes pre = do {
     c \<leftarrow> put_bytes DECIMAL_SCALE_DOMAIN (replicate DECIMAL_SCALE_PREIMAGE_LEN 0, 0);
     c \<leftarrow> put_bytes (pre_base_mint pre) c;
     c \<leftarrow> put_bytes (pre_quote_mint pre) c;
     c \<leftarrow> put_bytes (pre_base_token_program pre) c;
     c \<leftarrow> put_bytes (pre_quote_token_program pre) c;
     c \<leftarrow> put_u8 (pre_base_decimals pre) c;
     c \<leftarrow> put_u8 (pre_quote_decimals pre) c;
     c \<leftarrow> put_u8 (price_domain_as_u8 (pre_price_domain pre)) c;
     Some (fst c)}"

definition preimage_wf :: "decimal_scale_preimage \<Rightarrow> bool" where
  "preimage_wf pre \<longleftrightarrow> is_pubkey (pre_base_mint pre) \<and> is_pubkey (pre_quote_mint pre)
     \<and> is_pubkey (pre_base_token_program pre) \<and> is_pubkey (pre_quote_token_program pre)"

definition preimage_bytes :: "decimal_scale_preimage \<Rightarrow> u8 list" where
  "preimage_bytes pre = DECIMAL_SCALE_DOMAIN @ pre_base_mint pre @ pre_quote_mint pre
     @ pre_base_token_program pre @ pre_quote_token_program pre
     @ [pre_base_decimals pre, pre_quote_decimals pre, price_domain_as_u8 (pre_price_domain pre)]"

lemma length_DOMAIN [simp]: "length DECIMAL_SCALE_DOMAIN = 25"
  by (simp add: DECIMAL_SCALE_DOMAIN_def byte_string_def)

lemma PREIMAGE_LEN_eq [simp]: "DECIMAL_SCALE_PREIMAGE_LEN = 156"
  by (simp add: DECIMAL_SCALE_PREIMAGE_LEN_def)

lemma preimage_to_bytes_eq:
  "preimage_wf pre \<Longrightarrow> preimage_to_bytes pre = Some (preimage_bytes pre)"
  by (simp add: preimage_to_bytes_def preimage_bytes_def preimage_wf_def is_pubkey_def
      cursor_start cursor_simps)

lemma length_preimage_bytes: "preimage_wf pre \<Longrightarrow> length (preimage_bytes pre) = 156"
  by (simp add: preimage_bytes_def preimage_wf_def is_pubkey_def)

lemma preimage_bytes_inj:
  assumes "preimage_wf p" "preimage_wf p'" "preimage_bytes p = preimage_bytes p'"
  shows "p = p'"
proof -
  have "pre_price_domain p = pre_price_domain p'"
    by (cases "pre_price_domain p"; cases "pre_price_domain p'") simp
  with assms show ?thesis
    by (intro decimal_scale_preimage.equality)
      (auto simp: preimage_wf_def is_pubkey_def preimage_bytes_def append_eq_append_conv)
qed

section \<open>The scale\<close>

record decimal_scale =
  ds_base_decimals :: u8
  ds_quote_decimals :: u8
  factor :: q64x64
  quote_ge_base :: bool

definition MAX_DECIMALS :: u8 where "MAX_DECIMALS = 12"

text \<open>\<open>for _ in 0..exponent\<close>\<close>

fun pow10_loop :: "nat \<Rightarrow> u128 \<Rightarrow> math_error + u128" where
  "pow10_loop 0 value = Ok value"
| "pow10_loop (Suc n) value = and_then (ok_or Overflow (checked_mul value 10)) (pow10_loop n)"

definition pow10 :: "u8 \<Rightarrow> math_error + u128" where
  "pow10 exponent = pow10_loop (unat exponent) 1"

definition decimal_scale_new :: "u8 \<Rightarrow> u8 \<Rightarrow> math_error + decimal_scale" where
  "decimal_scale_new base_dec quote_dec =
    (if MAX_DECIMALS < base_dec \<or> MAX_DECIMALS < quote_dec then Err DecimalsOutOfRange
     else
       let (diff, ge) = (if base_dec \<le> quote_dec then (quote_dec - base_dec, True)
                         else (base_dec - quote_dec, False))
       in and_then (pow10 diff) (\<lambda>p. and_then (from_ratio p 1) (\<lambda>f.
          Ok \<lparr>ds_base_decimals = base_dec, ds_quote_decimals = quote_dec, factor = f, quote_ge_base = ge\<rparr>)))"

definition human_to_atom_price :: "decimal_scale \<Rightarrow> q64x64 \<Rightarrow> math_error + q64x64" where
  "human_to_atom_price s human_price =
    (if quote_ge_base s then q_checked_mul human_price (factor s)
     else q_checked_div human_price (factor s))"

definition atom_to_human_price :: "decimal_scale \<Rightarrow> q64x64 \<Rightarrow> math_error + q64x64" where
  "atom_to_human_price s atom_price =
    (if quote_ge_base s then q_checked_div atom_price (factor s)
     else q_checked_mul atom_price (factor s))"

lemma pow10_loop_value:
  "unat v * 10 ^ n < 2 ^ 128 \<Longrightarrow> \<exists>w. pow10_loop n v = Ok w \<and> unat w = unat v * 10 ^ n"
proof (induction n arbitrary: v)
  case (Suc n)
  have "unat v * 10 \<le> unat v * 10 ^ Suc n" by simp
  from le_less_trans[OF this Suc.prems] have fits: "unat v * unat (10 :: u128) < 2 ^ 128" by simp
  then have v: "unat (v * 10) = unat v * 10" using unat_mul_fits[of v 10] by simp
  with Suc.IH[of "v * 10"] Suc.prems fits show ?case
    by (simp add: checked_mul_def mult.assoc)
qed simp

lemma pow10_value:
  assumes "unat e \<le> 38" obtains w where "pow10 e = Ok w" "unat w = 10 ^ unat e"
proof -
  have "(10 :: nat) ^ unat e \<le> 10 ^ 38" using assms by (rule power_increasing) simp
  then have "(10 :: nat) ^ unat e < 2 ^ 128" by (rule le_less_trans) simp
  then show thesis using pow10_loop_value[of 1 "unat e"] that by (auto simp: pow10_def)
qed

text \<open>The exponent of the scale: the distance of the two decimal counts.\<close>

definition decimals_gap :: "u8 \<Rightarrow> u8 \<Rightarrow> nat" where
  "decimals_gap b q = (if b \<le> q then unat q - unat b else unat b - unat q)"

lemma decimal_scale_new_spec:
  "decimal_scale_new b q =
    (if b \<le> 12 \<and> q \<le> 12
     then Ok \<lparr>ds_base_decimals = b, ds_quote_decimals = q,
             factor = Q64x64 (of_nat (10 ^ decimals_gap b q * 2 ^ 64)), quote_ge_base = (b \<le> q)\<rparr>
     else Err DecimalsOutOfRange)"
proof (cases "b \<le> 12 \<and> q \<le> 12")
  case True
  define d where "d = (if b \<le> q then q - b else b - q)"
  have d: "unat d = decimals_gap b q"
    by (auto simp: d_def decimals_gap_def unat_sub_le)
  have le: "decimals_gap b q \<le> 12"
    using True by (auto simp: decimals_gap_def word_le_nat_alt)
  with d have "unat d \<le> 38" by simp
  then obtain w where w: "pow10 d = Ok w" "unat w = 10 ^ decimals_gap b q"
    by (rule pow10_value) (simp add: d)
  have "(10 :: nat) ^ decimals_gap b q \<le> 10 ^ 12" using le by (rule power_increasing) simp
  then have fits: "10 ^ decimals_gap b q * 2 ^ 64 < (2 :: nat) ^ 128" by (rule le_less_trans[OF mult_le_mono1]) simp
  then have "from_ratio w 1 = Ok (Q64x64 (of_nat (10 ^ decimals_gap b q * 2 ^ 64)))"
    unfolding from_ratio_Ok using w(2) by (simp add: unat_of_nat_fits del: of_nat_mult of_nat_power)
  then show ?thesis
    using True w(1) unfolding decimal_scale_new_def MAX_DECIMALS_def
    by (auto simp: d_def not_less split: if_splits)
next
  case False
  then show ?thesis by (auto simp: decimal_scale_new_def MAX_DECIMALS_def)
qed

section \<open>Properties\<close>

text \<open>
  \<open>DecimalScale::new\<close> accepts exactly the pairs with at most 12 decimals each, and then
  its factor is exactly ten to the distance of the decimal counts: the loop of \<open>pow10\<close> and
  the conversion to Q64.64 never overflow there.
\<close>

lemma decimal_scale_new_exact:
  "decimal_scale_new b q =
    (if b \<le> 12 \<and> q \<le> 12
     then Ok \<lparr>ds_base_decimals = b, ds_quote_decimals = q,
             factor = Q64x64 (of_nat (10 ^ decimals_gap b q * 2 ^ 64)), quote_ge_base = (b \<le> q)\<rparr>
     else Err DecimalsOutOfRange)"
  by (rule decimal_scale_new_spec)

text \<open>The factor of an accepted scale, and the two conversions as arithmetic.\<close>

lemma unat_factor:
  assumes "decimal_scale_new b q = Ok s"
  shows "unat (raw (factor s)) = 10 ^ decimals_gap b q * 2 ^ 64" and "quote_ge_base s = (b \<le> q)"
proof -
  have "b \<le> 12" "q \<le> 12" using assms by (simp_all add: decimal_scale_new_spec split: if_splits)
  then have "decimals_gap b q \<le> 12" by (auto simp: decimals_gap_def word_le_nat_alt)
  then have "(10 :: nat) ^ decimals_gap b q \<le> 10 ^ 12" by (rule power_increasing) simp
  then have "10 ^ decimals_gap b q * 2 ^ 64 < (2 :: nat) ^ 128"
    by (rule le_less_trans[OF mult_le_mono1]) simp
  with assms show "unat (raw (factor s)) = 10 ^ decimals_gap b q * 2 ^ 64"
    by (auto simp: decimal_scale_new_spec unat_of_nat_fits simp del: of_nat_mult of_nat_power
        split: if_splits)
  show "quote_ge_base s = (b \<le> q)"
    using assms by (auto simp: decimal_scale_new_spec split: if_splits)
qed

lemma scale_up: "n * (f * 2 ^ 64) div 2 ^ 64 = n * (f :: nat)"
  by (metis mult.assoc nonzero_mult_div_cancel_right power_not_zero zero_neq_numeral)

lemma scale_down: "n * 2 ^ 64 div (f * 2 ^ 64) = n div (f :: nat)"
  by simp

lemma human_to_atom_eq:
  assumes "decimal_scale_new b q = Ok s"
  shows "human_to_atom_price s p =
    (let g = 10 ^ decimals_gap b q; n = unat (raw p)
     in if b \<le> q then (if n * g < 2 ^ 128 then Ok (Q64x64 (of_nat (n * g))) else Err Overflow)
        else Ok (Q64x64 (of_nat (n div g))))"
proof -
  define g where "g = (10 :: nat) ^ decimals_gap b q"
  have g: "0 < g" by (simp add: g_def)
  have F: "unat (raw (factor s)) = g * 2 ^ 64" and ge: "quote_ge_base s = (b \<le> q)"
    using unat_factor[OF assms] by (simp_all add: g_def)
  have small: "unat (raw p) div g < 2 ^ 128"
    using unat_lt2p[of "raw p"] by (intro le_less_trans[OF div_le_dividend]) simp
  have "q_checked_mul p (factor s)
      = (if unat (raw p) * g < 2 ^ 128 then Ok (Q64x64 (of_nat (unat (raw p) * g))) else Err Overflow)"
    unfolding q_checked_mul_def mul_div_floor_spec F unat_Q64 scale_up by (simp add: map_ok_def)
  moreover have "q_checked_div p (factor s) = Ok (Q64x64 (of_nat (unat (raw p) div g)))"
    unfolding q_checked_div_def mul_div_floor_spec F unat_Q64 scale_down using small g by (simp add: map_ok_def)
  ultimately show ?thesis by (simp add: human_to_atom_price_def ge g_def Let_def)
qed

lemma atom_to_human_back:
  assumes new: "decimal_scale_new b q = Ok s" and atom: "human_to_atom_price s p = Ok a"
  shows "\<exists>h. atom_to_human_price s a = Ok h \<and> h \<le> p
    \<and> unat (raw p) < unat (raw h) + 10 ^ decimals_gap b q \<and> (b \<le> q \<longrightarrow> h = p)"
proof -
  define g where "g = (10 :: nat) ^ decimals_gap b q"
  have g: "0 < g" by (simp add: g_def)
  have F: "unat (raw (factor s)) = g * 2 ^ 64" and ge: "quote_ge_base s = (b \<le> q)"
    using unat_factor[OF new] by (simp_all add: g_def)
  have nz: "raw (factor s) \<noteq> 0" using F g by (metis mult_is_0 unat_0 zero_neq_numeral power_eq_0_iff neq0_conv)
  show ?thesis
  proof (cases "b \<le> q")
    case True
    with atom have a: "unat (raw a) = unat (raw p) * g"
      by (simp add: human_to_atom_price_def ge q_checked_mul_Ok F scale_up)
    have "q_checked_div a (factor s) = Ok p"
      unfolding q_checked_div_Ok F scale_down a using nz g by simp
    with True g show ?thesis by (simp add: atom_to_human_price_def ge g_def)
  next
    case False
    with atom have a: "unat (raw a) = unat (raw p) div g"
      by (simp add: human_to_atom_price_def ge q_checked_div_Ok F scale_down)
    have le: "unat (raw a) * g \<le> unat (raw p)" by (simp add: a)
    define h where "h = Q64x64 (of_nat (unat (raw a) * g))"
    have h: "unat (raw h) = unat (raw a) * g"
      unfolding h_def using le unat_lt2p[of "raw p"]
      by (simp add: unat_of_nat_fits del: of_nat_mult)
    have "q_checked_mul a (factor s) = Ok h"
      unfolding q_checked_mul_Ok F scale_up h ..
    moreover have "unat (raw p) < unat (raw h) + g"
      using div_bracket[OF g, of "unat (raw p)"] by (simp add: h a)
    ultimately show ?thesis
      using False le by (simp add: atom_to_human_price_def ge q64x64_le_iff h g_def)
  qed
qed

text \<open>
  C40: converting a human price to an atom price overflows exactly when the quote token has more
  decimals and the scaled price does not fit, and otherwise scales it by the power of ten of the
  difference, rounding down; the way back then never fails, returns the price itself when the quote
  token has at least as many decimals, and otherwise loses less than one unit of the factor, never
  rounding up.
\<close>

theorem decimal_scale_round_trip:
  assumes "decimal_scale_new b q = Ok s"
  shows "case human_to_atom_price s p of
      Err e \<Rightarrow> e = Overflow \<and> b < q \<and> 2 ^ 128 \<le> unat (raw p) * 10 ^ decimals_gap b q
    | Ok a \<Rightarrow> unat (raw a) = (if b \<le> q then unat (raw p) * 10 ^ decimals_gap b q
                             else unat (raw p) div 10 ^ decimals_gap b q)
        \<and> (\<exists>h. atom_to_human_price s a = Ok h \<and> h \<le> p
            \<and> unat (raw p) < unat (raw h) + 10 ^ decimals_gap b q \<and> (b \<le> q \<longrightarrow> h = p))"
proof (cases "human_to_atom_price s p")
  case (Inl e)
  then have err: "e = Overflow" "b \<le> q" "\<not> unat (raw p) * 10 ^ decimals_gap b q < 2 ^ 128"
    unfolding human_to_atom_eq[OF assms] Let_def by (simp_all split: if_splits)
  moreover have "b \<noteq> q" using err(3) unat_lt2p[of "raw p"] by (auto simp: decimals_gap_def)
  ultimately show ?thesis using Inl by simp
next
  case (Inr a)
  have "unat (raw p) div 10 ^ decimals_gap b q < 2 ^ 128"
    using unat_lt2p[of "raw p"] by (intro le_less_trans[OF div_le_dividend]) simp
  with Inr have "unat (raw a) = (if b \<le> q then unat (raw p) * 10 ^ decimals_gap b q
                             else unat (raw p) div 10 ^ decimals_gap b q)"
    unfolding human_to_atom_eq[OF assms] Let_def
    by (auto simp: unat_of_nat_fits simp del: of_nat_mult of_nat_power split: if_splits)
  with Inr atom_to_human_back[OF assms Inr] show ?thesis by simp
qed

theorem decimal_scale_round_trip_witness:
  "(\<exists>s a h. decimal_scale_new 8 6 = Ok s \<and> human_to_atom_price s (Q64x64 1230) = Ok a
     \<and> atom_to_human_price s a = Ok h \<and> h \<le> Q64x64 1230 \<and> 1230 < unat (raw h) + 100)"
proof -
  define s where "s = \<lparr>ds_base_decimals = 8, ds_quote_decimals = 6,
    factor = Q64x64 1844674407370955161600, quote_ge_base = False\<rparr>"
  have new: "decimal_scale_new 8 6 = Ok s" unfolding s_def by code_simp
  have atom: "human_to_atom_price s (Q64x64 1230) = Ok (Q64x64 12)" unfolding s_def by code_simp
  have "decimals_gap 8 6 = 2" by (simp add: decimals_gap_def)
  with decimal_scale_round_trip[OF new, of "Q64x64 1230"] new atom show ?thesis by auto
qed

text \<open>
  The pre-image of a token pair is always exactly 156 bytes, the writer never runs out of
  its buffer, and two different pairs (or scales) never share a pre-image.
\<close>

lemma preimage_identifies_pair:
  assumes "preimage_wf p" "preimage_wf p'"
  shows "\<exists>bs. preimage_to_bytes p = Some bs \<and> length bs = DECIMAL_SCALE_PREIMAGE_LEN
    \<and> (preimage_to_bytes p' = Some bs \<longrightarrow> p' = p)"
  using assms preimage_bytes_inj[of p' p]
  by (auto simp: preimage_to_bytes_eq length_preimage_bytes)

theorem preimage_identifies_pair_witness:
  "\<exists>bs. preimage_to_bytes \<lparr>pre_base_mint = replicate 32 1, pre_quote_mint = replicate 32 2,
      pre_base_token_program = replicate 32 3, pre_quote_token_program = replicate 32 4,
      pre_base_decimals = 8, pre_quote_decimals = 6,
      pre_price_domain = RawQuoteAtomsPerRawBaseAtom\<rparr> = Some bs \<and> length bs = 156"
proof -
  let ?p = "\<lparr>pre_base_mint = replicate 32 1, pre_quote_mint = replicate 32 2,
      pre_base_token_program = replicate 32 3, pre_quote_token_program = replicate 32 4,
      pre_base_decimals = 8, pre_quote_decimals = 6,
      pre_price_domain = RawQuoteAtomsPerRawBaseAtom\<rparr>"
  have wf: "preimage_wf ?p" by (simp add: preimage_wf_def is_pubkey_def)
  from preimage_identifies_pair[OF wf wf] show ?thesis by auto
qed

end
