(* ===== verification/Reference.thy ===== *)
theory Reference imports Fixed begin

text \<open>
  The reference-price quote of \<open>crates/meta_amm_math/src/reference.rs\<close>: the maker publishes a
  mid price, and a swap is priced off it with a spread, a surcharge that grows with the age of
  the quote, and a skew that grows with the inventory imbalance.  Quotes age through the
  states fresh, aging, protected and expired; each state limits the size of a trade.
\<close>

section \<open>Data\<close>

datatype age_state = Fresh | Aging | Protected | Expired | Paused

record reference_quote_state =
  base_inventory :: u64
  quote_inventory :: u64
  target_base_inventory :: u64
  mid_price :: q64x64
  mid_publish_slot :: u64
  now_slot :: u64
  paused :: bool

record reference_quote_params =
  fee_bps :: u16
  base_half_spread_bps :: u16
  aging_start_slots :: u64
  protected_start_slots :: u64
  expire_slots :: u64
  aging_surcharge_bps_per_slot :: u16
  max_aging_surcharge_bps :: u16
  max_trade_base_atoms :: u64
  protected_max_trade_base_atoms :: u64
  inventory_skew_bps_per_10k_imbalance :: u16
  max_inventory_skew_bps :: u16
  hard_inventory_band_bps :: u16

record reference_quote =
  rq_age_state :: age_state
  rq_amount_in_less_fee :: u64
  rq_amount_out :: u64
  rq_new_base_inventory :: u64
  rq_new_quote_inventory :: u64
  rq_effective_price :: q64x64
  rq_applied_spread_bps :: u16
  rq_inventory_imbalance_bps :: int

section \<open>Operations\<close>

definition validate_params :: "reference_quote_params \<Rightarrow> math_error + unit" where
  "validate_params params =
    (if 10000 \<le> fee_bps params
        \<or> 10000 \<le> base_half_spread_bps params
        \<or> 10000 \<le> max_aging_surcharge_bps params
        \<or> 10000 \<le> inventory_skew_bps_per_10k_imbalance params
        \<or> 10000 \<le> max_inventory_skew_bps params
     then Err InvalidConfig
     else if protected_start_slots params < aging_start_slots params
        \<or> expire_slots params \<le> protected_start_slots params
        \<or> expire_slots params = 0
        \<or> max_trade_base_atoms params = 0
        \<or> protected_max_trade_base_atoms params = 0
        \<or> max_trade_base_atoms params < protected_max_trade_base_atoms params
     then Err InvalidConfig
     else Ok ())"

definition quote_age_state ::
    "reference_quote_state \<Rightarrow> reference_quote_params \<Rightarrow> math_error + age_state" where
  "quote_age_state state params =
    and_then (validate_params params) (\<lambda>_.
    if paused state then Ok Paused
    else
      let age = saturating_sub (now_slot state) (mid_publish_slot state)
      in if expire_slots params \<le> age then Ok Expired
         else if protected_start_slots params \<le> age then Ok Protected
         else if aging_start_slots params \<le> age then Ok Aging
         else Ok Fresh)"

definition amount_less_fee :: "u64 \<Rightarrow> u16 \<Rightarrow> math_error + u64" where
  "amount_less_fee amount fee =
    (if 10000 \<le> fee then Err InvalidFee
     else
       let result = ucast (as_u128 amount * ucast (10000 - fee) div 10000)
       in if result = 0 then Err InvalidAmount else Ok result)"

definition base_equivalent_amount :: "q64x64 \<Rightarrow> u64 \<Rightarrow> bool \<Rightarrow> math_error + u64" where
  "base_equivalent_amount mid amount_in base_to_quote =
    (if base_to_quote then Ok amount_in else div_amount_floor mid amount_in)"

definition max_base_trade_for_age ::
    "reference_quote_state \<Rightarrow> reference_quote_params \<Rightarrow> age_state \<Rightarrow> u64" where
  "max_base_trade_for_age state params age_state =
    (case age_state of
       Fresh \<Rightarrow> max_trade_base_atoms params
     | Protected \<Rightarrow> protected_max_trade_base_atoms params
     | Aging \<Rightarrow>
         (let age = saturating_sub (now_slot state) (mid_publish_slot state);
              aging_span = max (saturating_sub (protected_start_slots params) (aging_start_slots params)) 1;
              age_into_aging = min (saturating_sub age (aging_start_slots params)) aging_span;
              decay = saturating_sub (max_trade_base_atoms params) (protected_max_trade_base_atoms params)
          in saturating_sub (max_trade_base_atoms params)
               (ucast (as_u128 decay * as_u128 age_into_aging div as_u128 aging_span)))
     | Expired \<Rightarrow> 0 | Paused \<Rightarrow> 0)"

definition aging_surcharge_bps :: "reference_quote_state \<Rightarrow> reference_quote_params \<Rightarrow> u16" where
  "aging_surcharge_bps state params =
    (let age = saturating_sub (now_slot state) (mid_publish_slot state);
         slots = saturating_sub age (aging_start_slots params);
         surcharge = as_u128 slots * ucast (aging_surcharge_bps_per_slot params)
     in ucast (min surcharge (ucast (max_aging_surcharge_bps params))))"

definition inventory_imbalance_bps :: "u64 \<Rightarrow> u64 \<Rightarrow> int" where
  "inventory_imbalance_bps base_inv target =
    (if target = 0 then 0
     else
       let delta = uint base_inv - uint target;
           bps = saturate_i128 (delta * 10000) sdiv uint target
       in clamp bps i32_min i32_max)"

definition inventory_skew_bps :: "int \<Rightarrow> reference_quote_params \<Rightarrow> int" where
  "inventory_skew_bps imbalance_bps params =
    (let r = saturate_i128 (imbalance_bps * uint (inventory_skew_bps_per_10k_imbalance params)) sdiv 10000;
         cap = uint (max_inventory_skew_bps params)
     in clamp r (- cap) cap)"

definition effective_price :: "q64x64 \<Rightarrow> u16 \<Rightarrow> int \<Rightarrow> bool \<Rightarrow> math_error + q64x64" where
  "effective_price mid spread_bps skew_bps base_to_quote =
    (let factor_bps = (if base_to_quote then 10000 - uint spread_bps - skew_bps
                       else 10000 + uint spread_bps - skew_bps)
     in if factor_bps \<le> 0 then Err InvalidConfig
        else map_ok Q64x64 (mul_div_floor (raw mid) (of_int factor_bps) 10000))"

definition abs_i32 :: "int \<Rightarrow> int" where
  "abs_i32 value = (if value < 0 then (if value = i32_min then i32_max else - value) else value)"

text \<open>
  The swap: \<open>reference_fill\<close> is the tail of \<open>quote_exact_in\<close> from the effective price on (the
  two directions), \<open>reference_quote_exact_in\<close> the whole function.
\<close>

definition reference_fill ::
    "reference_quote_state \<Rightarrow> u64 \<Rightarrow> u64 \<Rightarrow> q64x64 \<Rightarrow> bool \<Rightarrow> math_error + (u64 \<times> u64 \<times> u64)" where
  "reference_fill state amount_in amount_in_less_fee price base_to_quote =
    (if base_to_quote then
       and_then (mul_amount_floor price amount_in_less_fee) (\<lambda>amount_out.
       if amount_out = 0 \<or> quote_inventory state \<le> amount_out then Err InvalidAmount
       else and_then (ok_or Overflow (checked_add (base_inventory state) amount_in)) (\<lambda>new_base.
            and_then (ok_or Underflow (checked_sub (quote_inventory state) amount_out)) (\<lambda>new_quote.
            Ok (amount_out, new_base, new_quote))))
     else
       and_then (div_amount_floor price amount_in_less_fee) (\<lambda>amount_out.
       if amount_out = 0 \<or> base_inventory state \<le> amount_out then Err InvalidAmount
       else and_then (ok_or Underflow (checked_sub (base_inventory state) amount_out)) (\<lambda>new_base.
            and_then (ok_or Overflow (checked_add (quote_inventory state) amount_in)) (\<lambda>new_quote.
            Ok (amount_out, new_base, new_quote)))))"

definition reference_quote_exact_in ::
    "reference_quote_state \<Rightarrow> reference_quote_params \<Rightarrow> u64 \<Rightarrow> bool \<Rightarrow> math_error + reference_quote" where
  "reference_quote_exact_in state params amount_in base_to_quote =
    and_then (validate_params params) (\<lambda>_.
    if amount_in = 0 then Err InvalidAmount
    else if base_inventory state = 0 \<or> quote_inventory state = 0 then Err EmptyLiquidity
    else if target_base_inventory state = 0 then Err InvalidConfig
    else and_then (quote_age_state state params) (\<lambda>age_state.
    if age_state = Paused then Err PoolPaused
    else if age_state = Expired then Err StaleQuote
    else and_then (base_equivalent_amount (mid_price state) amount_in base_to_quote) (\<lambda>base_equivalent.
    let max_base_size = max_base_trade_for_age state params age_state
    in if base_equivalent = 0 \<or> max_base_size < base_equivalent
       then Err (if age_state = Protected then QuoteProtected else InvalidAmount)
    else and_then (amount_less_fee amount_in (fee_bps params)) (\<lambda>amount_in_less_fee.
    let imbalance = inventory_imbalance_bps (base_inventory state) (target_base_inventory state);
        skew = inventory_skew_bps imbalance params;
        applied_spread = saturating_add (base_half_spread_bps params) (aging_surcharge_bps state params)
    in and_then (effective_price (mid_price state) applied_spread skew base_to_quote) (\<lambda>price.
    and_then (reference_fill state amount_in amount_in_less_fee price base_to_quote)
      (\<lambda>(amount_out, new_base, new_quote).
    let new_imbalance = inventory_imbalance_bps new_base (target_base_inventory state)
    in if uint (hard_inventory_band_bps params) < abs_i32 new_imbalance then Err InventoryBand
    else Ok \<lparr>rq_age_state = age_state, rq_amount_in_less_fee = amount_in_less_fee,
             rq_amount_out = amount_out, rq_new_base_inventory = new_base,
             rq_new_quote_inventory = new_quote, rq_effective_price = price,
             rq_applied_spread_bps = applied_spread, rq_inventory_imbalance_bps = imbalance\<rparr>))))))"

section \<open>Quote age\<close>

definition params_valid :: "reference_quote_params \<Rightarrow> bool" where
  "params_valid params \<longleftrightarrow> validate_params params = Ok ()"

definition quote_age :: "reference_quote_state \<Rightarrow> nat" where
  "quote_age s = unat (now_slot s) - unat (mid_publish_slot s)"

lemma params_valid_iff:
  "params_valid p \<longleftrightarrow> fee_bps p < 10000 \<and> base_half_spread_bps p < 10000
     \<and> max_aging_surcharge_bps p < 10000 \<and> inventory_skew_bps_per_10k_imbalance p < 10000
     \<and> max_inventory_skew_bps p < 10000
     \<and> aging_start_slots p \<le> protected_start_slots p \<and> protected_start_slots p < expire_slots p
     \<and> 0 < protected_max_trade_base_atoms p
     \<and> protected_max_trade_base_atoms p \<le> max_trade_base_atoms p"
  by (auto simp: params_valid_def validate_params_def word_gt_0 not_le not_less)

lemma validate_params_eq:
  "validate_params p = (if params_valid p then Ok () else Err InvalidConfig)"
  by (auto simp: params_valid_def validate_params_def)

lemma unat_age: "unat (saturating_sub (now_slot s) (mid_publish_slot s)) = quote_age s"
  by (simp add: quote_age_def)

definition age_state_of :: "reference_quote_params \<Rightarrow> nat \<Rightarrow> age_state" where
  "age_state_of p age =
    (if unat (expire_slots p) \<le> age then Expired
     else if unat (protected_start_slots p) \<le> age then Protected
     else if unat (aging_start_slots p) \<le> age then Aging else Fresh)"

lemma quote_age_state_eq:
  "quote_age_state s p =
    (if params_valid p then Ok (if paused s then Paused else age_state_of p (quote_age s))
     else Err InvalidConfig)"
  by (simp add: quote_age_state_def validate_params_eq age_state_of_def word_le_nat_alt Let_def
      unat_age del: unat_saturating_sub)

text \<open>The order in which a quote ages.\<close>

fun age_rank :: "age_state \<Rightarrow> nat" where
  "age_rank Fresh = 0" | "age_rank Aging = 1" | "age_rank Protected = 2"
| "age_rank Expired = 3" | "age_rank Paused = 4"

lemma age_state_mono:
  assumes "params_valid p" "a \<le> a'"
  shows "age_rank (age_state_of p a) \<le> age_rank (age_state_of p a')"
proof -
  have "unat (aging_start_slots p) \<le> unat (protected_start_slots p)"
    "unat (protected_start_slots p) \<le> unat (expire_slots p)"
    using assms(1) by (simp_all add: params_valid_iff word_le_nat_alt word_less_nat_alt)
  with assms(2) show ?thesis by (simp add: age_state_of_def)
qed

section \<open>Size limit and surcharge\<close>

text \<open>The trade limit over the naturals, as a function of the age alone.\<close>

definition size_limit :: "reference_quote_params \<Rightarrow> nat \<Rightarrow> nat" where
  "size_limit p age =
    (case age_state_of p age of
       Fresh \<Rightarrow> unat (max_trade_base_atoms p)
     | Aging \<Rightarrow> unat (max_trade_base_atoms p)
         - (unat (max_trade_base_atoms p) - unat (protected_max_trade_base_atoms p))
           * (age - unat (aging_start_slots p))
           div (unat (protected_start_slots p) - unat (aging_start_slots p))
     | Protected \<Rightarrow> unat (protected_max_trade_base_atoms p)
     | _ \<Rightarrow> 0)"

lemma age_state_AgingD:
  "age_state_of p age = Aging \<Longrightarrow>
     unat (aging_start_slots p) \<le> age \<and> age < unat (protected_start_slots p)"
  by (auto simp: age_state_of_def split: if_splits)

lemma max_base_trade_eq:
  "unat (max_base_trade_for_age s p (age_state_of p (quote_age s))) = size_limit p (quote_age s)"
proof (cases "age_state_of p (quote_age s)")
  case Aging
  define span :: u64 where
    "span = max (saturating_sub (protected_start_slots p) (aging_start_slots p)) 1"
  define into :: u64 where
    "into = min (saturating_sub (saturating_sub (now_slot s) (mid_publish_slot s)) (aging_start_slots p)) span"
  define decay :: u64 where
    "decay = saturating_sub (max_trade_base_atoms p) (protected_max_trade_base_atoms p)"
  note age = age_state_AgingD[OF Aging]
  have span: "unat span = unat (protected_start_slots p) - unat (aging_start_slots p)"
  proof -
    have "1 \<le> unat (protected_start_slots p) - unat (aging_start_slots p)" using age by linarith
    then show ?thesis unfolding span_def unat_max by (simp add: max_absorb1)
  qed
  have into: "unat into = quote_age s - unat (aging_start_slots p)"
  proof -
    have "unat into = min (quote_age s - unat (aging_start_slots p)) (unat span)"
      by (simp only: into_def unat_min unat_saturating_sub unat_age[unfolded unat_saturating_sub])
    moreover have "quote_age s - unat (aging_start_slots p)
        \<le> unat (protected_start_slots p) - unat (aging_start_slots p)" using age by linarith
    ultimately show ?thesis unfolding span by (simp only: min_absorb1)
  qed
  have "0 < unat (as_u128 span)" "unat (as_u128 into) \<le> unat (as_u128 span)"
    unfolding unat_widen span into using age by linarith+
  from unat_narrow_quotient(2)[OF this] u64_bound[of into]
  have q: "unat (ucast (as_u128 decay * as_u128 into div as_u128 span) :: u64)
      = unat decay * unat into div unat span"
    by simp
  show ?thesis
    using Aging q by (simp add: max_base_trade_for_age_def size_limit_def Let_def
        span_def[symmetric] into_def[symmetric] decay_def[symmetric])
      (simp add: span into decay_def)
qed (simp_all add: max_base_trade_for_age_def size_limit_def)

lemma decay_step:
  fixes d m n x y :: nat
  assumes "n \<le> m" "x \<le> d"
  shows "n \<le> m - (m - n) * x div d"
proof (cases "d = 0")
  case False
  have "(m - n) * x \<le> (m - n) * d" using assms by simp
  then have "(m - n) * x div d \<le> m - n" using False by (metis div_le_mono nonzero_mult_div_cancel_right)
  with assms show ?thesis by simp
qed (use assms in simp)

lemma size_limit_bounds:
  assumes "params_valid p" "age < unat (expire_slots p)"
  shows "unat (protected_max_trade_base_atoms p) \<le> size_limit p age"
    and "size_limit p age \<le> unat (max_trade_base_atoms p)"
proof -
  have le: "unat (protected_max_trade_base_atoms p) \<le> unat (max_trade_base_atoms p)"
    using assms(1) by (simp add: params_valid_iff word_le_nat_alt)
  show "unat (protected_max_trade_base_atoms p) \<le> size_limit p age"
  proof (cases "age_state_of p age")
    case Aging
    from age_state_AgingD[OF this] have "age - unat (aging_start_slots p)
        \<le> unat (protected_start_slots p) - unat (aging_start_slots p)" by linarith
    from decay_step[OF le this] Aging show ?thesis by (simp add: size_limit_def)
  qed (use le assms(2) in \<open>auto simp: size_limit_def age_state_of_def split: if_splits\<close>)
  show "size_limit p age \<le> unat (max_trade_base_atoms p)"
    using le by (simp add: size_limit_def split: age_state.splits)
qed

lemma size_limit_antimono:
  assumes valid: "params_valid p" and ages: "a \<le> a'"
  shows "size_limit p a' \<le> size_limit p a"
proof (cases "a' < unat (expire_slots p)")
  case True
  then have a: "a < unat (expire_slots p)" using ages by simp
  note mono = age_state_mono[OF valid ages] and b = size_limit_bounds[OF valid a]
    and b' = size_limit_bounds[OF valid True]
  show ?thesis
  proof (cases "age_state_of p a = Aging \<and> age_state_of p a' = Aging")
    case both: True
    let ?d = "unat (protected_start_slots p) - unat (aging_start_slots p)"
    let ?m = "unat (max_trade_base_atoms p) - unat (protected_max_trade_base_atoms p)"
    have "?m * (a - unat (aging_start_slots p)) div ?d \<le> ?m * (a' - unat (aging_start_slots p)) div ?d"
      using ages by (intro div_le_mono mult_le_mono2) simp
    with both show ?thesis by (simp add: size_limit_def diff_le_mono2)
  next
    case False
    with mono b b' True show ?thesis
      by (cases "age_state_of p a"; cases "age_state_of p a'") (auto simp: size_limit_def)
  qed
next
  case False
  then show ?thesis by (simp add: size_limit_def age_state_of_def)
qed

lemma aging_surcharge_eq:
  "unat (aging_surcharge_bps s p) =
     min ((quote_age s - unat (aging_start_slots p)) * unat (aging_surcharge_bps_per_slot p))
       (unat (max_aging_surcharge_bps p))"
proof -
  let ?slots = "saturating_sub (saturating_sub (now_slot s) (mid_publish_slot s)) (aging_start_slots p)"
  have slots: "unat ?slots = quote_age s - unat (aging_start_slots p)"
    by (simp only: unat_saturating_sub unat_age[unfolded unat_saturating_sub])
  have prod: "unat (as_u128 ?slots * ucast (aging_surcharge_bps_per_slot p))
      = (quote_age s - unat (aging_start_slots p)) * unat (aging_surcharge_bps_per_slot p)"
  proof -
    have "unat ?slots * unat (aging_surcharge_bps_per_slot p) < 2 ^ 64 * 2 ^ 16"
      using u64_bound[of ?slots] u16_bound[of "aging_surcharge_bps_per_slot p"]
      by (intro mult_strict_mono') auto
    then show ?thesis by (simp add: unat_mul_fits slots del: unat_saturating_sub)
  qed
  have "unat (min (as_u128 ?slots * ucast (aging_surcharge_bps_per_slot p))
      (ucast (max_aging_surcharge_bps p))) < 2 ^ 16"
    using u16_bound[of "max_aging_surcharge_bps p"] by (simp add: min_less_iff_disj)
  then show ?thesis
    unfolding aging_surcharge_bps_def Let_def
    by (subst unat_ucast_narrow) (simp_all add: prod del: unat_saturating_sub)
qed

section \<open>Imbalance, skew and price\<close>

text \<open>Rust's signed division truncates towards zero.\<close>

lemma abs_sdiv: "0 < d \<Longrightarrow> \<bar>x sdiv d\<bar> = \<bar>x\<bar> div (d :: int)"
  by (simp add: signed_divide_int_def abs_mult abs_sgn_eq pos_imp_zdiv_nonneg_iff) (auto simp: abs_if)

lemma sdiv_mono:
  assumes "x \<le> y" "0 < (d :: int)" shows "x sdiv d \<le> y sdiv d"
proof -
  consider "0 \<le> x" | "x < 0" "0 \<le> y" | "y < 0" using assms(1) by linarith
  then show ?thesis
  proof cases
    case 1
    then show ?thesis using assms
      by (auto simp: signed_divide_int_def sgn_if zdiv_mono1 pos_imp_zdiv_nonneg_iff)
  next
    case 2
    then have "0 \<le> (- x) div d" "0 \<le> y div d"
      using assms by (simp_all add: pos_imp_zdiv_nonneg_iff)
    then show ?thesis using 2 assms by (auto simp: signed_divide_int_def sgn_if)
  next
    case 3
    then have "(- y) div d \<le> (- x) div d" using assms by (intro zdiv_mono1) auto
    then show ?thesis using 3 assms by (auto simp: signed_divide_int_def sgn_if)
  qed
qed

lemma clamp_mono: "x \<le> y \<Longrightarrow> lo \<le> hi \<Longrightarrow> clamp x lo hi \<le> clamp y lo hi"
  by (auto simp: clamp_def)

lemma uint_u64_bounds: "0 \<le> uint (a :: u64)" "uint (a :: u64) < 18446744073709551616"
  using uint_nonnegative[of a] uint_bounded[of a] by simp_all

lemma uint_u16_bounds: "0 \<le> uint (a :: u16)" "uint (a :: u16) < 65536"
  using uint_nonnegative[of a] uint_bounded[of a] by simp_all

lemma delta_bounds:
  fixes b t :: int
  assumes "0 \<le> b" "b < 18446744073709551616" "0 \<le> t" "t < 18446744073709551616"
  shows "- 170141183460469231731687303715884105728 \<le> (b - t) * 10000"
    and "(b - t) * 10000 \<le> 170141183460469231731687303715884105727"
  using assms by simp_all

lemma imbalance_eq:
  "inventory_imbalance_bps b t =
    (if t = 0 then 0 else clamp ((uint b - uint t) * 10000 sdiv uint t) i32_min i32_max)"
proof -
  note delta_bounds[OF uint_u64_bounds[of b] uint_u64_bounds[of t]]
  then have "saturate_i128 ((uint b - uint t) * 10000) = (uint b - uint t) * 10000"
    unfolding saturate_i128_def clamp_def i128_min_def i128_max_def by (simp del: left_diff_distrib_numeral)
  then show ?thesis by (simp add: inventory_imbalance_bps_def)
qed

lemma i32_bounds_le: "i32_min \<le> i32_max"
  by (simp add: i32_min_def i32_max_def)

lemma uint_pos: "t \<noteq> 0 \<Longrightarrow> 0 < uint (t :: u64)"
  using uint_u64_bounds(1)[of t] by (auto simp: less_le uint_0_iff)

lemma imbalance_mono:
  assumes "b \<le> b'" shows "inventory_imbalance_bps b t \<le> inventory_imbalance_bps b' t"
proof (cases "t = 0")
  case False
  have "(uint b - uint t) * 10000 \<le> (uint b' - uint t) * 10000"
    using assms by (simp add: word_le_def)
  from sdiv_mono[OF this uint_pos[OF False]] show ?thesis
    using False by (simp only: imbalance_eq if_False) (intro clamp_mono i32_bounds_le)
qed (simp add: imbalance_eq)

lemma int_div_less_iff: "0 < d \<Longrightarrow> a div d < q \<longleftrightarrow> a < q * (d :: int)"
proof -
  assume d: "0 < d"
  show ?thesis
  proof
    assume "a div d < q"
    then have "(a div d + 1) * d \<le> q * d" using d by (intro mult_right_mono) auto
    moreover have "a < (a div d + 1) * d"
      using pos_mod_bound[OF d, of a] div_mult_mod_eq[of a d] unfolding distrib_right by linarith
    ultimately show "a < q * d" by simp
  next
    assume "a < q * d"
    moreover have "(a div d) * d \<le> a"
      using pos_mod_sign[OF d, of a] minus_mod_eq_div_mult[of a d] by simp
    ultimately have "(a div d) * d < q * d" by simp
    then show "a div d < q" using d by simp
  qed
qed

text \<open>The hard band on \<open>i32\<close> basis points is a bound on the inventory itself.\<close>

lemma band_iff:
  assumes t: "t \<noteq> 0" and band: "0 \<le> band" "band < 65536"
  shows "abs_i32 (inventory_imbalance_bps b t) \<le> band
    \<longleftrightarrow> \<bar>uint b - uint t\<bar> * 10000 < (band + 1) * uint t"
proof -
  let ?x = "(uint b - uint t) * 10000 sdiv uint t"
  have "abs_i32 (inventory_imbalance_bps b t) \<le> band \<longleftrightarrow> \<bar>?x\<bar> \<le> band"
    using t band by (auto simp: imbalance_eq abs_i32_def clamp_def i32_min_def i32_max_def)
  also have "\<dots> \<longleftrightarrow> \<bar>uint b - uint t\<bar> * 10000 div uint t < band + 1"
    unfolding abs_sdiv[OF uint_pos[OF t]] abs_mult by auto
  also have "\<dots> \<longleftrightarrow> \<bar>uint b - uint t\<bar> * 10000 < (band + 1) * uint t"
    using uint_pos[OF t] by (rule int_div_less_iff)
  finally show ?thesis .
qed

lemma skew_bounds:
  "- uint (max_inventory_skew_bps p) \<le> inventory_skew_bps i p"
  "inventory_skew_bps i p \<le> uint (max_inventory_skew_bps p)"
  using uint_u16_bounds[of "max_inventory_skew_bps p"]
  by (simp_all add: inventory_skew_bps_def Let_def)

lemma skew_mono: "i \<le> i' \<Longrightarrow> inventory_skew_bps i p \<le> inventory_skew_bps i' p"
proof -
  assume "i \<le> i'"
  then have "i * uint (inventory_skew_bps_per_10k_imbalance p)
      \<le> i' * uint (inventory_skew_bps_per_10k_imbalance p)"
    using uint_u16_bounds by (intro mult_right_mono) auto
  then show ?thesis
    unfolding inventory_skew_bps_def Let_def saturate_i128_def
    using uint_u16_bounds[of "max_inventory_skew_bps p"]
    by (intro clamp_mono sdiv_mono) (auto simp: i128_min_def i128_max_def)
qed

text \<open>The price factor in basis points.\<close>

definition factor_bps :: "u16 \<Rightarrow> int \<Rightarrow> bool \<Rightarrow> int" where
  "factor_bps spread skew b2q = 10000 + (if b2q then - uint spread else uint spread) - skew"

lemma effective_price_eq:
  "effective_price mid spread skew b2q =
      (if factor_bps spread skew b2q \<le> 0 then Err InvalidConfig
       else map_ok Q64x64 (mul_div_floor (raw mid) (of_int (factor_bps spread skew b2q)) 10000))"
  by (simp add: effective_price_def factor_bps_def Let_def)

lemma effective_price_Ok:
  assumes "\<bar>skew\<bar> < 65536"
  shows "effective_price mid spread skew b2q = Ok p \<longleftrightarrow>
    0 < factor_bps spread skew b2q
    \<and> unat (raw p) = unat (raw mid) * nat (factor_bps spread skew b2q) div 10000"
proof -
  let ?f = "factor_bps spread skew b2q"
  have "?f < 200000" using assms uint_u16_bounds[of spread]
    unfolding factor_bps_def by (cases b2q; simp; linarith)
  then have f: "0 < ?f \<Longrightarrow> unat (of_int ?f :: u128) = nat ?f"
    by (simp add: unsigned_of_int take_bit_int_eq_self nat_less_iff)
  then show ?thesis
    by (cases p) (auto simp: effective_price_eq map_ok_eq mdf.md_Ok_iff)
qed

section \<open>The swap\<close>

lemma amount_less_fee_Ok:
  "amount_less_fee a f = Ok m \<longleftrightarrow> f < 10000 \<and> unat m = net_of_fee a f \<and> m \<noteq> 0"
proof (cases "10000 \<le> f")
  case False
  then show ?thesis
    using unat_less_fee[of f a]
    by (auto simp: amount_less_fee_def net_of_fee_def not_le word_eq_iff_unat Let_def)
qed (auto simp: amount_less_fee_def)

definition fill_amounts ::
    "reference_quote_state \<Rightarrow> u64 \<Rightarrow> u64 \<Rightarrow> q64x64 \<Rightarrow> bool \<Rightarrow> u64 \<Rightarrow> u64 \<Rightarrow> u64 \<Rightarrow> bool" where
  "fill_amounts s a net price b2q out nb nq \<longleftrightarrow> out \<noteq> 0 \<and>
    (if b2q
     then unat out = unat net * unat (raw price) div 2 ^ 64
       \<and> unat nb = unat (base_inventory s) + unat a
       \<and> unat nq + unat out = unat (quote_inventory s) \<and> 0 < unat nq
     else raw price \<noteq> 0 \<and> unat out = unat net * 2 ^ 64 div unat (raw price)
       \<and> unat nb + unat out = unat (base_inventory s) \<and> 0 < unat nb
       \<and> unat nq = unat (quote_inventory s) + unat a)"

lemma reference_fill_Ok:
  "reference_fill s a net price b2q = Ok (out, nb, nq) \<longleftrightarrow> fill_amounts s a net price b2q out nb nq"
proof
  assume "reference_fill s a net price b2q = Ok (out, nb, nq)"
  then show "fill_amounts s a net price b2q out nb nq"
    by (cases b2q) (auto simp: reference_fill_def fill_amounts_def result_simps mul_amount_floor_Ok
        div_amount_floor_Ok checked_add_eq_Some checked_sub_eq_Some word_le_nat_alt
        word_eq_iff_unat split: if_splits)
next
  assume f: "fill_amounts s a net price b2q out nb nq"
  show "reference_fill s a net price b2q = Ok (out, nb, nq)"
  proof (cases b2q)
    case True
    with f have "mul_amount_floor price net = Ok out" "checked_add (base_inventory s) a = Some nb"
      "checked_sub (quote_inventory s) out = Some nq"
      by (simp_all add: fill_amounts_def mul_amount_floor_Ok checked_add_eq_Some checked_sub_eq_Some)
    with True f show ?thesis
      by (auto simp: reference_fill_def fill_amounts_def word_le_nat_alt)
  next
    case False
    with f have "div_amount_floor price net = Ok out" "checked_sub (base_inventory s) out = Some nb"
      "checked_add (quote_inventory s) a = Some nq"
      by (simp_all add: fill_amounts_def div_amount_floor_Ok checked_add_eq_Some checked_sub_eq_Some)
    with False f show ?thesis
      by (auto simp: reference_fill_def fill_amounts_def word_le_nat_alt)
  qed
qed

definition base_size :: "q64x64 \<Rightarrow> u64 \<Rightarrow> bool \<Rightarrow> nat" where
  "base_size mid a b2q = (if b2q then unat a else unat a * 2 ^ 64 div unat (raw mid))"

lemma base_equivalent_Ok:
  "base_equivalent_amount mid a b2q = Ok n \<longleftrightarrow> (b2q \<or> raw mid \<noteq> 0) \<and> unat n = base_size mid a b2q"
  by (auto simp: base_equivalent_amount_def base_size_def div_amount_floor_Ok word_eq_iff_unat)

text \<open>When a swap is open: the guards before any pricing.\<close>

definition swap_open :: "reference_quote_state \<Rightarrow> reference_quote_params \<Rightarrow> u64 \<Rightarrow> bool" where
  "swap_open s p a \<longleftrightarrow> params_valid p \<and> a \<noteq> 0
     \<and> base_inventory s \<noteq> 0 \<and> quote_inventory s \<noteq> 0 \<and> target_base_inventory s \<noteq> 0
     \<and> \<not> paused s \<and> quote_age s < unat (expire_slots p)"

definition applied_spread :: "reference_quote_state \<Rightarrow> reference_quote_params \<Rightarrow> u16" where
  "applied_spread s p = saturating_add (base_half_spread_bps p) (aging_surcharge_bps s p)"

definition current_skew :: "reference_quote_state \<Rightarrow> reference_quote_params \<Rightarrow> int" where
  "current_skew s p =
    inventory_skew_bps (inventory_imbalance_bps (base_inventory s) (target_base_inventory s)) p"

definition within_band :: "reference_quote_params \<Rightarrow> u64 \<Rightarrow> u64 \<Rightarrow> bool" where
  "within_band p b t \<longleftrightarrow>
     \<bar>uint b - uint t\<bar> * 10000 < (uint (hard_inventory_band_bps p) + 1) * uint t"

text \<open>The contract of an accepted swap.\<close>

definition swap_contract ::
    "reference_quote_state \<Rightarrow> reference_quote_params \<Rightarrow> u64 \<Rightarrow> bool \<Rightarrow> reference_quote \<Rightarrow> bool" where
  "swap_contract s p a b2q q \<longleftrightarrow>
     swap_open s p a
   \<and> rq_age_state q = age_state_of p (quote_age s)
   \<and> (b2q \<or> raw (mid_price s) \<noteq> 0)
   \<and> 0 < base_size (mid_price s) a b2q \<and> base_size (mid_price s) a b2q \<le> size_limit p (quote_age s)
   \<and> unat (rq_amount_in_less_fee q) = net_of_fee a (fee_bps p) \<and> rq_amount_in_less_fee q \<noteq> 0
   \<and> rq_applied_spread_bps q = applied_spread s p
   \<and> rq_inventory_imbalance_bps q
       = inventory_imbalance_bps (base_inventory s) (target_base_inventory s)
   \<and> 0 < factor_bps (applied_spread s p) (current_skew s p) b2q
   \<and> unat (raw (rq_effective_price q))
       = unat (raw (mid_price s)) * nat (factor_bps (applied_spread s p) (current_skew s p) b2q) div 10000
   \<and> fill_amounts s a (rq_amount_in_less_fee q) (rq_effective_price q) b2q
       (rq_amount_out q) (rq_new_base_inventory q) (rq_new_quote_inventory q)
   \<and> within_band p (rq_new_base_inventory q) (target_base_inventory s)"

lemma skew_small: "\<bar>inventory_skew_bps i p\<bar> < 65536"
  using skew_bounds[where p = p and i = i] uint_u16_bounds[of "max_inventory_skew_bps p"] by linarith

lemma current_skew_cap: "\<bar>current_skew s p\<bar> \<le> uint (max_inventory_skew_bps p)"
proof -
  have "- uint (max_inventory_skew_bps p) \<le> current_skew s p"
    "current_skew s p \<le> uint (max_inventory_skew_bps p)"
    by (simp_all add: current_skew_def skew_bounds)
  then show ?thesis by linarith
qed

lemma current_skew_small: "\<bar>current_skew s p\<bar> < 65536"
  by (simp add: current_skew_def skew_small)

lemma within_band_iff:
  "t \<noteq> 0 \<Longrightarrow> within_band p b t \<longleftrightarrow>
     \<not> uint (hard_inventory_band_bps p) < abs_i32 (inventory_imbalance_bps b t)"
  using band_iff[of t "uint (hard_inventory_band_bps p)" b]
    uint_u16_bounds[of "hard_inventory_band_bps p"]
  by (auto simp: within_band_def not_less)

text \<open>The function after its guards, once the age state is known to be open.\<close>

lemma swap_guards:
  assumes "swap_open s p a"
  defines "st \<equiv> age_state_of p (quote_age s)"
  shows "validate_params p = Ok ()" "a \<noteq> 0"
    "\<not> (base_inventory s = 0 \<or> quote_inventory s = 0)" "target_base_inventory s \<noteq> 0"
    "quote_age_state s p = Ok st" "st \<noteq> Paused" "st \<noteq> Expired"
  using assms
  by (auto simp: swap_open_def params_valid_def quote_age_state_eq age_state_of_def)

lemma swap_open_if_Ok:
  assumes "reference_quote_exact_in s p a b2q = Ok q" shows "swap_open s p a"
proof -
  have v: "params_valid p" and "a \<noteq> 0" "base_inventory s \<noteq> 0" "quote_inventory s \<noteq> 0"
      "target_base_inventory s \<noteq> 0"
    using assms by (auto simp: reference_quote_exact_in_def result_simps params_valid_def
        split: if_splits)
  moreover have "quote_age_state s p \<noteq> Ok Paused" "quote_age_state s p \<noteq> Ok Expired"
    using assms by (auto simp: reference_quote_exact_in_def result_simps split: if_splits)
  ultimately show ?thesis
    by (cases "paused s"; cases "quote_age s < unat (expire_slots p)")
      (simp_all add: swap_open_def quote_age_state_eq age_state_of_def)
qed

lemma swap_open_eq:
  assumes "swap_open s p a"
  shows "reference_quote_exact_in s p a b2q =
    and_then (base_equivalent_amount (mid_price s) a b2q) (\<lambda>be.
    if be = 0 \<or> max_base_trade_for_age s p (age_state_of p (quote_age s)) < be
    then Err (if age_state_of p (quote_age s) = Protected then QuoteProtected else InvalidAmount)
    else and_then (amount_less_fee a (fee_bps p)) (\<lambda>net.
    and_then (effective_price (mid_price s) (applied_spread s p) (current_skew s p) b2q) (\<lambda>price.
    and_then (reference_fill s a net price b2q) (\<lambda>(out, nb, nq).
    if uint (hard_inventory_band_bps p)
        < abs_i32 (inventory_imbalance_bps nb (target_base_inventory s)) then Err InventoryBand
    else Ok \<lparr>rq_age_state = age_state_of p (quote_age s), rq_amount_in_less_fee = net,
            rq_amount_out = out, rq_new_base_inventory = nb, rq_new_quote_inventory = nq,
            rq_effective_price = price, rq_applied_spread_bps = applied_spread s p,
            rq_inventory_imbalance_bps
              = inventory_imbalance_bps (base_inventory s) (target_base_inventory s)\<rparr>))))"
  using swap_guards[OF assms]
  unfolding reference_quote_exact_in_def Let_def applied_spread_def current_skew_def by simp

lemma swap_closed:
  assumes "params_valid p" "target_base_inventory s \<noteq> 0" "\<not> swap_open s p a"
  shows "reference_quote_exact_in s p a b2q \<in>
    {Err InvalidAmount, Err EmptyLiquidity, Err PoolPaused, Err StaleQuote}"
proof (cases "a = 0 \<or> base_inventory s = 0 \<or> quote_inventory s = 0")
  case True
  then show ?thesis
    using assms(1) by (cases "a = 0") (auto simp: reference_quote_exact_in_def validate_params_eq)
next
  case False
  with assms show ?thesis
    by (cases "paused s") (simp_all add: reference_quote_exact_in_def validate_params_eq
        quote_age_state_eq swap_open_def age_state_of_def)
qed

lemma swap_run:
  assumes "swap_open s p a"
  shows "reference_quote_exact_in s p a b2q = Ok q \<longleftrightarrow>
    (\<exists>be net price out nb nq.
       base_equivalent_amount (mid_price s) a b2q = Ok be
     \<and> be \<noteq> 0 \<and> be \<le> max_base_trade_for_age s p (age_state_of p (quote_age s))
     \<and> amount_less_fee a (fee_bps p) = Ok net
     \<and> effective_price (mid_price s) (applied_spread s p) (current_skew s p) b2q = Ok price
     \<and> reference_fill s a net price b2q = Ok (out, nb, nq)
     \<and> \<not> uint (hard_inventory_band_bps p)
         < abs_i32 (inventory_imbalance_bps nb (target_base_inventory s))
     \<and> q = \<lparr>rq_age_state = age_state_of p (quote_age s), rq_amount_in_less_fee = net,
            rq_amount_out = out, rq_new_base_inventory = nb, rq_new_quote_inventory = nq,
            rq_effective_price = price, rq_applied_spread_bps = applied_spread s p,
            rq_inventory_imbalance_bps
              = inventory_imbalance_bps (base_inventory s) (target_base_inventory s)\<rparr>)"
  (is "?L \<longleftrightarrow> ?R")
proof -
  note g = swap_guards[OF assms]
  show ?thesis
  proof
    assume ?L
    with g show ?R
      by (auto simp: reference_quote_exact_in_def result_simps Let_def not_less
          applied_spread_def[symmetric] current_skew_def[symmetric] split: if_splits)
  next
    assume ?R
    with g show ?L
      by (auto simp: reference_quote_exact_in_def Let_def not_less
          applied_spread_def[symmetric] current_skew_def[symmetric])
  qed
qed

lemma reference_quote_Ok:
  "reference_quote_exact_in s p a b2q = Ok q \<longleftrightarrow> swap_contract s p a b2q q"
proof (cases "swap_open s p a")
  case False
  then show ?thesis using swap_open_if_Ok by (auto simp: swap_contract_def)
next
  case True
  note lim = max_base_trade_eq[of s p]
  note bnd = within_band_iff[OF swap_guards(4)[OF True]]
  note price = effective_price_Ok[OF current_skew_small]
  have fee: "fee_bps p < 10000" using True by (simp add: swap_open_def params_valid_iff)
  note parts = base_equivalent_Ok amount_less_fee_Ok reference_fill_Ok price
  show ?thesis
  proof
    assume "reference_quote_exact_in s p a b2q = Ok q"
    then obtain be where "unat be = base_size (mid_price s) a b2q" "be \<noteq> 0"
      "be \<le> max_base_trade_for_age s p (age_state_of p (quote_age s))"
      and rest: "swap_contract s p a b2q q \<longleftrightarrow>
        0 < base_size (mid_price s) a b2q \<and> base_size (mid_price s) a b2q \<le> size_limit p (quote_age s)"
      unfolding swap_run[OF True] parts bnd[symmetric]
      by (auto simp: swap_contract_def True)
    then show "swap_contract s p a b2q q"
      by (simp add: word_le_nat_alt lim unat_gt_0 flip: \<open>unat be = _\<close>)
  next
    assume c: "swap_contract s p a b2q q"
    define be :: u64 where "be = of_nat (base_size (mid_price s) a b2q)"
    have "base_size (mid_price s) a b2q < 2 ^ 64"
      using c lim unat_lt2p[of "max_base_trade_for_age s p (age_state_of p (quote_age s))"]
      by (simp add: swap_contract_def)
    then have be: "unat be = base_size (mid_price s) a b2q"
      by (simp add: be_def unat_of_nat_fits)
    then have be_ok: "be \<noteq> 0" "be \<le> max_base_trade_for_age s p (age_state_of p (quote_age s))"
      using c by (auto simp: swap_contract_def word_le_nat_alt lim)
    have q: "q = \<lparr>rq_age_state = age_state_of p (quote_age s),
        rq_amount_in_less_fee = rq_amount_in_less_fee q, rq_amount_out = rq_amount_out q,
        rq_new_base_inventory = rq_new_base_inventory q,
        rq_new_quote_inventory = rq_new_quote_inventory q,
        rq_effective_price = rq_effective_price q, rq_applied_spread_bps = applied_spread s p,
        rq_inventory_imbalance_bps
          = inventory_imbalance_bps (base_inventory s) (target_base_inventory s)\<rparr>"
      using c by (intro reference_quote.equality) (simp_all add: swap_contract_def)
    show "reference_quote_exact_in s p a b2q = Ok q"
      unfolding swap_run[OF True] parts bnd[symmetric]
      by (rule exI[of _ be], rule exI[of _ "rq_amount_in_less_fee q"],
          rule exI[of _ "rq_effective_price q"], rule exI[of _ "rq_amount_out q"],
          rule exI[of _ "rq_new_base_inventory q"], rule exI[of _ "rq_new_quote_inventory q"],
          intro conjI q)
        (use be be_ok c fee in \<open>simp_all add: swap_contract_def\<close>)
  qed
qed

lemma swap_contractD:
  assumes "reference_quote_exact_in s p a b2q = Ok q"
  shows "swap_contract s p a b2q q" using assms by (simp only: reference_quote_Ok)

section \<open>Prices are never better than quoted\<close>

text \<open>Selling \<open>n\<close> atoms at a floored price never pays more than the exact price.\<close>

lemma floor_sell_le:
  fixes n m f d e :: nat
  shows "n * (m * f div d) div e * (d * e) \<le> n * (m * f)"
proof -
  have "n * (m * f div d) div e * e \<le> n * (m * f div d)" by simp
  then have "n * (m * f div d) div e * e * d \<le> n * (m * f div d) * d" by (rule mult_le_mono1)
  also have "\<dots> = n * (m * f div d * d)" by (simp add: ac_simps)
  also have "\<dots> \<le> n * (m * f)" by (intro mult_le_mono2) simp
  finally show ?thesis by (simp add: ac_simps)
qed

lemma floor_buy_le:
  fixes n p e :: nat
  assumes "0 < p" shows "n * e div p * p \<le> n * e"
  by simp

text \<open>
  Two swaps in opposite directions at prices whose order favours the maker never return more
  than was put in.
\<close>

lemma round_trip_sell_buy:
  fixes a n p p' n' out e :: nat
  assumes "n \<le> a" "out = n * p div e" "n' \<le> out" "p \<le> p'" "0 < p'" "0 < e"
  shows "n' * e div p' \<le> a"
proof -
  have "n' * e \<le> out * e" using assms(3) by simp
  also have "\<dots> \<le> n * p" using assms(2) by simp
  also have "\<dots> \<le> a * p'" using assms(1,4) by (intro mult_le_mono)
  finally have "n' * e div p' \<le> a * p' div p'" by (rule div_le_mono)
  with assms(5) show ?thesis by simp
qed

lemma round_trip_buy_sell:
  fixes a n p p' n' out e :: nat
  assumes "n \<le> a" "out = n * e div p" "n' \<le> out" "p' \<le> p" "0 < p" "0 < e"
  shows "n' * p' div e \<le> a"
proof -
  have "n' * p' \<le> out * p" using assms(3,4) by (intro mult_le_mono)
  also have "\<dots> \<le> n * e" using assms(2) by simp
  also have "\<dots> \<le> a * e" using assms(1) by simp
  finally have "n' * p' div e \<le> a * e div e" by (rule div_le_mono)
  with assms(6) show ?thesis by simp
qed

lemma factor_spread:
  "factor_bps spread skew True = 10000 - uint spread - skew"
  "factor_bps spread skew False = 10000 + uint spread - skew"
  by (simp_all add: factor_bps_def)

text \<open>The state the next swap of the same slot sees.\<close>

definition after_swap :: "reference_quote_state \<Rightarrow> reference_quote \<Rightarrow> reference_quote_state" where
  "after_swap s q = s\<lparr>base_inventory := rq_new_base_inventory q,
                     quote_inventory := rq_new_quote_inventory q\<rparr>"

lemma after_swap_simps [simp]:
  "mid_price (after_swap s q) = mid_price s" "paused (after_swap s q) = paused s"
  "target_base_inventory (after_swap s q) = target_base_inventory s"
  "base_inventory (after_swap s q) = rq_new_base_inventory q"
  "quote_inventory (after_swap s q) = rq_new_quote_inventory q"
  "quote_age (after_swap s q) = quote_age s"
  by (simp_all add: after_swap_def quote_age_def)

lemma applied_spread_after [simp]: "applied_spread (after_swap s q) p = applied_spread s p"
  by (simp add: applied_spread_def aging_surcharge_bps_def after_swap_def)

lemma skew_round_trip_factor:
  assumes "\<bar>current_skew s p - current_skew s' p\<bar> \<le> 2 * uint spread"
  shows "factor_bps spread (current_skew s p) True \<le> factor_bps spread (current_skew s' p) False"
    and "factor_bps spread (current_skew s' p) True \<le> factor_bps spread (current_skew s p) False"
  using assms by (simp_all add: factor_spread)

lemma scaled_price_mono:
  "f \<le> f' \<Longrightarrow> m * nat f div 10000 \<le> m * nat f' div (10000 :: nat)"
  by (intro div_le_mono mult_le_mono2 nat_mono)

text \<open>A pool and a parameter set for the concrete runs.\<close>

definition example_state :: reference_quote_state where
  "example_state = \<lparr>base_inventory = 1000000000, quote_inventory = 30000000000000,
    target_base_inventory = 1000000000, mid_price = Q64x64 553402322211286548480000,
    mid_publish_slot = 100, now_slot = 105, paused = False\<rparr>"

definition example_params :: reference_quote_params where
  "example_params = \<lparr>fee_bps = 0, base_half_spread_bps = 5, aging_start_slots = 2,
    protected_start_slots = 10, expire_slots = 20, aging_surcharge_bps_per_slot = 1,
    max_aging_surcharge_bps = 20, max_trade_base_atoms = 500000000,
    protected_max_trade_base_atoms = 1000000, inventory_skew_bps_per_10k_imbalance = 200,
    max_inventory_skew_bps = 100, hard_inventory_band_bps = 5000\<rparr>"

definition example_swap :: reference_quote where
  "example_swap = \<lparr>rq_age_state = Aging, rq_amount_in_less_fee = 1000000,
    rq_amount_out = 29976000000, rq_new_base_inventory = 1001000000,
    rq_new_quote_inventory = 29970024000000,
    rq_effective_price = Q64x64 552959600353517519241216,
    rq_applied_spread_bps = 8, rq_inventory_imbalance_bps = 0\<rparr>"

lemma example_swap_runs: "reference_quote_exact_in example_state example_params 1000000 True = Ok example_swap"
  unfolding example_swap_def by code_simp

lemma example_valid: "params_valid example_params"
  by (simp add: params_valid_iff example_params_def)

section \<open>Properties\<close>

text \<open>
  C2: the full contract of an accepted swap, in both directions of the equivalence: the swap
  is accepted exactly when the pool is open, the size is within the limit of the quote's age,
  the price factor is positive, the output is positive and leaves the paying side non-empty
  and the inventory inside the hard band; and then every field of the result is the stated
  exact value.
\<close>

theorem reference_quote_contract:
  "reference_quote_exact_in s p a b2q = Ok q \<longleftrightarrow> swap_contract s p a b2q q"
  by (rule reference_quote_Ok)

text \<open>
  On a configured pool with liquidity, a paused quote is refused as paused, an expired
  one as stale, and an over-sized trade as protected or invalid according to the age state.
\<close>

lemma reference_quote_rejections:
  assumes valid: "params_valid p" and a: "a \<noteq> 0" and inv: "base_inventory s \<noteq> 0"
    "quote_inventory s \<noteq> 0" "target_base_inventory s \<noteq> 0"
  shows "(paused s \<longrightarrow> reference_quote_exact_in s p a b2q = Err PoolPaused)
    \<and> (\<not> paused s \<and> unat (expire_slots p) \<le> quote_age s \<longrightarrow>
        reference_quote_exact_in s p a b2q = Err StaleQuote)
    \<and> (\<not> paused s \<and> quote_age s < unat (expire_slots p) \<and> size_limit p (quote_age s) < unat a \<longrightarrow>
        reference_quote_exact_in s p a True
          = Err (if age_state_of p (quote_age s) = Protected then QuoteProtected else InvalidAmount))"
proof (intro conjI impI)
  note v = assms validate_params_eq[of p]
  show "paused s \<Longrightarrow> reference_quote_exact_in s p a b2q = Err PoolPaused"
    using v by (simp add: reference_quote_exact_in_def quote_age_state_eq)
  show "reference_quote_exact_in s p a b2q = Err StaleQuote"
    if "\<not> paused s \<and> unat (expire_slots p) \<le> quote_age s"
    using v that by (simp add: reference_quote_exact_in_def quote_age_state_eq age_state_of_def)
  assume large: "\<not> paused s \<and> quote_age s < unat (expire_slots p) \<and> size_limit p (quote_age s) < unat a"
  then have "swap_open s p a" using assms by (simp add: swap_open_def)
  note g = swap_guards[OF this]
  have "max_base_trade_for_age s p (age_state_of p (quote_age s)) < a"
    using large max_base_trade_eq[of s p] by (simp add: word_less_nat_alt)
  with g show "reference_quote_exact_in s p a True
      = Err (if age_state_of p (quote_age s) = Protected then QuoteProtected else InvalidAmount)"
    by (simp add: reference_quote_exact_in_def base_equivalent_amount_def Let_def)
qed

theorem reference_quote_rejections_witness:
  "reference_quote_exact_in (example_state\<lparr>paused := True\<rparr>) example_params 1 True = Err PoolPaused
    \<and> reference_quote_exact_in (example_state\<lparr>now_slot := 120\<rparr>) example_params 1 True = Err StaleQuote
    \<and> reference_quote_exact_in (example_state\<lparr>now_slot := 115\<rparr>) example_params 1000001 True
       = Err QuoteProtected"
proof -
  have inv: "base_inventory (example_state\<lparr>paused := b, now_slot := n\<rparr>) \<noteq> 0"
    "quote_inventory (example_state\<lparr>paused := b, now_slot := n\<rparr>) \<noteq> 0"
    "target_base_inventory (example_state\<lparr>paused := b, now_slot := n\<rparr>) \<noteq> 0" for b n
    by (simp_all add: example_state_def)
  note r = reference_quote_rejections[OF example_valid _ inv]
  show ?thesis
    using r[of 1 105 True True] r[of 1 120 False True] r[of 1000001 115 False True]
    by (simp add: example_state_def example_params_def quote_age_def size_limit_def age_state_of_def)
qed

text \<open>
  C18: an older quote is never in an earlier age state, never allows a larger trade, and never
  carries a smaller surcharge; while it is not expired its limit stays between the protected
  and the full trade size, and the surcharge never exceeds its cap.
\<close>

theorem quote_ages_monotonically:
  assumes older: "quote_age s \<le> quote_age s'"
    and st: "quote_age_state s p = Ok st" and st': "quote_age_state s' p = Ok st'"
    and run: "\<not> paused s" "\<not> paused s'"
  shows "age_rank st \<le> age_rank st'
    \<and> max_base_trade_for_age s' p st' \<le> max_base_trade_for_age s p st
    \<and> aging_surcharge_bps s p \<le> aging_surcharge_bps s' p
    \<and> aging_surcharge_bps s' p \<le> max_aging_surcharge_bps p
    \<and> (st = Expired \<or> protected_max_trade_base_atoms p \<le> max_base_trade_for_age s p st
         \<and> max_base_trade_for_age s p st \<le> max_trade_base_atoms p)"
proof -
  have valid: "params_valid p" and eq: "st = age_state_of p (quote_age s)" "st' = age_state_of p (quote_age s')"
    using st st' run by (auto simp: quote_age_state_eq split: if_splits)
  have live: "st = Expired \<or> quote_age s < unat (expire_slots p)"
    by (simp add: eq age_state_of_def)
  show ?thesis
    using age_state_mono[OF valid older] size_limit_antimono[OF valid older] live
      size_limit_bounds[OF valid, of "quote_age s"] older
    by (auto simp: eq word_le_nat_alt max_base_trade_eq aging_surcharge_eq min_le_iff_disj
        intro!: mult_le_mono1 min.mono)
qed

theorem quote_ages_monotonically_witness:
  "max_base_trade_for_age example_state example_params Aging = 312875000
    \<and> max_base_trade_for_age (example_state\<lparr>now_slot := 110\<rparr>) example_params Protected
      \<le> (312875000 :: u64)"
proof -
  have older: "quote_age example_state \<le> quote_age (example_state\<lparr>now_slot := 110\<rparr>)"
    by (simp add: quote_age_def example_state_def)
  have st: "quote_age_state example_state example_params = Ok Aging"
    "quote_age_state (example_state\<lparr>now_slot := 110\<rparr>) example_params = Ok Protected"
    by (simp_all add: quote_age_state_eq example_valid age_state_of_def quote_age_def,
        simp_all add: example_state_def example_params_def)
  have run: "\<not> paused example_state" "\<not> paused (example_state\<lparr>now_slot := 110\<rparr>)"
    by (simp_all add: example_state_def)
  have "max_base_trade_for_age example_state example_params Aging = 312875000" by code_simp
  with quote_ages_monotonically[OF older st run] show ?thesis by simp
qed

lemma swap_price_bounded:
  assumes "reference_quote_exact_in s p a b2q = Ok q"
  shows "(if b2q
     then unat (rq_amount_out q) * (10000 * 2 ^ 64)
       \<le> net_of_fee a (fee_bps p) * (unat (raw (mid_price s))
          * nat (10000 - uint (rq_applied_spread_bps q) - current_skew s p))
     else unat (rq_amount_out q) * (unat (raw (mid_price s))
          * nat (10000 + uint (rq_applied_spread_bps q) - current_skew s p) div 10000)
       \<le> net_of_fee a (fee_bps p) * 2 ^ 64)
    \<and> \<bar>current_skew s p\<bar> \<le> uint (max_inventory_skew_bps p)"
proof -
  note c = swap_contractD[OF assms]
  show ?thesis
    using c current_skew_cap[of s p] floor_sell_le[of "net_of_fee a (fee_bps p)" "unat (raw (mid_price s))"
        "nat (factor_bps (applied_spread s p) (current_skew s p) True)" 10000 "2 ^ 64"]
    by (auto simp: swap_contract_def fill_amounts_def factor_spread)
qed

text \<open>
  Buying at a floored price: each base atom may cost up to one unit of the price, a \<open>2 ^ 64\<close>th of a
  quote atom, less than the exact price, so a whole purchase less than one quote atom.
\<close>

lemma floor_buy_slack:
  fixes n m f d e :: nat
  assumes "0 < d" and "out * (m * f div d) \<le> n * e"
  shows "out * (m * f) \<le> n * (d * e) + (d - 1) * out"
proof -
  have "m * f mod d \<le> d - 1" using mod_less_divisor[OF assms(1), of "m * f"] by linarith
  then have "m * f \<le> m * f div d * d + (d - 1)"
    using div_mult_mod_eq[of "m * f" d] by linarith
  then have "out * (m * f) \<le> out * (m * f div d * d + (d - 1))" by (rule mult_le_mono2)
  also have "\<dots> = out * (m * f div d) * d + (d - 1) * out" by (simp add: algebra_simps)
  also have "\<dots> \<le> n * e * d + (d - 1) * out" using mult_le_mono1[OF assms(2), of d] by simp
  finally show ?thesis by (simp add: ac_simps)
qed

lemma buy_slack_below_one:
  fixes out :: u64
  assumes "x \<le> n * (10000 * 2 ^ 64) + 9999 * unat out"
  shows "x < (n + 1) * (10000 * 2 ^ 64)"
proof -
  have "9999 * unat out < 10000 * 2 ^ 64" using u64_bound[of out] by simp
  with assms show ?thesis unfolding distrib_right by linarith
qed

text \<open>
  C6: a sale never pays more than the mid less the spread and the skew, exactly; a purchase costs at
  least the mid plus the spread less the skew, but for the price being rounded down, which is worth
  less than one quote atom over the whole purchase; and the skew is at most its cap.
\<close>

theorem swap_price_bound:
  assumes "reference_quote_exact_in s p a b2q = Ok q"
  shows "(if b2q
     then unat (rq_amount_out q) * (10000 * 2 ^ 64)
       \<le> net_of_fee a (fee_bps p) * (unat (raw (mid_price s))
          * nat (10000 - uint (rq_applied_spread_bps q) - current_skew s p))
     else unat (rq_amount_out q) * (unat (raw (mid_price s))
          * nat (10000 + uint (rq_applied_spread_bps q) - current_skew s p))
       < (net_of_fee a (fee_bps p) + 1) * (10000 * 2 ^ 64))
    \<and> \<bar>current_skew s p\<bar> \<le> uint (max_inventory_skew_bps p)"
proof (cases b2q)
  case True
  with swap_price_bounded[OF assms] show ?thesis by simp
next
  case False
  let ?f = "nat (10000 + uint (rq_applied_spread_bps q) - current_skew s p)"
  from False swap_price_bounded[OF assms]
  have "unat (rq_amount_out q) * (unat (raw (mid_price s)) * ?f div 10000) \<le> net_of_fee a (fee_bps p) * 2 ^ 64"
    by simp
  then have "unat (rq_amount_out q) * (unat (raw (mid_price s)) * ?f)
      \<le> net_of_fee a (fee_bps p) * (10000 * 2 ^ 64) + (10000 - 1) * unat (rq_amount_out q)"
    by (intro floor_buy_slack) simp
  then have "unat (rq_amount_out q) * (unat (raw (mid_price s)) * ?f) < (net_of_fee a (fee_bps p) + 1) * (10000 * 2 ^ 64)"
    by (intro buy_slack_below_one) simp
  with False swap_price_bounded[OF assms] show ?thesis by simp
qed

theorem swap_price_bound_witness:
  "29976000000 * (10000 * 2 ^ 64) \<le> net_of_fee 1000000 0 * (553402322211286548480000 * 9992)"
proof -
  have "current_skew example_state example_params = 0" by code_simp
  then show ?thesis
    using swap_price_bound[OF example_swap_runs]
    by (simp add: example_swap_def) (simp add: example_state_def example_params_def)
qed

text \<open>
  C7: after every accepted swap the base inventory is inside the hard band around its target,
  as an exact bound on the inventory (whatever it was before), neither side is empty, and
  exactly the amounts paid in and out have moved.
\<close>

theorem swap_keeps_band_and_balances:
  assumes "reference_quote_exact_in s p a b2q = Ok q"
  shows "within_band p (rq_new_base_inventory q) (target_base_inventory s)
    \<and> 0 < unat (rq_new_base_inventory q) \<and> 0 < unat (rq_new_quote_inventory q)
    \<and> 0 < unat (rq_amount_out q)
    \<and> (if b2q
       then unat (rq_new_base_inventory q) = unat (base_inventory s) + unat a
          \<and> unat (rq_new_quote_inventory q) + unat (rq_amount_out q) = unat (quote_inventory s)
       else unat (rq_new_base_inventory q) + unat (rq_amount_out q) = unat (base_inventory s)
          \<and> unat (rq_new_quote_inventory q) = unat (quote_inventory s) + unat a)"
proof -
  have "fill_amounts s a (rq_amount_in_less_fee q) (rq_effective_price q) b2q
      (rq_amount_out q) (rq_new_base_inventory q) (rq_new_quote_inventory q)"
    and "within_band p (rq_new_base_inventory q) (target_base_inventory s)"
    and "0 < unat (base_inventory s)" "0 < unat (quote_inventory s)"
    using swap_contractD[OF assms] by (simp_all add: swap_contract_def swap_open_def unat_gt_0)
  then show ?thesis
    by (cases b2q) (simp_all add: fill_amounts_def unat_gt_0[symmetric] del: unat_gt_0)
qed

theorem swap_keeps_band_and_balances_witness:
  "within_band example_params 1001000000 1000000000
    \<and> unat (rq_new_quote_inventory example_swap) + unat (rq_amount_out example_swap) = 30000000000000"
  using swap_keeps_band_and_balances[OF example_swap_runs]
  by (simp add: example_swap_def) (simp add: example_state_def)

text \<open>
  C19: while the inventory skew moves by at most twice the spread, a swap followed by the
  opposite swap of its whole output, in the same state of the quote, returns at most the
  original input.
\<close>

theorem reference_no_round_trip_profit:
  assumes fwd: "reference_quote_exact_in s p a b2q = Ok q"
    and undo: "reference_quote_exact_in (after_swap s q) p (rq_amount_out q) (\<not> b2q) = Ok q'"
    and skew: "\<bar>current_skew s p - current_skew (after_swap s q) p\<bar> \<le> 2 * uint (rq_applied_spread_bps q)"
  shows "rq_amount_out q' \<le> a"
proof -
  let ?m = "unat (raw (mid_price s))" and ?k = "current_skew s p" and ?k' = "current_skew (after_swap s q) p"
  note c = swap_contractD[OF fwd] and c' = swap_contractD[OF undo]
  have sp: "rq_applied_spread_bps q = applied_spread s p" using c by (simp add: swap_contract_def)
  note factors = skew_round_trip_factor[OF skew, unfolded sp]
  note net = net_of_fee_le[of a "fee_bps p"] net_of_fee_le[of "rq_amount_out q" "fee_bps p"]
  show ?thesis
  proof (cases b2q)
    case True
    let ?p = "?m * nat (factor_bps (applied_spread s p) ?k True) div 10000"
    let ?p' = "?m * nat (factor_bps (applied_spread s p) ?k' False) div 10000"
    have out: "unat (rq_amount_out q) = net_of_fee a (fee_bps p) * ?p div 2 ^ 64"
      using c True by (simp add: swap_contract_def fill_amounts_def)
    have out': "unat (rq_amount_out q') = net_of_fee (rq_amount_out q) (fee_bps p) * 2 ^ 64 div ?p'"
      and pos: "0 < ?p'"
      using c' True by (simp_all add: swap_contract_def fill_amounts_def unat_gt_0[symmetric] del: unat_gt_0)
    from round_trip_sell_buy[OF net(1) out net(2) scaled_price_mono[OF factors(1)] pos] show ?thesis
      unfolding word_le_nat_alt out' by simp
  next
    case False
    let ?p = "?m * nat (factor_bps (applied_spread s p) ?k False) div 10000"
    let ?p' = "?m * nat (factor_bps (applied_spread s p) ?k' True) div 10000"
    have out: "unat (rq_amount_out q) = net_of_fee a (fee_bps p) * 2 ^ 64 div ?p" and pos: "0 < ?p"
      using c False by (simp_all add: swap_contract_def fill_amounts_def unat_gt_0[symmetric] del: unat_gt_0)
    have out': "unat (rq_amount_out q') = net_of_fee (rq_amount_out q) (fee_bps p) * ?p' div 2 ^ 64"
      using c' False by (simp add: swap_contract_def fill_amounts_def)
    from round_trip_buy_sell[OF net(1) out net(2) scaled_price_mono[OF factors(2)] pos] show ?thesis
      unfolding word_le_nat_alt out' by simp
  qed
qed
theorem reference_no_round_trip_profit_witness:
  "\<exists>q'. reference_quote_exact_in (after_swap example_state example_swap) example_params 29976000000 False
      = Ok q' \<and> rq_amount_out q' \<le> 1000000"
proof -
  let ?q' = "\<lparr>rq_age_state = Aging, rq_amount_in_less_fee = 29976000000, rq_amount_out = 998401,
    rq_new_base_inventory = 1000001599, rq_new_quote_inventory = 30000000000000,
    rq_effective_price = Q64x64 553845044069055577718784,
    rq_applied_spread_bps = 8, rq_inventory_imbalance_bps = 10\<rparr>"
  have undo: "reference_quote_exact_in (after_swap example_state example_swap) example_params
      (rq_amount_out example_swap) (\<not> True) = Ok ?q'"
    by code_simp
  have skew: "\<bar>current_skew example_state example_params
      - current_skew (after_swap example_state example_swap) example_params\<bar>
      \<le> 2 * uint (rq_applied_spread_bps example_swap)"
    by code_simp
  from reference_no_round_trip_profit[OF example_swap_runs undo skew] undo show ?thesis
    by (simp add: example_swap_def)
qed

text \<open>
  Without that bound the maker can lose: with an accepted parameter set, one taker sells
  base and at once buys it back in the same slot with more than it started from, because each
  swap is priced at the skew of the inventory before it.
\<close>

lemma skew_round_trip_can_profit:
  "\<exists>q q'. params_valid example_params
    \<and> reference_quote_exact_in example_state example_params 200000000 True = Ok q
    \<and> reference_quote_exact_in (after_swap example_state q) example_params (rq_amount_out q) False = Ok q'
    \<and> rq_new_quote_inventory q' = quote_inventory example_state
    \<and> 200000000 < rq_amount_out q'"
proof -
  let ?q = "\<lparr>rq_age_state = Aging, rq_amount_in_less_fee = 200000000,
    rq_amount_out = 5995200000000, rq_new_base_inventory = 1200000000,
    rq_new_quote_inventory = 24004800000000,
    rq_effective_price = Q64x64 552959600353517519241216,
    rq_applied_spread_bps = 8, rq_inventory_imbalance_bps = 0\<rparr>"
  let ?q' = "\<lparr>rq_age_state = Aging, rq_amount_in_less_fee = 5995200000000,
    rq_amount_out = 200481540, rq_new_base_inventory = 999518460,
    rq_new_quote_inventory = 30000000000000,
    rq_effective_price = Q64x64 551631434780210431524864,
    rq_applied_spread_bps = 8, rq_inventory_imbalance_bps = 2000\<rparr>"
  have "reference_quote_exact_in example_state example_params 200000000 True = Ok ?q" by code_simp
  moreover have "reference_quote_exact_in (after_swap example_state ?q) example_params
      (rq_amount_out ?q) False = Ok ?q'" by code_simp
  moreover have "rq_new_quote_inventory ?q' = quote_inventory example_state"
    by (simp add: example_state_def)
  ultimately show ?thesis using example_valid
    by (intro exI[of _ ?q] exI[of _ ?q']) simp
qed

end
