(* ===== verification/Piecewise.thy ===== *)
theory Piecewise imports Fixed begin

text \<open>
  The piecewise-linear book side of \<open>crates/meta_amm_math/src/piecewise.rs\<close>: seven ascending
  prices over six equal segments of base quantity, walked by a buy (low to high) or a sell
  (high to low) and replenished after fills.  The Rust functions mutate the side through a
  reference even when they return an error, so the model returns the side and the result.
\<close>

section \<open>Data\<close>

definition PIECEWISE_PRICE_POINT_COUNT :: nat where "PIECEWISE_PRICE_POINT_COUNT = 7"
definition PIECEWISE_SEGMENT_COUNT :: nat where
  "PIECEWISE_SEGMENT_COUNT = PIECEWISE_PRICE_POINT_COUNT - 1"

lemma SEGMENT_COUNT_eq [simp]: "PIECEWISE_SEGMENT_COUNT = 6"
  and POINT_COUNT_eq [simp]: "PIECEWISE_PRICE_POINT_COUNT = 7"
  by (simp_all add: PIECEWISE_SEGMENT_COUNT_def PIECEWISE_PRICE_POINT_COUNT_def)

datatype post_fill_policy = NoPostFill | HealThenAdd | ProportionalScale | DepthProportional

record piecewise_book_side =
  prices :: "q64x64 list"
  total_quantity :: u64
  consumed_quantity :: u64

record piecewise_quote =
  pq_amount_in_used :: u64
  pq_amount_out :: u64
  pq_new_consumed_quantity :: u64
  pq_segments_crossed :: u8

definition side_validate :: "piecewise_book_side \<Rightarrow> math_error + unit" where
  "side_validate side =
    (if total_quantity side < of_nat PIECEWISE_SEGMENT_COUNT
        \<or> total_quantity side < consumed_quantity side then Err InvalidConfig
     else if raw (prices side ! 0) = 0 then Err InvalidConfig
     else if \<not> list_all (\<lambda>index. raw (prices side ! (index - 1)) < raw (prices side ! index))
            [1..<PIECEWISE_PRICE_POINT_COUNT] then Err InvalidConfig
     else Ok ())"

definition side_new :: "q64x64 list \<Rightarrow> u64 \<Rightarrow> math_error + piecewise_book_side" where
  "side_new ps tot =
    (let side = \<lparr>prices = ps, total_quantity = tot, consumed_quantity = 0\<rparr>
     in and_then (side_validate side) (\<lambda>_. Ok side))"

definition remaining_quantity :: "piecewise_book_side \<Rightarrow> u64" where
  "remaining_quantity side = saturating_sub (total_quantity side) (consumed_quantity side)"

section \<open>Segments and prices\<close>

definition segment_start :: "u64 \<Rightarrow> nat \<Rightarrow> u64" where
  "segment_start tot segment =
    ucast (as_u128 tot * of_nat segment div of_nat PIECEWISE_SEGMENT_COUNT)"

definition segment_end :: "u64 \<Rightarrow> nat \<Rightarrow> u64" where
  "segment_end tot segment =
    (if segment = PIECEWISE_SEGMENT_COUNT - 1 then tot
     else ucast (as_u128 tot * of_nat (segment + 1) div of_nat PIECEWISE_SEGMENT_COUNT))"

text \<open>\<open>for segment in 0..6\<close> with an early return\<close>

fun first_segment :: "nat list \<Rightarrow> piecewise_book_side \<Rightarrow> nat" where
  "first_segment [] side = PIECEWISE_SEGMENT_COUNT - 1"
| "first_segment (segment # rest) side =
    (if consumed_quantity side < segment_end (total_quantity side) segment then segment
     else first_segment rest side)"

definition segment_from_consumed :: "piecewise_book_side \<Rightarrow> nat" where
  "segment_from_consumed side =
    (if total_quantity side \<le> consumed_quantity side then PIECEWISE_SEGMENT_COUNT - 1
     else first_segment [0..<PIECEWISE_SEGMENT_COUNT] side)"

definition interpolate_price :: "q64x64 \<Rightarrow> q64x64 \<Rightarrow> u64 \<Rightarrow> u64 \<Rightarrow> math_error + q64x64" where
  "interpolate_price start stop offset segment_quantity =
    (if segment_quantity = 0 then Err InvalidConfig
     else if offset = 0 then Ok start
     else if start \<le> stop then
       and_then (ok_or Underflow (checked_sub (raw stop) (raw start))) (\<lambda>delta.
       and_then (mul_div_floor delta (as_u128 offset) (as_u128 segment_quantity)) (\<lambda>part.
       map_ok Q64x64 (ok_or Overflow (checked_add (raw start) part))))
     else
       and_then (ok_or Underflow (checked_sub (raw start) (raw stop))) (\<lambda>delta.
       and_then (mul_div_floor delta (as_u128 offset) (as_u128 segment_quantity)) (\<lambda>part.
       map_ok Q64x64 (ok_or Underflow (checked_sub (raw start) part)))))"

definition ask_price_at_offset :: "piecewise_book_side \<Rightarrow> nat \<Rightarrow> u64 \<Rightarrow> math_error + q64x64" where
  "ask_price_at_offset side segment offset =
    interpolate_price (prices side ! segment) (prices side ! (segment + 1)) offset
      (segment_end (total_quantity side) segment - segment_start (total_quantity side) segment)"

definition bid_price_at_offset :: "piecewise_book_side \<Rightarrow> nat \<Rightarrow> u64 \<Rightarrow> math_error + q64x64" where
  "bid_price_at_offset side actual_segment offset =
    interpolate_price (prices side ! (actual_segment + 1)) (prices side ! actual_segment) offset
      (segment_end (total_quantity side) (PIECEWISE_SEGMENT_COUNT - 1 - actual_segment)
       - segment_start (total_quantity side) (PIECEWISE_SEGMENT_COUNT - 1 - actual_segment))"

definition linear_quote_amount :: "q64x64 \<Rightarrow> q64x64 \<Rightarrow> u64 \<Rightarrow> math_error + u64" where
  "linear_quote_amount start_price end_price base_quantity =
    (if base_quantity = 0 then Ok 0
     else and_then (ok_or Overflow (checked_add (raw start_price) (raw end_price)))
       (\<lambda>tot. mul_amount_floor (Q64x64 (tot div 2)) base_quantity))"

text \<open>The cost of the next \<open>take\<close> atoms of a segment from \<open>offset\<close> on.\<close>

definition take_cost :: "piecewise_book_side \<Rightarrow> nat \<Rightarrow> u64 \<Rightarrow> bool \<Rightarrow> u64 \<Rightarrow> math_error + u64" where
  "take_cost side segment offset ask_side base_take =
    and_then (if ask_side then ask_price_at_offset side segment offset
              else bid_price_at_offset side segment offset) (\<lambda>start_price.
    and_then (if ask_side then ask_price_at_offset side segment (saturating_add offset base_take)
              else bid_price_at_offset side segment (saturating_add offset base_take)) (\<lambda>end_price.
    linear_quote_amount start_price end_price base_take))"

text \<open>The binary search; \<open>(high - low).div_ceil(2)\<close> is \<open>(high - low + 1) / 2\<close>.\<close>

definition div_ceil_2 :: "u64 \<Rightarrow> u64" where
  "div_ceil_2 x = x div 2 + x mod 2"

lemma unat_div_ceil_2: "unat (div_ceil_2 x) = (unat x + 1) div 2"
proof -
  have "unat x div 2 + unat x mod 2 = (unat x + 1) div 2" by presburger
  moreover have "unat x div 2 + unat x mod 2 < 2 ^ 64" using u64_bound[of x] by simp
  ultimately show ?thesis
    by (simp add: div_ceil_2_def unat_add_fits unat_mod)
qed

function max_base_search ::
    "piecewise_book_side \<Rightarrow> nat \<Rightarrow> u64 \<Rightarrow> u64 \<Rightarrow> bool \<Rightarrow> u64 \<Rightarrow> u64 \<Rightarrow> math_error + u64" where
  "max_base_search side segment offset quote_available ask_side low high =
    (if low < high then
       let mid = low + div_ceil_2 (high - low)
       in and_then (take_cost side segment offset ask_side mid) (\<lambda>cost.
          if 0 < cost \<and> cost \<le> quote_available
          then max_base_search side segment offset quote_available ask_side mid high
          else max_base_search side segment offset quote_available ask_side low (mid - 1))
     else Ok low)"
  by pat_completeness auto

lemma search_mid:
  assumes "low < (high :: u64)"
  shows "unat (low + div_ceil_2 (high - low)) = unat low + (unat high - unat low + 1) div 2"
    and "low < low + div_ceil_2 (high - low)" "low + div_ceil_2 (high - low) \<le> high"
    and "unat (low + div_ceil_2 (high - low) - 1) = unat low + (unat high - unat low + 1) div 2 - 1"
proof -
  have l: "unat low < unat high" using assms by (simp add: word_less_nat_alt)
  have d: "unat (div_ceil_2 (high - low)) = (unat high - unat low + 1) div 2"
    using assms by (simp add: unat_div_ceil_2 unat_sub_le)
  have "unat low + (unat high - unat low + 1) div 2 \<le> unat high" using l by linarith
  then show m: "unat (low + div_ceil_2 (high - low)) = unat low + (unat high - unat low + 1) div 2"
    using u64_bound[of high] d by (simp add: unat_add_fits)
  show "low < low + div_ceil_2 (high - low)" "low + div_ceil_2 (high - low) \<le> high"
    unfolding word_less_nat_alt word_le_nat_alt m using l by linarith+
  then have "1 \<le> low + div_ceil_2 (high - low)"
    unfolding word_le_nat_alt word_less_nat_alt by simp
  then show "unat (low + div_ceil_2 (high - low) - 1) = unat low + (unat high - unat low + 1) div 2 - 1"
    by (simp add: unat_sub_le m)
qed

termination max_base_search
proof (relation "measure (\<lambda>(_, _, _, _, _, low, high). unat high - unat low)", goal_cases)
  case 1
  show ?case by simp
next
  case (2 side segment offset quote_available ask_side low high mid cost)
  then show ?case using search_mid[of low high] by (simp add: word_less_nat_alt)
next
  case (3 side segment offset quote_available ask_side low high mid cost)
  then show ?case using search_mid[of low high] by (simp add: word_less_nat_alt)
qed

declare max_base_search.simps [simp del]

definition max_base_for_quote ::
    "piecewise_book_side \<Rightarrow> nat \<Rightarrow> u64 \<Rightarrow> u64 \<Rightarrow> u64 \<Rightarrow> bool \<Rightarrow> math_error + u64" where
  "max_base_for_quote side segment offset capacity quote_available ask_side =
    max_base_search side segment offset quote_available ask_side 0 capacity"

section \<open>Buying\<close>

text \<open>
  The body of the buy loop up to the first \<open>cost == 0\<close> test: \<^const>\<open>None\<close> is its \<open>break\<close>, otherwise
  the base taken and its cost.
\<close>

definition buy_take :: "piecewise_book_side \<Rightarrow> u64 \<Rightarrow> math_error + (u64 \<times> u64) option" where
  "buy_take ask quote_remaining =
    (let segment = segment_from_consumed ask;
         start = segment_start (total_quantity ask) segment;
         stop = segment_end (total_quantity ask) segment;
         offset = saturating_sub (consumed_quantity ask) start;
         remaining_in_segment = saturating_sub stop (consumed_quantity ask)
     in if remaining_in_segment = 0 then Err InvalidConfig
     else
       and_then (ask_price_at_offset ask segment offset) (\<lambda>start_price.
       and_then (ask_price_at_offset ask segment (saturating_add offset remaining_in_segment))
         (\<lambda>full_end_price.
       and_then (linear_quote_amount start_price full_end_price remaining_in_segment) (\<lambda>full_cost.
       if 0 < full_cost \<and> full_cost \<le> quote_remaining
       then Ok (Some (remaining_in_segment, full_cost))
       else
         and_then (max_base_for_quote ask segment offset remaining_in_segment quote_remaining True)
           (\<lambda>base_take.
         if base_take = 0 then Ok None
         else
           and_then (ask_price_at_offset ask segment (saturating_add offset base_take)) (\<lambda>end_price.
           map_ok (\<lambda>cost. if cost = 0 then None else Some (base_take, cost))
             (linear_quote_amount start_price end_price base_take)))))))"

record walk =
  w_remaining :: u64
  w_in :: u64
  w_out :: u64
  w_segments :: u8

text \<open>
  The state updates of one iteration, in the order of the code: the side is written before the
  later checks, so an error leaves it written.
\<close>

definition buy_apply ::
    "piecewise_book_side \<Rightarrow> walk \<Rightarrow> u64 \<Rightarrow> u64 \<Rightarrow> piecewise_book_side \<times> (math_error + walk)" where
  "buy_apply ask w base_take cost =
    (case checked_add (consumed_quantity ask) base_take of
       None \<Rightarrow> (ask, Err Overflow)
     | Some consumed \<Rightarrow>
        (ask\<lparr>consumed_quantity := consumed\<rparr>,
         and_then (ok_or Underflow (checked_sub (w_remaining w) cost)) (\<lambda>remaining.
         and_then (ok_or Overflow (checked_add (w_in w) cost)) (\<lambda>used.
         and_then (ok_or Overflow (checked_add (w_out w) base_take)) (\<lambda>out.
         Ok \<lparr>w_remaining = remaining, w_in = used, w_out = out,
             w_segments = saturating_add (w_segments w) 1\<rparr>)))))"

lemma buy_apply_remaining:
  "buy_apply ask w base_take cost = (ask', Ok w') \<Longrightarrow> unat (w_remaining w') + unat cost = unat (w_remaining w)"
  by (auto simp: buy_apply_def result_simps checked_sub_eq_Some split: option.splits)

lemma buy_take_positive: "buy_take ask n = Ok (Some (t, c)) \<Longrightarrow> 0 < unat t \<and> 0 < unat c"
  by (auto simp: buy_take_def result_simps Let_def unat_gt_0 split: if_splits)

function buy_loop :: "piecewise_book_side \<Rightarrow> walk \<Rightarrow> piecewise_book_side \<times> (math_error + walk)" where
  "buy_loop ask w =
    (if 0 < w_remaining w \<and> 0 < remaining_quantity ask then
       (case buy_take ask (w_remaining w) of
          Err e \<Rightarrow> (ask, Err e)
        | Ok None \<Rightarrow> (ask, Ok w)
        | Ok (Some (base_take, cost)) \<Rightarrow>
            (case buy_apply ask w base_take cost of
               (ask', Err e) \<Rightarrow> (ask', Err e)
             | (ask', Ok w') \<Rightarrow> buy_loop ask' w'))
     else (ask, Ok w))"
  by pat_completeness auto

termination buy_loop
  by (relation "measure (\<lambda>(_, w). unat (w_remaining w))")
    (auto dest!: buy_apply_remaining[OF sym] buy_take_positive)

declare buy_loop.simps [simp del]

definition buy_base_with_quote ::
    "piecewise_book_side \<Rightarrow> u64 \<Rightarrow> piecewise_book_side \<times> (math_error + piecewise_quote)" where
  "buy_base_with_quote ask quote_amount_in =
    (case side_validate ask of Err e \<Rightarrow> (ask, Err e) | Ok _ \<Rightarrow>
     if quote_amount_in = 0 \<or> remaining_quantity ask = 0 then (ask, Err InvalidAmount)
     else
       (case buy_loop ask \<lparr>w_remaining = quote_amount_in, w_in = 0, w_out = 0, w_segments = 0\<rparr> of
          (ask', Err e) \<Rightarrow> (ask', Err e)
        | (ask', Ok w) \<Rightarrow>
            (ask', if w_out w = 0 \<or> 0 < w_remaining w then Err InvalidAmount
                   else Ok \<lparr>pq_amount_in_used = w_in w, pq_amount_out = w_out w,
                            pq_new_consumed_quantity = consumed_quantity ask',
                            pq_segments_crossed = w_segments w\<rparr>)))"

section \<open>Selling\<close>

definition sell_take :: "piecewise_book_side \<Rightarrow> u64 \<Rightarrow> math_error + (u64 \<times> u64)" where
  "sell_take bid base_remaining =
    (let segment_from_best = segment_from_consumed bid;
         actual_segment = PIECEWISE_SEGMENT_COUNT - 1 - segment_from_best;
         start = segment_start (total_quantity bid) segment_from_best;
         stop = segment_end (total_quantity bid) segment_from_best;
         offset = saturating_sub (consumed_quantity bid) start;
         remaining_in_segment = saturating_sub stop (consumed_quantity bid)
     in if remaining_in_segment = 0 then Err InvalidConfig
     else
       let base_take = min base_remaining remaining_in_segment
       in and_then (bid_price_at_offset bid actual_segment offset) (\<lambda>start_price.
          and_then (bid_price_at_offset bid actual_segment (saturating_add offset base_take))
            (\<lambda>end_price.
          and_then (linear_quote_amount start_price end_price base_take) (\<lambda>segment_quote_out.
          if segment_quote_out = 0 then Err InvalidAmount
          else Ok (base_take, segment_quote_out)))))"

definition sell_apply ::
    "piecewise_book_side \<Rightarrow> walk \<Rightarrow> u64 \<Rightarrow> u64 \<Rightarrow> piecewise_book_side \<times> (math_error + walk)" where
  "sell_apply bid w base_take segment_quote_out =
    (case checked_add (consumed_quantity bid) base_take of
       None \<Rightarrow> (bid, Err Overflow)
     | Some consumed \<Rightarrow>
        (bid\<lparr>consumed_quantity := consumed\<rparr>,
         and_then (ok_or Underflow (checked_sub (w_remaining w) base_take)) (\<lambda>remaining.
         and_then (ok_or Overflow (checked_add (w_out w) segment_quote_out)) (\<lambda>out.
         Ok \<lparr>w_remaining = remaining, w_in = w_in w, w_out = out,
             w_segments = saturating_add (w_segments w) 1\<rparr>))))"

lemma sell_apply_remaining:
  "sell_apply bid w t c = (bid', Ok w') \<Longrightarrow> unat (w_remaining w') + unat t = unat (w_remaining w)"
  by (auto simp: sell_apply_def result_simps checked_sub_eq_Some split: option.splits)

lemma sell_take_positive: "sell_take bid n = Ok (t, c) \<Longrightarrow> 0 < n \<Longrightarrow> 0 < unat t"
  by (auto simp: sell_take_def result_simps Let_def unat_gt_0 word_gt_0 min_def split: if_splits)

function sell_loop :: "piecewise_book_side \<Rightarrow> walk \<Rightarrow> piecewise_book_side \<times> (math_error + walk)" where
  "sell_loop bid w =
    (if 0 < w_remaining w then
       (case sell_take bid (w_remaining w) of
          Err e \<Rightarrow> (bid, Err e)
        | Ok (base_take, segment_quote_out) \<Rightarrow>
            (case sell_apply bid w base_take segment_quote_out of
               (bid', Err e) \<Rightarrow> (bid', Err e)
             | (bid', Ok w') \<Rightarrow> sell_loop bid' w'))
     else (bid, Ok w))"
  by pat_completeness auto

termination sell_loop
  by (relation "measure (\<lambda>(_, w). unat (w_remaining w))")
    (auto dest!: sell_apply_remaining[OF sym] sell_take_positive)

declare sell_loop.simps [simp del]

definition sell_base_for_quote ::
    "piecewise_book_side \<Rightarrow> u64 \<Rightarrow> piecewise_book_side \<times> (math_error + piecewise_quote)" where
  "sell_base_for_quote bid base_amount_in =
    (case side_validate bid of Err e \<Rightarrow> (bid, Err e) | Ok _ \<Rightarrow>
     if base_amount_in = 0 \<or> remaining_quantity bid = 0 \<or> remaining_quantity bid < base_amount_in
     then (bid, Err InvalidAmount)
     else
       (case sell_loop bid \<lparr>w_remaining = base_amount_in, w_in = 0, w_out = 0, w_segments = 0\<rparr> of
          (bid', Err e) \<Rightarrow> (bid', Err e)
        | (bid', Ok w) \<Rightarrow>
            (bid', Ok \<lparr>pq_amount_in_used = base_amount_in, pq_amount_out = w_out w,
                      pq_new_consumed_quantity = consumed_quantity bid',
                      pq_segments_crossed = w_segments w\<rparr>)))"

section \<open>Replenishing\<close>

definition heal_then_add :: "piecewise_book_side \<Rightarrow> u64 \<Rightarrow> piecewise_book_side \<times> (math_error + unit)" where
  "heal_then_add side quantity =
    (if quantity \<le> consumed_quantity side then
       let side = side\<lparr>consumed_quantity := consumed_quantity side - quantity\<rparr>
       in (side, side_validate side)
     else
       let add_quantity = quantity - consumed_quantity side;
           side = side\<lparr>consumed_quantity := 0\<rparr>
       in (case checked_add (total_quantity side) add_quantity of
             None \<Rightarrow> (side, Err Overflow)
           | Some tot \<Rightarrow> let side = side\<lparr>total_quantity := tot\<rparr> in (side, side_validate side)))"

definition proportional_scale ::
    "piecewise_book_side \<Rightarrow> u64 \<Rightarrow> piecewise_book_side \<times> (math_error + unit)" where
  "proportional_scale side replenishment =
    (let old_total = total_quantity side
     in case checked_add old_total replenishment of
          None \<Rightarrow> (side, Err Overflow)
        | Some new_total \<Rightarrow>
           (case mul_div_floor (as_u128 (consumed_quantity side)) (as_u128 new_total) (as_u128 old_total) of
              Err e \<Rightarrow> (side, Err e)
            | Ok new_consumed \<Rightarrow>
               let side = side\<lparr>total_quantity := new_total\<rparr>
               in (case u64_try_from new_consumed of
                     None \<Rightarrow> (side, Err Overflow)
                   | Some c \<Rightarrow> let side = side\<lparr>consumed_quantity := c\<rparr> in (side, side_validate side))))"

definition depth_proportional ::
    "piecewise_book_side \<Rightarrow> u64 \<Rightarrow> u8 \<Rightarrow> piecewise_book_side \<times> (math_error + unit)" where
  "depth_proportional side replenishment segments_crossed =
    (let depth = ucast (min segments_crossed (of_nat PIECEWISE_SEGMENT_COUNT)) :: u128;
         add_quantity = ucast (as_u128 replenishment * depth div of_nat PIECEWISE_SEGMENT_COUNT) :: u64
     in case checked_sub replenishment add_quantity of
          None \<Rightarrow> (side, Err Underflow)
        | Some heal_quantity \<Rightarrow>
           (case heal_then_add side heal_quantity of
              (side, Err e) \<Rightarrow> (side, Err e)
            | (side, Ok _) \<Rightarrow>
               (case checked_add (total_quantity side) add_quantity of
                  None \<Rightarrow> (side, Err Overflow)
                | Some tot \<Rightarrow> let side = side\<lparr>total_quantity := tot\<rparr> in (side, side_validate side))))"

definition apply_post_fill_to_side ::
    "piecewise_book_side \<Rightarrow> u64 \<Rightarrow> post_fill_policy \<Rightarrow> u8 \<Rightarrow> piecewise_book_side \<times> (math_error + unit)" where
  "apply_post_fill_to_side side replenishment policy segments_crossed =
    (case side_validate side of Err e \<Rightarrow> (side, Err e) | Ok _ \<Rightarrow>
     if replenishment = 0 \<or> policy = NoPostFill then (side, Ok ())
     else (case policy of
             NoPostFill \<Rightarrow> (side, Ok ())
           | HealThenAdd \<Rightarrow> heal_then_add side replenishment
           | ProportionalScale \<Rightarrow> proportional_scale side replenishment
           | DepthProportional \<Rightarrow> depth_proportional side replenishment segments_crossed))"

section \<open>Well-formed sides and their segments\<close>

text \<open>\<open>[Q64x64; 7]\<close> is a list of length seven.\<close>

definition side_wf :: "piecewise_book_side \<Rightarrow> bool" where
  "side_wf side \<longleftrightarrow> length (prices side) = PIECEWISE_PRICE_POINT_COUNT"

definition side_valid :: "piecewise_book_side \<Rightarrow> bool" where
  "side_valid side \<longleftrightarrow> side_validate side = Ok ()"

lemma side_valid_iff:
  "side_valid side \<longleftrightarrow> 6 \<le> total_quantity side \<and> consumed_quantity side \<le> total_quantity side
     \<and> 0 < raw (prices side ! 0)
     \<and> (\<forall>i \<in> {1..6}. raw (prices side ! (i - 1)) < raw (prices side ! i))"
proof -
  have "list_all (\<lambda>i. raw (prices side ! (i - 1)) < raw (prices side ! i)) [1..<7]
      \<longleftrightarrow> (\<forall>i \<in> {1..6}. raw (prices side ! (i - 1)) < raw (prices side ! i))"
    by (auto simp: list_all_iff)
  then show ?thesis
    by (auto simp: side_valid_def side_validate_def not_less not_le word_gt_0)
qed

lemma side_validate_eq: "side_validate side = (if side_valid side then Ok () else Err InvalidConfig)"
  by (auto simp: side_valid_def side_validate_def)

lemma price_step: "side_valid side \<Longrightarrow> i < 6 \<Longrightarrow> unat (raw (prices side ! i)) < unat (raw (prices side ! (i + 1)))"
  unfolding side_valid_iff word_less_nat_alt by (auto dest!: conjunct2 bspec[of _ _ "i + 1"])

lemma prices_mono:
  assumes "side_valid side" "i \<le> j" "j \<le> 6"
  shows "unat (raw (prices side ! i)) \<le> unat (raw (prices side ! j))"
  using assms(2,3)
proof (induction j)
  case (Suc j)
  show ?case
  proof (cases "i = Suc j")
    case False
    with Suc have "unat (raw (prices side ! i)) \<le> unat (raw (prices side ! j))" by simp
    with price_step[OF assms(1), of j] Suc.prems show ?thesis by simp
  qed simp
qed simp

definition seg_bound :: "nat \<Rightarrow> nat \<Rightarrow> nat" where "seg_bound t i = t * i div 6"

lemma unat_segment_start: "i \<le> 6 \<Longrightarrow> unat (segment_start t i) = seg_bound (unat t) i"
  unfolding segment_start_def seg_bound_def
  by (subst unat_narrow_quotient(2)) (simp_all add: unat_of_nat_fits)

lemma unat_segment_end: "i \<le> 5 \<Longrightarrow> unat (segment_end t i) = seg_bound (unat t) (i + 1)"
proof (cases "i = 5")
  case False
  assume "i \<le> 5"
  with False have "i + 1 < 6" by simp
  then show ?thesis unfolding segment_end_def seg_bound_def
    by (simp, subst unat_narrow_quotient(2)) (simp_all add: unat_of_nat_fits flip: of_nat_Suc)
qed (simp add: segment_end_def seg_bound_def)

lemma seg_bound_mono: "i \<le> j \<Longrightarrow> seg_bound t i \<le> seg_bound t j"
  by (simp add: seg_bound_def div_le_mono)

lemma seg_bound_simps [simp]: "seg_bound t 0 = 0" "seg_bound t 6 = t"
  by (simp_all add: seg_bound_def)

lemma seg_bound_step: "6 \<le> t \<Longrightarrow> seg_bound t i < seg_bound t (i + 1)"
proof -
  assume "6 \<le> t"
  then have "(t * i + 6) div 6 \<le> t * (i + 1) div 6" by (intro div_le_mono) simp
  then show ?thesis by (simp add: seg_bound_def)
qed

text \<open>The segment the walk is in: the consumed quantity lies in its half-open range.\<close>

lemma first_segment_spec:
  assumes "unat (consumed_quantity s) < unat (total_quantity s)" "n \<le> 6"
    "seg_bound (unat (total_quantity s)) n \<le> unat (consumed_quantity s)"
  shows "first_segment [n..<6] s < 6
    \<and> seg_bound (unat (total_quantity s)) (first_segment [n..<6] s) \<le> unat (consumed_quantity s)
    \<and> unat (consumed_quantity s) < seg_bound (unat (total_quantity s)) (first_segment [n..<6] s + 1)"
  using assms(2,3)
proof (induction "6 - n" arbitrary: n)
  case 0
  then have "n = 6" by simp
  with 0 assms(1) show ?case by simp
next
  case (Suc k)
  then have n: "n < 6" by simp
  then have up: "[n..<6] = n # [n + 1..<6]" by (simp add: upt_conv_Cons)
  have e: "unat (segment_end (total_quantity s) n) = seg_bound (unat (total_quantity s)) (n + 1)"
    using n by (intro unat_segment_end) simp
  show ?case
  proof (cases "consumed_quantity s < segment_end (total_quantity s) n")
    case True
    then show ?thesis using up Suc.prems n e by (simp add: word_less_nat_alt)
  next
    case False
    then have "seg_bound (unat (total_quantity s)) (n + 1) \<le> unat (consumed_quantity s)"
      by (simp add: word_less_nat_alt not_less e)
    with Suc.hyps(1)[of "n + 1"] Suc.hyps(2) n False up show ?thesis by simp
  qed
qed

lemma current_segment:
  assumes "unat (consumed_quantity s) < unat (total_quantity s)"
  defines "i \<equiv> segment_from_consumed s" and "t \<equiv> unat (total_quantity s)"
  shows "i < 6" "seg_bound t i \<le> unat (consumed_quantity s)" "unat (consumed_quantity s) < seg_bound t (i + 1)"
    "unat (segment_start (total_quantity s) i) = seg_bound t i"
    "unat (segment_end (total_quantity s) i) = seg_bound t (i + 1)"
    "seg_bound t (i + 1) \<le> t"
proof -
  have "i = first_segment [0..<6] s"
    using assms(1) by (simp add: i_def segment_from_consumed_def word_le_nat_alt)
  with first_segment_spec[OF assms(1), of 0] show *: "i < 6"
    and "seg_bound t i \<le> unat (consumed_quantity s)" "unat (consumed_quantity s) < seg_bound t (i + 1)"
    by (simp_all add: t_def)
  then show "unat (segment_start (total_quantity s) i) = seg_bound t i"
    "unat (segment_end (total_quantity s) i) = seg_bound t (i + 1)"
    by (simp_all add: unat_segment_start unat_segment_end t_def del: Suc_eq_plus1)
  from * have "seg_bound t (i + 1) \<le> seg_bound t 6" by (intro seg_bound_mono) simp
  then show "seg_bound t (i + 1) \<le> t" by simp
qed

section \<open>Interpolated prices and costs\<close>

lemma interpolate_up:
  assumes "interpolate_price a b off n = Ok p" "a \<le> b"
  shows "n \<noteq> 0"
    and "unat (raw p) = unat (raw a) + (unat (raw b) - unat (raw a)) * unat off div unat n"
  using assms
  by (auto simp: interpolate_price_def result_simps mdf.md_Ok_iff checked_add_eq_Some
      checked_sub_eq_Some q64x64_le_iff split: if_splits)

lemma interpolate_down:
  assumes "interpolate_price a b off n = Ok p" "b \<le> a"
  shows "unat (raw p) \<le> unat (raw a)"
  using assms
  by (auto simp: interpolate_price_def result_simps mdf.md_Ok_iff checked_add_eq_Some
      checked_sub_eq_Some q64x64_le_iff split: if_splits)

lemma linear_Ok:
  "linear_quote_amount a b n = Ok c \<Longrightarrow>
     unat c = unat n * ((unat (raw a) + unat (raw b)) div 2) div 2 ^ 64"
  by (auto simp: linear_quote_amount_def result_simps mul_amount_floor_Ok checked_add_eq_Some
      split: if_splits)

text \<open>Asks: prices rise with the offset, so the cost rises with the take.\<close>

lemma ask_price_value:
  assumes v: "side_valid s" "seg < 6" and ok: "ask_price_at_offset s seg off = Ok p"
  defines "n \<equiv> segment_end (total_quantity s) seg - segment_start (total_quantity s) seg"
  shows "unat (raw p) = unat (raw (prices s ! seg))
      + (unat (raw (prices s ! (seg + 1))) - unat (raw (prices s ! seg))) * unat off div unat n"
proof -
  have "prices s ! seg \<le> prices s ! (seg + 1)"
    using price_step[OF v] by (simp add: q64x64_le_iff)
  from interpolate_up(2)[OF ok[unfolded ask_price_at_offset_def] this] show ?thesis
    by (simp add: n_def)
qed

lemma ask_price_mono:
  assumes v: "side_valid s" "seg < 6"
    and "ask_price_at_offset s seg off = Ok p" "ask_price_at_offset s seg off' = Ok p'"
    and le: "unat off \<le> unat off'"
  shows "unat (raw p) \<le> unat (raw p')"
  using ask_price_value[OF v assms(3)] ask_price_value[OF v assms(4)] le
  by (simp add: div_le_mono)

lemma sat_mono: "unat x \<le> unat y \<Longrightarrow> unat (saturating_add off x) \<le> unat (saturating_add off (y :: u64))"
  by (simp add: unat_saturating_add)

lemma take_cost_mono:
  assumes v: "side_valid s" "seg < 6"
    and cx: "take_cost s seg off True x = Ok c" and cy: "take_cost s seg off True y = Ok d"
    and le: "unat x \<le> unat y"
  shows "unat c \<le> unat d"
proof -
  obtain p px where px: "ask_price_at_offset s seg off = Ok p"
      "ask_price_at_offset s seg (saturating_add off x) = Ok px" "linear_quote_amount p px x = Ok c"
    using cx by (auto simp: take_cost_def result_simps)
  obtain py where py: "ask_price_at_offset s seg (saturating_add off y) = Ok py"
      "linear_quote_amount p py y = Ok d"
    using cy px(1) by (auto simp: take_cost_def result_simps)
  have "unat (raw px) \<le> unat (raw py)"
    using ask_price_mono[OF v px(2) py(1) sat_mono[OF le]] .
  then have "unat x * ((unat (raw p) + unat (raw px)) div 2)
      \<le> unat y * ((unat (raw p) + unat (raw py)) div 2)"
    using le by (intro mult_le_mono div_le_mono) auto
  then show ?thesis
    unfolding linear_Ok[OF px(3)] linear_Ok[OF py(2)] by (rule div_le_mono)
qed

section \<open>The binary search\<close>

text \<open>
  The result is inside the range, is affordable unless it is the lower end, and the next
  amount is either out of range or refused by the test of the loop.
\<close>

definition payable :: "piecewise_book_side \<Rightarrow> nat \<Rightarrow> u64 \<Rightarrow> bool \<Rightarrow> u64 \<Rightarrow> u64 \<Rightarrow> bool" where
  "payable s seg off ask q x \<longleftrightarrow> (\<exists>c. take_cost s seg off ask x = Ok c \<and> 0 < c \<and> c \<le> q)"

definition refused :: "piecewise_book_side \<Rightarrow> nat \<Rightarrow> u64 \<Rightarrow> bool \<Rightarrow> u64 \<Rightarrow> u64 \<Rightarrow> bool" where
  "refused s seg off ask q x \<longleftrightarrow> (\<exists>c. take_cost s seg off ask x = Ok c \<and> \<not> (0 < c \<and> c \<le> q))"

lemma search_result:
  assumes "max_base_search s seg off q ask low high = Ok r" "low \<le> high"
  shows "low \<le> r \<and> r \<le> high \<and> (r = low \<or> payable s seg off ask q r)
    \<and> (r = high \<or> refused s seg off ask q (r + 1))"
  using assms
proof (induction s seg off q ask low high arbitrary: r rule: max_base_search.induct)
  case (1 s seg off q ask low high)
  show ?case
  proof (cases "low < high")
    case False
    with 1(3,4) show ?thesis by (simp add: max_base_search.simps[of _ _ _ _ _ low high])
  next
    case True
    define mid where "mid = low + div_ceil_2 (high - low)"
    note m = search_mid[OF True, folded mid_def]
    obtain c where c: "take_cost s seg off ask mid = Ok c"
      and rec: "(if 0 < c \<and> c \<le> q then max_base_search s seg off q ask mid high
                 else max_base_search s seg off q ask low (mid - 1)) = Ok r"
      using 1(3) True
      by (auto simp: max_base_search.simps[of _ _ _ _ _ low high] and_then_eq_Ok Let_def mid_def
          split: if_splits)
    show ?thesis
    proof (cases "0 < c \<and> c \<le> q")
      case ok: True
      then have "mid \<le> r \<and> r \<le> high \<and> (r = mid \<or> payable s seg off ask q r)
          \<and> (r = high \<or> refused s seg off ask q (r + 1))"
        using 1(1)[OF True mid_def c ok] rec m(3) by simp
      then show ?thesis using m(2) ok c by (auto simp: payable_def)
    next
      case no: False
      have "low \<le> mid - 1" using m(1,4) True by (simp add: word_le_nat_alt word_less_nat_alt)
      then have "low \<le> r \<and> r \<le> mid - 1 \<and> (r = low \<or> payable s seg off ask q r)
          \<and> (r = mid - 1 \<or> refused s seg off ask q (r + 1))"
        using 1(2)[OF True mid_def c no] rec no by simp
      moreover have "refused s seg off ask q mid" using c no by (auto simp: refused_def)
      moreover have "mid - 1 \<le> high"
        using m(1,3,4) unfolding word_le_nat_alt by linarith
      ultimately show ?thesis by auto
    qed
  qed
qed

lemma max_base_result:
  "max_base_for_quote s seg off cap q ask = Ok r \<Longrightarrow>
     r \<le> cap \<and> (r = 0 \<or> payable s seg off ask q r) \<and> (r = cap \<or> refused s seg off ask q (r + 1))"
  using search_result[of s seg off q ask 0 cap r] by (simp add: max_base_for_quote_def)

section \<open>One step of a walk\<close>

lemma interpolate_between:
  assumes "interpolate_price a b off n = Ok p" "unat off \<le> unat n"
  shows "unat (raw p) \<le> max (unat (raw a)) (unat (raw b))"
proof (cases "a \<le> b")
  case True
  note v = interpolate_up[OF assms(1) True]
  let ?d = "unat (raw b) - unat (raw a)"
  have "?d * unat off div unat n \<le> ?d * unat n div unat n"
    using assms(2) by (intro div_le_mono mult_le_mono2)
  also have "\<dots> = ?d" using v(1) by (simp add: unat_eq_0)
  finally show ?thesis using v(2) True by (simp add: q64x64_le_iff)
next
  case False
  then have "b \<le> a" by simp
  from interpolate_down[OF assms(1) this] show ?thesis by simp
qed

lemma linear_bound:
  assumes "linear_quote_amount a b n = Ok c" "unat (raw a) \<le> m" "unat (raw b) \<le> m"
  shows "unat c * 2 ^ 64 \<le> unat n * m"
proof -
  have "unat n * ((unat (raw a) + unat (raw b)) div 2) \<le> unat n * m"
    using assms(2,3) by (intro mult_le_mono2) simp
  moreover have "unat c * 2 ^ 64 \<le> unat n * ((unat (raw a) + unat (raw b)) div 2)"
    unfolding linear_Ok[OF assms(1)] by (rule div_mult_self_le)
  ultimately show ?thesis by (rule order_trans[rotated])
qed

lemma unat_segment_length:
  assumes "i < 6"
  shows "unat (segment_end t i - segment_start t i) = seg_bound (unat t) (i + 1) - seg_bound (unat t) i"
proof -
  have "segment_start t i \<le> segment_end t i"
    using assms seg_bound_mono[of i "i + 1" "unat t"]
    by (simp add: word_le_nat_alt unat_segment_start unat_segment_end)
  then show ?thesis using assms by (simp add: unat_sub_le unat_segment_start unat_segment_end)
qed

text \<open>Prices inside a segment never exceed the top price of the side.\<close>

lemma ask_price_le_top:
  assumes v: "side_valid s" "i < 6" and ok: "ask_price_at_offset s i off = Ok p"
    and off: "unat off \<le> seg_bound (unat (total_quantity s)) (i + 1) - seg_bound (unat (total_quantity s)) i"
  shows "unat (raw p) \<le> unat (raw (prices s ! 6))"
proof -
  have "unat (raw p) \<le> max (unat (raw (prices s ! i))) (unat (raw (prices s ! (i + 1))))"
    by (rule interpolate_between[OF ok[unfolded ask_price_at_offset_def]])
      (simp only: unat_segment_length[OF v(2)] off)
  also have "\<dots> \<le> unat (raw (prices s ! 6))" using prices_mono[OF v(1)] v(2) by simp
  finally show ?thesis .
qed

lemma bid_price_le_top:
  assumes v: "side_valid s" "i < 6" and ok: "bid_price_at_offset s (5 - i) off = Ok p"
    and off: "unat off \<le> seg_bound (unat (total_quantity s)) (i + 1) - seg_bound (unat (total_quantity s)) i"
  shows "unat (raw p) \<le> unat (raw (prices s ! 6))"
proof -
  have i: "6 - 1 - (5 - i) = i" using v(2) by simp
  have "unat (raw p) \<le> max (unat (raw (prices s ! (5 - i + 1)))) (unat (raw (prices s ! (5 - i))))"
    by (rule interpolate_between[OF ok[unfolded bid_price_at_offset_def SEGMENT_COUNT_eq]])
      (simp only: i unat_segment_length[OF v(2)] off)
  also have "\<dots> \<le> unat (raw (prices s ! 6))" using prices_mono[OF v(1)] v(2) by simp
  finally show ?thesis .
qed

lemma saturating_add_small: "unat a + unat b < 2 ^ 64 \<Longrightarrow> unat (saturating_add a b) = unat a + unat (b :: u64)"
  by (simp add: unat_saturating_add)

text \<open>The geometry of a step: where the offset lies and how much the segment still holds.\<close>

definition step_offset :: "piecewise_book_side \<Rightarrow> u64" where
  "step_offset s = saturating_sub (consumed_quantity s)
     (segment_start (total_quantity s) (segment_from_consumed s))"

definition step_room :: "piecewise_book_side \<Rightarrow> u64" where
  "step_room s = saturating_sub
     (segment_end (total_quantity s) (segment_from_consumed s)) (consumed_quantity s)"

lemma step_geometry:
  assumes "unat (consumed_quantity s) < unat (total_quantity s)" "n \<le> step_room s"
  defines "i \<equiv> segment_from_consumed s" and "t \<equiv> unat (total_quantity s)"
  shows "unat (step_room s) = seg_bound t (i + 1) - unat (consumed_quantity s)"
    and "0 < unat (step_room s)"
    and "unat (saturating_add (step_offset s) n) = unat (step_offset s) + unat n"
    and "unat (step_offset s) + unat n \<le> seg_bound t (i + 1) - seg_bound t i"
    and "unat (consumed_quantity s) + unat n \<le> seg_bound t (i + 1)"
proof -
  note c = current_segment[OF assms(1), folded i_def t_def]
  have off: "unat (step_offset s) = unat (consumed_quantity s) - seg_bound t i"
    using c by (simp add: step_offset_def i_def t_def)
  show room: "unat (step_room s) = seg_bound t (i + 1) - unat (consumed_quantity s)"
    using c by (simp add: step_room_def i_def t_def)
  with c(3) show "0 < unat (step_room s)" by simp
  have room_n: "unat n \<le> seg_bound t (i + 1) - unat (consumed_quantity s)"
    using assms(2) room by (simp add: word_le_nat_alt)
  with c(2,3) off show 1: "unat (step_offset s) + unat n \<le> seg_bound t (i + 1) - seg_bound t i"
    by linarith
  from room_n c(3) show "unat (consumed_quantity s) + unat n \<le> seg_bound t (i + 1)" by linarith
  have "seg_bound t (i + 1) < 2 ^ 64"
    using c(6) u64_bound[of "total_quantity s"] by (simp add: t_def)
  with 1 have "unat (step_offset s) + unat n < 2 ^ 64" by linarith
  then show "unat (saturating_add (step_offset s) n) = unat (step_offset s) + unat n"
    by (rule saturating_add_small)
qed

text \<open>
  What a step of a buy takes: it stays in the current segment, is positive, costs at most what
  is left of the input, and pays at most the top price per atom.
\<close>

lemma buy_take_step:
  assumes valid: "side_valid s" and left: "unat (consumed_quantity s) < unat (total_quantity s)"
    and ok: "buy_take s n = Ok (Some (t, c))"
  shows "t \<le> step_room s" "0 < unat t" "0 < unat c" "c \<le> n"
    "unat c * 2 ^ 64 \<le> unat t * unat (raw (prices s ! 6))"
proof -
  let ?i = "segment_from_consumed s"
  note cur = current_segment(1)[OF left]
  have bound: "unat c * 2 ^ 64 \<le> unat t * unat (raw (prices s ! 6))"
    if le: "t \<le> step_room s" and p: "ask_price_at_offset s ?i (step_offset s) = Ok p"
      and q: "ask_price_at_offset s ?i (saturating_add (step_offset s) t) = Ok q"
      and l: "linear_quote_amount p q t = Ok c" for p q
  proof (rule linear_bound[OF l])
    note geo = step_geometry[OF left le]
    show "unat (raw p) \<le> unat (raw (prices s ! 6))"
      using geo(4) by (intro ask_price_le_top[OF valid cur p]) simp
    show "unat (raw q) \<le> unat (raw (prices s ! 6))"
      using geo(3,4) by (intro ask_price_le_top[OF valid cur q]) simp
  qed
  obtain p where p: "ask_price_at_offset s ?i (step_offset s) = Ok p"
    and cases: "(t = step_room s \<and> 0 < c \<and> c \<le> n \<and> (\<exists>q. ask_price_at_offset s ?i
          (saturating_add (step_offset s) t) = Ok q \<and> linear_quote_amount p q t = Ok c))
      \<or> (max_base_for_quote s ?i (step_offset s) (step_room s) n True = Ok t \<and> t \<noteq> 0 \<and> c \<noteq> 0
          \<and> (\<exists>q. ask_price_at_offset s ?i (saturating_add (step_offset s) t) = Ok q
             \<and> linear_quote_amount p q t = Ok c))"
    using ok unfolding buy_take_def Let_def step_offset_def[symmetric] step_room_def[symmetric]
    by (auto simp: result_simps split: if_splits)
  have room: "0 < unat (step_room s)" using step_geometry(2)[OF left, of 0] by simp
  obtain q where q: "ask_price_at_offset s ?i (saturating_add (step_offset s) t) = Ok q"
    "linear_quote_amount p q t = Ok c" using cases by auto
  have cost: "take_cost s ?i (step_offset s) True t = Ok c"
    using p q by (simp add: take_cost_def)
  have all: "t \<le> step_room s \<and> 0 < unat t \<and> 0 < c \<and> c \<le> n"
    using cases
  proof
    assume "max_base_for_quote s ?i (step_offset s) (step_room s) n True = Ok t \<and> t \<noteq> 0 \<and> c \<noteq> 0
          \<and> (\<exists>q. ask_price_at_offset s ?i (saturating_add (step_offset s) t) = Ok q
             \<and> linear_quote_amount p q t = Ok c)"
    with max_base_result[of s ?i "step_offset s" "step_room s" n True t] cost show ?thesis
      by (auto simp: payable_def unat_gt_0)
  qed (use room in auto)
  then show "t \<le> step_room s" "0 < unat t" "0 < unat c" "c \<le> n" by (auto simp: word_less_nat_alt)
  show "unat c * 2 ^ 64 \<le> unat t * unat (raw (prices s ! 6))"
    using all q by (intro bound[OF _ p]) auto
qed

lemma sell_take_step:
  assumes valid: "side_valid s" and left: "unat (consumed_quantity s) < unat (total_quantity s)"
    and n: "0 < n" and ok: "sell_take s n = Ok (t, c)"
  shows "t = min n (step_room s)" "0 < unat t" "0 < unat c"
    "unat c * 2 ^ 64 \<le> unat t * unat (raw (prices s ! 6))"
proof -
  let ?i = "segment_from_consumed s"
  note cur = current_segment(1)[OF left]
  obtain p q where t: "t = min n (step_room s)" and c: "c \<noteq> 0"
    and p: "bid_price_at_offset s (5 - ?i) (step_offset s) = Ok p"
    and q: "bid_price_at_offset s (5 - ?i) (saturating_add (step_offset s) t) = Ok q"
    and l: "linear_quote_amount p q t = Ok c"
    using ok unfolding sell_take_def Let_def step_offset_def[symmetric] step_room_def[symmetric]
    by (auto simp: result_simps split: if_splits)
  show "t = min n (step_room s)" by (rule t)
  have le: "t \<le> step_room s" by (simp add: t)
  note geo = step_geometry[OF left le]
  show "0 < unat t" using geo(2) n by (simp add: t word_less_nat_alt)
  show "0 < unat c" using c by (simp add: unat_gt_0)
  show "unat c * 2 ^ 64 \<le> unat t * unat (raw (prices s ! 6))"
  proof (rule linear_bound[OF l])
    show "unat (raw p) \<le> unat (raw (prices s ! 6))"
      using geo(4) by (intro bid_price_le_top[OF valid cur p]) simp
    show "unat (raw q) \<le> unat (raw (prices s ! 6))"
      using geo(3,4) by (intro bid_price_le_top[OF valid cur q]) simp
  qed
qed

section \<open>Walks\<close>

text \<open>A walk only moves the consumed quantity, forward and within the total.\<close>

definition grown :: "piecewise_book_side \<Rightarrow> piecewise_book_side \<Rightarrow> bool" where
  "grown s s' \<longleftrightarrow> prices s' = prices s \<and> total_quantity s' = total_quantity s
     \<and> unat (consumed_quantity s) \<le> unat (consumed_quantity s')
     \<and> unat (consumed_quantity s') \<le> unat (total_quantity s)"

lemma grown_refl: "side_valid s \<Longrightarrow> grown s s"
  by (simp add: grown_def side_valid_iff word_le_nat_alt)

lemma grown_trans: "grown s s' \<Longrightarrow> grown s' s'' \<Longrightarrow> grown s s''"
  by (auto simp: grown_def)

lemma grown_valid: "side_valid s \<Longrightarrow> grown s s' \<Longrightarrow> side_valid s'"
  by (auto simp: grown_def side_valid_iff word_le_nat_alt)

text \<open>The effect of the updates of a step, for both directions.\<close>

lemma consumed_step:
  assumes "unat (consumed_quantity s) < unat (total_quantity s)" "n \<le> step_room s"
  obtains c where "checked_add (consumed_quantity s) n = Some c"
    "unat c = unat (consumed_quantity s) + unat n" "unat c \<le> unat (total_quantity s)"
proof -
  have "unat (consumed_quantity s) + unat n \<le> unat (total_quantity s)"
    using step_geometry(5)[OF assms] current_segment(6)[OF assms(1)] by linarith
  moreover have "unat (total_quantity s) < 2 ^ 64" using unat_lt2p[of "total_quantity s"] by simp
  ultimately have "unat (consumed_quantity s) + unat n < 2 ^ 64" by linarith
  then show thesis
    using that[of "consumed_quantity s + n"] \<open>_ \<le> unat (total_quantity s)\<close>
    by (simp add: checked_add_def unat_add_fits)
qed

lemma buy_apply_step:
  assumes "side_valid s" "unat (consumed_quantity s) < unat (total_quantity s)" "t \<le> step_room s"
    and run: "buy_apply s w t c = (s', r)"
  shows "grown s s'" "unat (consumed_quantity s') = unat (consumed_quantity s) + unat t"
    "r = Ok w' \<Longrightarrow> unat (w_remaining w') + unat c = unat (w_remaining w)
       \<and> unat (w_in w') = unat (w_in w) + unat c \<and> unat (w_out w') = unat (w_out w) + unat t"
proof -
  obtain d where d: "checked_add (consumed_quantity s) t = Some d"
    "unat d = unat (consumed_quantity s) + unat t" "unat d \<le> unat (total_quantity s)"
    using consumed_step[OF assms(2,3)] .
  with run have s': "s' = s\<lparr>consumed_quantity := d\<rparr>" by (simp add: buy_apply_def)
  with d show "grown s s'" "unat (consumed_quantity s') = unat (consumed_quantity s) + unat t"
    by (simp_all add: grown_def)
  show "r = Ok w' \<Longrightarrow> unat (w_remaining w') + unat c = unat (w_remaining w)
       \<and> unat (w_in w') = unat (w_in w) + unat c \<and> unat (w_out w') = unat (w_out w) + unat t"
    using run d by (auto simp: buy_apply_def result_simps checked_add_eq_Some checked_sub_eq_Some)
qed

lemma sell_apply_step:
  assumes "side_valid s" "unat (consumed_quantity s) < unat (total_quantity s)" "t \<le> step_room s"
    and run: "sell_apply s w t c = (s', r)"
  shows "grown s s'" "unat (consumed_quantity s') = unat (consumed_quantity s) + unat t"
    "r = Ok w' \<Longrightarrow> unat (w_remaining w') + unat t = unat (w_remaining w)
       \<and> unat (w_out w') = unat (w_out w) + unat c
       \<and> unat (w_segments w') \<le> unat (w_segments w) + 1"
proof -
  obtain d where d: "checked_add (consumed_quantity s) t = Some d"
    "unat d = unat (consumed_quantity s) + unat t" "unat d \<le> unat (total_quantity s)"
    using consumed_step[OF assms(2,3)] .
  with run have s': "s' = s\<lparr>consumed_quantity := d\<rparr>" by (simp add: sell_apply_def)
  with d show "grown s s'" "unat (consumed_quantity s') = unat (consumed_quantity s) + unat t"
    by (simp_all add: grown_def)
  show "r = Ok w' \<Longrightarrow> unat (w_remaining w') + unat t = unat (w_remaining w)
       \<and> unat (w_out w') = unat (w_out w) + unat c
       \<and> unat (w_segments w') \<le> unat (w_segments w) + 1"
    using run d by (auto simp: sell_apply_def result_simps checked_add_eq_Some checked_sub_eq_Some
        unat_saturating_add)
qed

lemma remaining_pos:
  "0 < remaining_quantity s \<longleftrightarrow> unat (consumed_quantity s) < unat (total_quantity s)"
  by (simp add: remaining_quantity_def word_less_nat_alt)

text \<open>The books of a walk: what entered, what left, and how far the side moved.\<close>

definition walk_books :: "piecewise_book_side \<Rightarrow> walk \<Rightarrow> piecewise_book_side \<Rightarrow> walk \<Rightarrow> bool" where
  "walk_books s w s' w' \<longleftrightarrow>
     unat (w_remaining w') + unat (w_in w') = unat (w_remaining w) + unat (w_in w)
   \<and> unat (consumed_quantity s') + unat (w_out w) = unat (consumed_quantity s) + unat (w_out w')
   \<and> unat (w_in w') * 2 ^ 64 + unat (w_out w) * unat (raw (prices s ! 6))
       \<le> unat (w_in w) * 2 ^ 64 + unat (w_out w') * unat (raw (prices s ! 6))"

lemma walk_books_refl: "walk_books s w s w"
  by (simp add: walk_books_def)

lemma walk_books_trans:
  "grown s s' \<Longrightarrow> walk_books s w s' w' \<Longrightarrow> walk_books s' w' s'' w'' \<Longrightarrow> walk_books s w s'' w''"
  by (auto simp: walk_books_def grown_def)

lemma buy_loop_walk:
  assumes "buy_loop s w = (s', r)" "side_valid s"
  shows "grown s s' \<and> (\<forall>w'. r = Ok w' \<longrightarrow> walk_books s w s' w')"
  using assms
proof (induction s w rule: buy_loop.induct)
  case (1 s w)
  show ?case
  proof (cases "0 < w_remaining w \<and> 0 < remaining_quantity s")
    case False
    with 1(2,3) show ?thesis
      by (auto simp: buy_loop.simps[of s w] grown_refl walk_books_refl)
  next
    case True
    then have left: "unat (consumed_quantity s) < unat (total_quantity s)"
      by (simp add: remaining_pos)
    show ?thesis
    proof (cases "\<exists>t c. buy_take s (w_remaining w) = Ok (Some (t, c))")
      case False
      with 1(2,3) True show ?thesis
        by (auto simp: buy_loop.simps[of s w] grown_refl walk_books_refl
            split: sum.splits option.splits)
    next
      case take: True
      then obtain t c where t: "buy_take s (w_remaining w) = Ok (Some (t, c))" by blast
      note step = buy_take_step[OF 1(3) left t]
      obtain s1 r1 where a: "buy_apply s w t c = (s1, r1)" by fastforce
      note ap = buy_apply_step[OF 1(3) left step(1) a]
      show ?thesis
      proof (cases r1)
        case (Inl e)
        with 1(2) True t a ap(1) show ?thesis by (auto simp: buy_loop.simps[of s w])
      next
        case (Inr w1)
        then have rest: "buy_loop s1 w1 = (s', r)"
          using 1(2) True t a by (simp add: buy_loop.simps[of s w])
        note ih = 1(1)[OF True t refl refl a[symmetric] Inr rest grown_valid[OF 1(3) ap(1)]]
        have "walk_books s w s1 w1"
          using ap(2) ap(3)[OF Inr] step(5) by (simp add: walk_books_def algebra_simps)
        with ih ap(1) show ?thesis using grown_trans walk_books_trans by blast
      qed
    qed
  qed
qed

text \<open>
  A sell walks strictly forward through the segments, so it crosses at most the segments that
  are left.
\<close>

definition sold :: "piecewise_book_side \<Rightarrow> walk \<Rightarrow> piecewise_book_side \<Rightarrow> walk \<Rightarrow> bool" where
  "sold s w s' w' \<longleftrightarrow>
     w_remaining w' = 0
   \<and> unat (consumed_quantity s') = unat (consumed_quantity s) + unat (w_remaining w)
   \<and> unat (w_out w') * 2 ^ 64
       \<le> unat (w_out w) * 2 ^ 64 + unat (w_remaining w) * unat (raw (prices s ! 6))
   \<and> unat (w_segments w') \<le> unat (w_segments w) + (6 - segment_from_consumed s)"

lemma next_segment:
  assumes left: "unat (consumed_quantity s) < unat (total_quantity s)"
    and s': "total_quantity s' = total_quantity s"
      "unat (consumed_quantity s') = seg_bound (unat (total_quantity s)) (segment_from_consumed s + 1)"
    and left': "unat (consumed_quantity s') < unat (total_quantity s')"
  shows "segment_from_consumed s < segment_from_consumed s'"
proof (rule ccontr)
  assume "\<not> segment_from_consumed s < segment_from_consumed s'"
  then have "seg_bound (unat (total_quantity s)) (segment_from_consumed s' + 1)
      \<le> seg_bound (unat (total_quantity s)) (segment_from_consumed s + 1)"
    by (intro seg_bound_mono) simp
  with current_segment(3)[OF left'] s' show False by simp
qed

lemma sell_loop_walk:
  assumes "sell_loop s w = (s', r)" "side_valid s"
    "unat (w_remaining w) + unat (consumed_quantity s) \<le> unat (total_quantity s)"
  shows "grown s s' \<and> (\<forall>w'. r = Ok w' \<longrightarrow> sold s w s' w')"
  using assms
proof (induction s w rule: sell_loop.induct)
  case (1 s w)
  show ?case
  proof (cases "0 < w_remaining w")
    case False
    with 1(2,3) show ?thesis
      by (auto simp: sell_loop.simps[of s w] grown_refl sold_def word_gt_0)
  next
    case True
    then have rem: "0 < unat (w_remaining w)" by (simp add: word_less_nat_alt)
    with 1(4) have left: "unat (consumed_quantity s) < unat (total_quantity s)" by linarith
    show ?thesis
    proof (cases "sell_take s (w_remaining w)")
      case (Inl e)
      with 1(2,3) True show ?thesis by (auto simp: sell_loop.simps[of s w] grown_refl)
    next
      case (Inr tc)
      then obtain t c where t: "sell_take s (w_remaining w) = Ok (t, c)" by (cases tc) simp
      note step = sell_take_step[OF 1(3) left True t]
      have le: "t \<le> step_room s" by (simp add: step(1))
      obtain s1 r1 where a: "sell_apply s w t c = (s1, r1)" by fastforce
      note ap = sell_apply_step[OF 1(3) left le a]
      show ?thesis
      proof (cases r1)
        case (Inl e)
        with 1(2) True t a ap(1) show ?thesis by (auto simp: sell_loop.simps[of s w])
      next
        case r1: (Inr w1)
        then have rest: "sell_loop s1 w1 = (s', r)"
          using 1(2) True t a by (simp add: sell_loop.simps[of s w])
        note w1 = ap(3)[OF r1]
        have fits: "unat (w_remaining w1) + unat (consumed_quantity s1) \<le> unat (total_quantity s1)"
          using 1(4) ap(1,2) w1 by (simp add: grown_def)
        note ih = 1(1)[OF True t refl a[symmetric] r1 rest grown_valid[OF 1(3) ap(1)] fits]
        have "sold s w s' w'" if "r = Ok w'" for w'
        proof -
          have sold1: "sold s1 w1 s' w'" using ih that by blast
          have segs: "6 - segment_from_consumed s1 + 1 \<le> 6 - segment_from_consumed s \<or> w1 = w'"
          proof (cases "w_remaining w1 = 0")
            case True
            then have "sell_loop s1 w1 = (s1, Ok w1)" by (simp add: sell_loop.simps[of s1 w1])
            with rest that show ?thesis by simp
          next
            case False
            then have pos: "0 < unat (w_remaining w1)" by (simp add: unat_gt_0)
            have "t = step_room s"
              using step(1) w1 pos by (auto simp: min_def split: if_splits)
            then have "unat (consumed_quantity s1)
                = seg_bound (unat (total_quantity s)) (segment_from_consumed s + 1)"
              using ap(2) step_geometry(1)[OF left le] current_segment(3)[OF left] by simp
            then have "segment_from_consumed s < segment_from_consumed s1"
              using fits pos ap(1) by (intro next_segment[OF left]) (simp_all add: grown_def)
            then show ?thesis using current_segment(1)[OF left] by (intro disjI1) arith
          qed
          have same: "prices s1 = prices s" using ap(1) by (simp add: grown_def)
          have "unat (w_segments w') \<le> unat (w_segments w) + (6 - segment_from_consumed s)"
            using segs sold1 w1 current_segment(1)[OF left] by (auto simp: sold_def)
          moreover have "unat (w_out w') * 2 ^ 64
              \<le> unat (w_out w) * 2 ^ 64 + unat (w_remaining w) * unat (raw (prices s ! 6))"
          proof -
            have "unat (w_out w') * 2 ^ 64 \<le> unat (w_out w1) * 2 ^ 64
                + unat (w_remaining w1) * unat (raw (prices s ! 6))"
              using sold1 same by (simp add: sold_def)
            also have "\<dots> \<le> unat (w_out w) * 2 ^ 64
                + (unat (w_remaining w1) + unat t) * unat (raw (prices s ! 6))"
            proof -
              have "unat (w_out w1) * 2 ^ 64 = unat (w_out w) * 2 ^ 64 + unat c * 2 ^ 64"
                using w1 by (simp add: distrib_right)
              then show ?thesis unfolding distrib_right using step(4) by linarith
            qed
            finally show ?thesis using w1 by simp
          qed
          ultimately show ?thesis using sold1 ap(2) w1 by (simp add: sold_def)
        qed
        with ih ap(1) show ?thesis using grown_trans by blast
      qed
    qed
  qed
qed

section \<open>Replenishing keeps a side valid\<close>

lemma side_valid_quantities:
  "side_valid s \<Longrightarrow> prices s' = prices s \<Longrightarrow> total_quantity s \<le> total_quantity s' \<Longrightarrow>
   consumed_quantity s' \<le> total_quantity s' \<Longrightarrow> side_valid s'"
  by (auto simp: side_valid_iff)

definition remaining_nat :: "piecewise_book_side \<Rightarrow> nat" where
  "remaining_nat s = unat (total_quantity s) - unat (consumed_quantity s)"

text \<open>
  What each policy makes of the consumed and the total quantity, without bounds: healing gives back
  consumed quantity before it adds depth, proportional scaling keeps the consumed share, and a
  depth-proportional policy adds as many sixths of the quantity as segments were crossed and heals
  with the rest.
\<close>

definition post_fill_target :: "post_fill_policy \<Rightarrow> nat \<Rightarrow> nat \<Rightarrow> nat \<Rightarrow> nat \<Rightarrow> nat \<times> nat" where
  "post_fill_target policy c t q segments =
    (case policy of
       NoPostFill \<Rightarrow> (c, t)
     | HealThenAdd \<Rightarrow> (c - q, t + (q - c))
     | ProportionalScale \<Rightarrow> (c * (t + q) div t, t + q)
     | DepthProportional \<Rightarrow>
         let added = q * min segments 6 div 6 in (c - (q - added), t + (q - added - c) + added))"

text \<open>
  A replenishment either reaches its target, or the target does not fit and the side, though
  still valid, may have been healed in part.
\<close>

definition refilled ::
    "piecewise_book_side \<Rightarrow> nat \<times> nat \<Rightarrow> piecewise_book_side \<times> (math_error + unit) \<Rightarrow> bool" where
  "refilled s target out \<longleftrightarrow> side_valid (fst out) \<and> prices (fst out) = prices s
    \<and> (if snd target < 2 ^ 64
       then snd out = Ok () \<and> (unat (consumed_quantity (fst out)), unat (total_quantity (fst out))) = target
       else snd out = Err Overflow \<and> total_quantity s \<le> total_quantity (fst out)
          \<and> consumed_quantity (fst out) \<le> consumed_quantity s)"

lemma heal_then_add_exact:
  assumes v: "side_valid s"
  shows "refilled s (unat (consumed_quantity s) - unat q,
      unat (total_quantity s) + (unat q - unat (consumed_quantity s))) (heal_then_add s q)"
proof (cases "q \<le> consumed_quantity s")
  case True
  then have le: "unat q \<le> unat (consumed_quantity s)" by (simp add: word_le_nat_alt)
  have d: "unat (consumed_quantity s - q) = unat (consumed_quantity s) - unat q" using True by (simp add: unat_sub_le)
  have "side_valid (s\<lparr>consumed_quantity := consumed_quantity s - q\<rparr>)"
    using v by (intro side_valid_quantities[OF v]) (auto simp: side_valid_iff word_le_nat_alt d)
  with True le d u64_bound[of "total_quantity s"] show ?thesis
    by (simp add: heal_then_add_def Let_def side_validate_eq refilled_def)
next
  case False
  then have lt: "unat (consumed_quantity s) < unat q" by (simp add: word_le_nat_alt)
  have d: "unat (q - consumed_quantity s) = unat q - unat (consumed_quantity s)"
    using False by (simp add: unat_sub_le)
  have v0: "side_valid (s\<lparr>consumed_quantity := 0\<rparr>)" by (rule side_valid_quantities[OF v]) simp_all
  show ?thesis
  proof (cases "checked_add (total_quantity s) (q - consumed_quantity s)")
    case None
    then have "\<not> unat (total_quantity s) + (unat q - unat (consumed_quantity s)) < 2 ^ 64"
      by (simp add: checked_add_eq_None d)
    with None False v0 show ?thesis by (simp add: heal_then_add_def Let_def refilled_def)
  next
    case (Some t)
    then have t: "unat t = unat (total_quantity s) + (unat q - unat (consumed_quantity s))"
      by (simp add: checked_add_eq_Some d)
    have v': "side_valid (s\<lparr>consumed_quantity := 0, total_quantity := t\<rparr>)"
      by (rule side_valid_quantities[OF v]) (simp_all add: word_le_nat_alt t)
    with Some False lt t u64_bound[of t] show ?thesis
      by (simp add: heal_then_add_def Let_def side_validate_eq refilled_def)
  qed
qed

lemma proportional_scale_exact:
  assumes v: "side_valid s"
  shows "refilled s (unat (consumed_quantity s) * (unat (total_quantity s) + unat q) div unat (total_quantity s),
      unat (total_quantity s) + unat q) (proportional_scale s q)"
proof (cases "checked_add (total_quantity s) q")
  case None
  then have "proportional_scale s q = (s, Err Overflow)" by (simp add: proportional_scale_def)
  with None v show ?thesis by (simp add: refilled_def checked_add_eq_None)
next
  case (Some n)
  have q: "unat (total_quantity s) \<noteq> 0" "unat (consumed_quantity s) \<le> unat (total_quantity s)"
    using v by (auto simp: side_valid_iff word_le_nat_alt)
  from Some have n: "unat n = unat (total_quantity s) + unat q" by (simp add: checked_add_eq_Some)
  define c where "c = unat (consumed_quantity s) * unat n div unat (total_quantity s)"
  have c_le: "c \<le> unat n"
  proof -
    have "c \<le> unat (total_quantity s) * unat n div unat (total_quantity s)"
      unfolding c_def using q(2) by (intro div_le_mono mult_le_mono1)
    with q(1) show ?thesis by simp
  qed
  then have c_small: "c < 2 ^ 64" using u64_bound[of n] by simp
  have md: "mul_div_floor (as_u128 (consumed_quantity s)) (as_u128 n) (as_u128 (total_quantity s))
      = Ok (of_nat c)"
    using q(1) c_small by (simp add: mul_div_floor_spec c_def)
  have conv: "u64_try_from (of_nat c) = Some (of_nat c)" and v_c: "unat (of_nat c :: u64) = c"
    using c_small by (simp_all add: u64_try_from_eq_Some unat_of_nat_fits)
  have "side_valid (s\<lparr>total_quantity := n, consumed_quantity := of_nat c\<rparr>)"
    using c_le by (intro side_valid_quantities[OF v]) (simp_all add: word_le_nat_alt n v_c)
  with Some md conv n v_c u64_bound[of n] show ?thesis
    by (simp add: proportional_scale_def Let_def side_validate_eq c_def refilled_def)
qed

text \<open>The depth added is the quantity times the sixths crossed, without overflow.\<close>

lemma depth_added:
  fixes q :: u64 and segs :: u8
  shows "unat (ucast (as_u128 q * ucast (min segs (of_nat PIECEWISE_SEGMENT_COUNT)) div of_nat PIECEWISE_SEGMENT_COUNT) :: u64)
    = unat q * min (unat segs) 6 div 6"
proof -
  define d :: u128 where "d = ucast (min segs (of_nat PIECEWISE_SEGMENT_COUNT))"
  have d: "unat d = min (unat segs) 6"
  proof -
    have "unat d = unat (min segs 6)" by (simp add: d_def unat_ucast_widen)
    then show ?thesis by (simp add: min_def word_le_nat_alt)
  qed
  show ?thesis
    using unat_narrow_quotient(2)[of "of_nat PIECEWISE_SEGMENT_COUNT" d q] unfolding d_def[symmetric] by (simp add: d)
qed

lemma depth_proportional_exact:
  fixes s q segs
  defines "added \<equiv> unat q * min (unat segs) 6 div 6"
  assumes v: "side_valid s"
  shows "refilled s (unat (consumed_quantity s) - (unat q - added),
      unat (total_quantity s) + (unat q - added - unat (consumed_quantity s)) + added) (depth_proportional s q segs)"
proof -
  define add :: u64 where
    "add = ucast (as_u128 q * ucast (min segs (of_nat PIECEWISE_SEGMENT_COUNT)) div of_nat PIECEWISE_SEGMENT_COUNT)"
  have add: "unat add = added" unfolding add_def added_def by (rule depth_added)
  have "added \<le> unat q" unfolding added_def
    by (rule order.trans[OF div_le_mono[OF mult_le_mono2[OF min.cobounded2]]]) simp
  then have sub: "checked_sub q add = Some (q - add)" and heal: "unat (q - add) = unat q - added"
    using add by (simp_all add: checked_sub_def word_le_nat_alt unat_sub_le)
  obtain s1 r1 where h: "heal_then_add s (q - add) = (s1, r1)" by fastforce
  note h1 = heal_then_add_exact[OF v, of "q - add", unfolded h heal]
  have run: "depth_proportional s q segs = (case r1 of Err e \<Rightarrow> (s1, Err e) | Ok _ \<Rightarrow>
      (case checked_add (total_quantity s1) add of None \<Rightarrow> (s1, Err Overflow)
       | Some t \<Rightarrow> (s1\<lparr>total_quantity := t\<rparr>, side_validate (s1\<lparr>total_quantity := t\<rparr>))))"
    using sub h unfolding depth_proportional_def Let_def add_def[symmetric]
    by (simp split: sum.splits option.splits)
  show ?thesis
  proof (cases "unat (total_quantity s) + (unat q - added - unat (consumed_quantity s)) < 2 ^ 64")
    case False
    with h1 run show ?thesis by (simp add: refilled_def)
  next
    case True
    with h1 have ok: "r1 = Ok ()" and s1: "side_valid s1" "prices s1 = prices s"
      "unat (consumed_quantity s1) = unat (consumed_quantity s) - (unat q - added)"
      "unat (total_quantity s1) = unat (total_quantity s) + (unat q - added - unat (consumed_quantity s))"
      by (simp_all add: refilled_def)
    show ?thesis
    proof (cases "checked_add (total_quantity s1) add")
      case None
      with ok run s1 show ?thesis by (simp add: refilled_def checked_add_eq_None add word_le_nat_alt)
    next
      case (Some t)
      then have t: "unat t = unat (total_quantity s1) + added" by (simp add: checked_add_eq_Some add)
      have "unat (consumed_quantity s1) \<le> unat (total_quantity s1)"
        using s1(1) by (simp add: side_valid_iff word_le_nat_alt)
      then have "side_valid (s1\<lparr>total_quantity := t\<rparr>)"
        by (intro side_valid_quantities[OF s1(1)]) (simp_all add: word_le_nat_alt t)
      with Some ok run t s1 u64_bound[of t] show ?thesis by (simp add: side_validate_eq refilled_def)
    qed
  qed
qed

lemma post_fill_remaining:
  assumes "c \<le> t"
  shows "snd (post_fill_target HealThenAdd c t q segs) - fst (post_fill_target HealThenAdd c t q segs) = t - c + q"
    and "snd (post_fill_target DepthProportional c t q segs) - fst (post_fill_target DepthProportional c t q segs) = t - c + q"
proof -
  have "t + (q - a - c) + a - (c - (q - a)) = t - c + q" if "a \<le> q" for a
    using that assms by arith
  moreover have "q * min segs 6 div 6 \<le> q"
    by (rule order.trans[OF div_le_mono[OF mult_le_mono2[OF min.cobounded2]]]) simp
  ultimately show "snd (post_fill_target DepthProportional c t q segs) - fst (post_fill_target DepthProportional c t q segs) = t - c + q"
    by (simp only: post_fill_target_def Let_def post_fill_policy.case fst_conv snd_conv)
  show "snd (post_fill_target HealThenAdd c t q segs) - fst (post_fill_target HealThenAdd c t q segs) = t - c + q"
    using assms by (simp add: post_fill_target_def)
qed

lemma first_take_valid:
  assumes "side_valid s" "max_base_for_quote s seg off cap q True = Ok r" "seg < 6"
    and unit_cost: "take_cost s seg off True 1 = Ok u" "0 < u"
    and pay: "x \<le> cap" "payable s seg off True q x"
  shows "x \<le> r"
proof (rule ccontr)
  assume "\<not> x \<le> r"
  then have less: "unat r < unat x" by (simp add: word_le_nat_alt)
  note res = max_base_result[OF assms(2)]
  obtain c where c: "take_cost s seg off True x = Ok c" "c \<le> q" using pay by (auto simp: payable_def)
  have "r \<noteq> cap" using less pay(1) by (auto simp: word_le_nat_alt)
  with res obtain d where d: "take_cost s seg off True (r + 1) = Ok d" "d = 0 \<or> q < d"
    by (auto simp: refused_def word_gt_0 not_le)
  have r1: "unat (r + 1) = unat r + 1"
    using less u64_bound[of x] by (simp add: unat_add_fits)
  have "unat u \<le> unat d"
    using take_cost_mono[OF assms(1,3) unit_cost(1) d(1)] r1 by simp
  moreover have "unat d \<le> unat c"
    using take_cost_mono[OF assms(1,3) d(1) c(1)] less r1 by simp
  ultimately show False
    using d(2) unit_cost(2) c(2) by (auto simp: word_le_nat_alt word_less_nat_alt)
qed

section \<open>Examples\<close>

text \<open>The side of the repository's own tests, and one with prices below a quote atom.\<close>

definition example_side :: piecewise_book_side where
  "example_side = \<lparr>prices = map from_int [98, 99, 100, 101, 102, 103, 104],
     total_quantity = 600, consumed_quantity = 0\<rparr>"

definition thin_side :: piecewise_book_side where
  "thin_side = \<lparr>prices = map Q64x64 [1844674407370955161, 18446744073709551616,
       36893488147419103232, 55340232221128654848, 73786976294838206464,
       92233720368547758080, 110680464442257309696],
     total_quantity = 24, consumed_quantity = 0\<rparr>"

lemma example_side_valid: "side_valid example_side" and thin_side_valid: "side_valid thin_side"
  unfolding side_valid_def by code_simp+

section \<open>Properties\<close>

text \<open>
  C30: a buy on a valid side terminates, keeps the side valid and only moves its consumed
  quantity forward, whatever the outcome; when it succeeds it has used the whole input, paid
  out exactly the quantity consumed, and charged at most the top price of the side.
\<close>

theorem buy_fill_contract:
  assumes run: "buy_base_with_quote s n = (s', r)" and valid: "side_valid s"
  shows "side_valid s' \<and> grown s s' \<and>
    (\<forall>q. r = Ok q \<longrightarrow> pq_amount_in_used q = n \<and> 0 < unat (pq_amount_out q)
      \<and> pq_new_consumed_quantity q = consumed_quantity s'
      \<and> unat (consumed_quantity s') = unat (consumed_quantity s) + unat (pq_amount_out q)
      \<and> unat n * 2 ^ 64 \<le> unat (pq_amount_out q) * unat (raw (prices s ! 6)))"
proof (cases "n = 0 \<or> remaining_quantity s = 0")
  case True
  with run valid show ?thesis
    by (auto simp: buy_base_with_quote_def side_validate_eq grown_refl)
next
  case False
  let ?w = "\<lparr>w_remaining = n, w_in = 0, w_out = 0, w_segments = 0\<rparr>"
  obtain s1 r1 where l: "buy_loop s ?w = (s1, r1)" by fastforce
  note walk = buy_loop_walk[OF l valid]
  have s1: "s1 = s'" using run False valid l
    by (auto simp: buy_base_with_quote_def side_validate_eq split: sum.splits)
  show ?thesis
  proof (cases r1)
    case (Inl e)
    with run False valid l have "r = Err e" by (simp add: buy_base_with_quote_def side_validate_eq)
    with walk grown_valid[OF valid] s1 show ?thesis by simp
  next
    case (Inr w)
    with walk have b: "walk_books s ?w s1 w" by simp
    have r: "r = (if w_out w = 0 \<or> 0 < w_remaining w then Err InvalidAmount
               else Ok \<lparr>pq_amount_in_used = w_in w, pq_amount_out = w_out w,
                        pq_new_consumed_quantity = consumed_quantity s1,
                        pq_segments_crossed = w_segments w\<rparr>)"
      using run False valid l Inr by (simp add: buy_base_with_quote_def side_validate_eq)
    show ?thesis
    proof (cases "w_out w = 0 \<or> 0 < w_remaining w")
      case True
      with r walk grown_valid[OF valid] s1 show ?thesis by simp
    next
      case acc: False
      then have n: "n = w_in w"
        using b by (simp add: walk_books_def word_gt_0 word_eq_iff_unat)
      from acc r s1 walk grown_valid[OF valid] b show ?thesis
        unfolding n by (simp add: walk_books_def unat_gt_0)
    qed
  qed
qed

theorem buy_fill_contract_witness:
  "\<exists>s' q. buy_base_with_quote example_side 9850 = (s', Ok q) \<and> pq_amount_in_used q = 9850
     \<and> side_valid s' \<and> consumed_quantity s' = 100"
proof -
  have run: "buy_base_with_quote example_side 9850 =
    (example_side\<lparr>consumed_quantity := 100\<rparr>,
     Ok \<lparr>pq_amount_in_used = 9850, pq_amount_out = 100, pq_new_consumed_quantity = 100,
         pq_segments_crossed = 1\<rparr>)"
    by code_simp
  from buy_fill_contract[OF run example_side_valid] run show ?thesis by simp
qed

text \<open>
  C31: a sell on a valid side terminates, keeps the side valid, and when it succeeds moves it by
  exactly the amount sold, pays at most the top price, and crosses at most six segments.
\<close>

theorem sell_fill_contract:
  assumes run: "sell_base_for_quote s n = (s', r)" and valid: "side_valid s"
  shows "side_valid s' \<and> grown s s' \<and>
    (\<forall>q. r = Ok q \<longrightarrow> pq_amount_in_used q = n
      \<and> pq_new_consumed_quantity q = consumed_quantity s'
      \<and> unat (consumed_quantity s') = unat (consumed_quantity s) + unat n
      \<and> unat (pq_amount_out q) * 2 ^ 64 \<le> unat n * unat (raw (prices s ! 6))
      \<and> unat (pq_segments_crossed q) \<le> 6)"
proof (cases "n = 0 \<or> remaining_quantity s = 0 \<or> remaining_quantity s < n")
  case True
  with run valid show ?thesis
    by (auto simp: sell_base_for_quote_def side_validate_eq grown_refl)
next
  case False
  let ?w = "\<lparr>w_remaining = n, w_in = 0, w_out = 0, w_segments = 0\<rparr>"
  obtain s1 r1 where l: "sell_loop s ?w = (s1, r1)" by fastforce
  have fits: "unat (w_remaining ?w) + unat (consumed_quantity s) \<le> unat (total_quantity s)"
  proof -
    have "\<not> unat (total_quantity s) - unat (consumed_quantity s) < unat n"
      using False by (simp add: remaining_quantity_def word_less_nat_alt)
    moreover have "unat (consumed_quantity s) \<le> unat (total_quantity s)"
      using valid by (simp add: side_valid_iff word_le_nat_alt)
    ultimately show ?thesis by simp
  qed
  note walk = sell_loop_walk[OF l valid fits]
  have "s1 = s'" using run False valid l
    by (auto simp: sell_base_for_quote_def side_validate_eq split: sum.splits)
  with walk grown_valid[OF valid] run False valid l show ?thesis
    by (auto simp: sell_base_for_quote_def side_validate_eq sold_def split: sum.splits if_splits)
qed

theorem sell_fill_contract_witness:
  "\<exists>s' q. sell_base_for_quote example_side 100 = (s', Ok q) \<and> pq_amount_out q = 10350
     \<and> unat (pq_segments_crossed q) \<le> 6"
proof -
  have run: "sell_base_for_quote example_side 100 =
    (example_side\<lparr>consumed_quantity := 100\<rparr>,
     Ok \<lparr>pq_amount_in_used = 100, pq_amount_out = 10350, pq_new_consumed_quantity = 100,
         pq_segments_crossed = 1\<rparr>)"
    by code_simp
  from sell_fill_contract[OF run example_side_valid] run show ?thesis by simp
qed

text \<open>
  C32: when a single atom of base already costs something, the binary search returns the largest
  affordable amount of the segment.
\<close>

theorem max_base_is_maximal:
  assumes "side_valid s" "seg < 6" "max_base_for_quote s seg off cap q True = Ok r"
    and "take_cost s seg off True 1 = Ok u" "0 < u"
  shows "r \<le> cap \<and> (r = 0 \<or> payable s seg off True q r)
    \<and> (\<forall>x. x \<le> cap \<longrightarrow> payable s seg off True q x \<longrightarrow> x \<le> r)"
  using max_base_result[OF assms(3)] first_take_valid[OF assms(1,3,2,4,5)] by blast

theorem max_base_is_maximal_witness:
  "max_base_for_quote example_side 0 0 7 300 True = Ok 3
    \<and> payable example_side 0 0 True 300 3 \<and> \<not> payable example_side 0 0 True 300 4"
proof -
  have run: "max_base_for_quote example_side 0 0 7 300 True = Ok 3" by code_simp
  have unit_cost: "take_cost example_side 0 0 True 1 = Ok 98" by code_simp
  note best = max_base_is_maximal[OF example_side_valid _ run unit_cost, simplified]
  then have "\<not> payable example_side 0 0 True 300 4" by (auto dest: spec[of _ 4])
  with best run show ?thesis by simp
qed

text \<open>
  Where one atom costs less than a quote atom the search misses affordable amounts: on a
  valid side, three atoms cost exactly the one quote atom offered, and the buy is refused.
\<close>

lemma cheap_base_buy_is_refused:
  "side_valid thin_side \<and> take_cost thin_side 0 0 True 3 = Ok 1
    \<and> max_base_for_quote thin_side 0 0 4 1 True = Ok 0
    \<and> snd (buy_base_with_quote thin_side 1) = Err InvalidAmount"
proof -
  have "take_cost thin_side 0 0 True 3 = Ok 1" by code_simp
  moreover have "max_base_for_quote thin_side 0 0 4 1 True = Ok 0" by code_simp
  moreover have "snd (buy_base_with_quote thin_side 1) = Err InvalidAmount" by code_simp
  ultimately show ?thesis using thin_side_valid by simp
qed

text \<open>
  A buy that is refused can still have consumed the side: an input that does not match a
  whole number of atoms is refused as \<open>InvalidAmount\<close>, and the atoms it could pay for are gone.
\<close>

lemma refused_buy_consumes_side:
  "side_valid (example_side\<lparr>total_quantity := 6\<rparr>)
    \<and> buy_base_with_quote (example_side\<lparr>total_quantity := 6\<rparr>) 150
       = (example_side\<lparr>total_quantity := 6, consumed_quantity := 1\<rparr>, Err InvalidAmount)"
proof
  show "side_valid (example_side\<lparr>total_quantity := 6\<rparr>)" unfolding side_valid_def by code_simp
  show "buy_base_with_quote (example_side\<lparr>total_quantity := 6\<rparr>) 150
       = (example_side\<lparr>total_quantity := 6, consumed_quantity := 1\<rparr>, Err InvalidAmount)" by code_simp
qed

text \<open>
  C37: on a valid side every replenishment policy does exactly what it promises: where the new total
  quantity fits 64 bits the call succeeds and consumed and total quantity are the policy's, healing
  before adding, keeping the consumed share (rounded down), or adding the sixths of the quantity
  that the fill crossed and healing with the rest; where it does not fit the call fails with
  overflow on a side that is no smaller and no more consumed.  The side stays valid and keeps its
  prices in every case, and the policies that heal add exactly the quantity to what remains.
\<close>

theorem post_fill_contract:
  assumes "side_valid s"
  shows "let target = post_fill_target policy (unat (consumed_quantity s)) (unat (total_quantity s)) (unat q) (unat segs);
      out = apply_post_fill_to_side s q policy segs
    in side_valid (fst out) \<and> prices (fst out) = prices s
    \<and> (if snd target < 2 ^ 64
       then snd out = Ok () \<and> (unat (consumed_quantity (fst out)), unat (total_quantity (fst out))) = target
          \<and> (policy = HealThenAdd \<or> policy = DepthProportional
              \<longrightarrow> remaining_nat (fst out) = remaining_nat s + unat q)
       else snd out = Err Overflow \<and> total_quantity s \<le> total_quantity (fst out)
          \<and> consumed_quantity (fst out) \<le> consumed_quantity s)"
proof -
  define target where "target = post_fill_target policy (unat (consumed_quantity s)) (unat (total_quantity s)) (unat q) (unat segs)"
  define out where "out = apply_post_fill_to_side s q policy segs"
  have le: "unat (consumed_quantity s) \<le> unat (total_quantity s)" "unat (total_quantity s) \<noteq> 0"
    using assms(1) by (auto simp: side_valid_iff word_le_nat_alt)
  have "refilled s target out"
  proof (cases "q = 0 \<or> policy = NoPostFill")
    case True
    with le assms(1) u64_bound[of "total_quantity s"] show ?thesis
      by (cases policy) (auto simp: out_def target_def apply_post_fill_to_side_def post_fill_target_def
          refilled_def side_validate_eq)
  next
    case False
    with assms(1) show ?thesis
      using heal_then_add_exact[OF assms(1), of q] proportional_scale_exact[OF assms(1), of q]
        depth_proportional_exact[OF assms(1), of q segs]
      by (cases policy) (simp_all add: out_def target_def apply_post_fill_to_side_def post_fill_target_def
          side_validate_eq Let_def)
  qed
  moreover have "snd target - fst target = remaining_nat s + unat q"
    if "policy = HealThenAdd \<or> policy = DepthProportional"
    using that le post_fill_remaining[of "unat (consumed_quantity s)" "unat (total_quantity s)" "unat q" "unat segs"]
    by (auto simp: target_def remaining_nat_def)
  ultimately show ?thesis
    unfolding Let_def target_def[symmetric] out_def[symmetric] refilled_def remaining_nat_def by (auto simp: prod_eq_iff)
qed

theorem post_fill_contract_witness:
  "apply_post_fill_to_side (example_side\<lparr>consumed_quantity := 120\<rparr>) 60 DepthProportional 2
     = (example_side\<lparr>consumed_quantity := 80, total_quantity := 620\<rparr>, Ok ())
   \<and> apply_post_fill_to_side (example_side\<lparr>consumed_quantity := 120\<rparr>) 60 HealThenAdd 2
     = (example_side\<lparr>consumed_quantity := 60\<rparr>, Ok ())"
proof -
  let ?s = "example_side\<lparr>consumed_quantity := 120\<rparr>"
  have valid: "side_valid ?s" unfolding side_valid_def by code_simp
  have q: "unat (consumed_quantity ?s) = 120" "unat (total_quantity ?s) = 600"
    by (simp_all add: example_side_def)
  show ?thesis
    using post_fill_contract[OF valid, of DepthProportional 60 2] post_fill_contract[OF valid, of HealThenAdd 60 2]
    by (cases "apply_post_fill_to_side ?s 60 DepthProportional 2"; cases "apply_post_fill_to_side ?s 60 HealThenAdd 2")
      (auto simp: q post_fill_target_def example_side_def word_unat_eq_iff)
qed

end
