(* ===== verification/Config.thy ===== *)
theory Config imports Decimal Reference begin

text \<open>
  The configuration compiler of \<open>crates/meta_amm_config/src/lib.rs\<close>: the maker's parameters,
  update envelope, account budget and token pair are validated and compiled.  Shown here:
  what exactly compiles, that a compiled configuration can never make the swap path report
  \<open>InvalidConfig\<close>, and that a maker who updates within its envelope is never stale.
\<close>

section \<open>Constants and data\<close>

definition CONFIG_SCHEMA_VERSION :: u16 where "CONFIG_SCHEMA_VERSION = 1"
definition BASIS_POINTS :: u16 where "BASIS_POINTS = 10000"
definition REFERENCE_QUOTE_MODE_ID :: u8 where "REFERENCE_QUOTE_MODE_ID = 1"
definition REFERENCE_QUOTE_REQUIRED_SWAP_ACCOUNT_METAS :: u8 where
  "REFERENCE_QUOTE_REQUIRED_SWAP_ACCOUNT_METAS = 13"
definition REFERENCE_QUOTE_DEFAULT_SWAP_ACCOUNT_META_BUDGET :: u8 where
  "REFERENCE_QUOTE_DEFAULT_SWAP_ACCOUNT_META_BUDGET = 15"

definition REFERENCE_QUOTE_SWAP_ACCOUNT_LABELS :: "string list" where
  "REFERENCE_QUOTE_SWAP_ACCOUNT_LABELS =
    [''taker'', ''pool_config'', ''quote_state'', ''vault_authority'', ''vault_state'',
     ''base_mint'', ''quote_mint'', ''base_token_program'', ''quote_token_program'',
     ''user_base_account'', ''user_quote_account'', ''base_vault'', ''quote_vault'']"

datatype strategy_mode = ReferenceQuote

definition strategy_mode_as_u8 :: "strategy_mode \<Rightarrow> u8" where
  "strategy_mode_as_u8 m = (case m of ReferenceQuote \<Rightarrow> REFERENCE_QUOTE_MODE_ID)"

datatype same_slot_update_order = UpdateBeforeSwap | SwapBeforeUpdate

record quote_update_envelope =
  max_maker_update_period_slots :: u64
  max_landing_latency_slots :: u64
  min_update_success_probability_bps :: u16
  same_slot_order :: same_slot_update_order

record strategy_config =
  st_params :: reference_quote_params
  st_quote_update_envelope :: quote_update_envelope

record account_budget =
  required_swap_account_metas :: u8
  max_swap_account_metas :: u8

definition reference_quote_jupiter_default :: account_budget where
  "reference_quote_jupiter_default =
    \<lparr>required_swap_account_metas = REFERENCE_QUOTE_REQUIRED_SWAP_ACCOUNT_METAS,
     max_swap_account_metas = REFERENCE_QUOTE_DEFAULT_SWAP_ACCOUNT_META_BUDGET\<rparr>"

record aggregator_manifest =
  am_mode_id :: u8
  am_supports_exact_in :: bool
  am_supports_exact_out :: bool
  am_required_swap_account_metas :: u8
  am_max_swap_account_metas :: u8
  am_account_labels :: "string list"
  am_supports_spl_token :: bool
  am_supports_token_2022 :: bool
  am_supports_transfer_fee_mints :: bool

definition reference_quote_aggregator_manifest :: "account_budget \<Rightarrow> aggregator_manifest" where
  "reference_quote_aggregator_manifest budget =
    \<lparr>am_mode_id = REFERENCE_QUOTE_MODE_ID, am_supports_exact_in = True,
     am_supports_exact_out = False,
     am_required_swap_account_metas = required_swap_account_metas budget,
     am_max_swap_account_metas = max_swap_account_metas budget,
     am_account_labels = REFERENCE_QUOTE_SWAP_ACCOUNT_LABELS,
     am_supports_spl_token = True, am_supports_token_2022 = True,
     am_supports_transfer_fee_mints = False\<rparr>"

record token_pair_identity =
  tp_base_mint :: pubkey
  tp_quote_mint :: pubkey
  tp_base_token_program :: pubkey
  tp_quote_token_program :: pubkey
  tp_base_decimals :: u8
  tp_quote_decimals :: u8

definition pair_decimal_scale_preimage :: "token_pair_identity \<Rightarrow> decimal_scale_preimage" where
  "pair_decimal_scale_preimage pair =
    \<lparr>pre_base_mint = tp_base_mint pair, pre_quote_mint = tp_quote_mint pair,
     pre_base_token_program = tp_base_token_program pair,
     pre_quote_token_program = tp_quote_token_program pair,
     pre_base_decimals = tp_base_decimals pair, pre_quote_decimals = tp_quote_decimals pair,
     pre_price_domain = RawQuoteAtomsPerRawBaseAtom\<rparr>"

record config_input =
  in_strategy :: strategy_config
  in_token_pair :: token_pair_identity
  in_account_budget :: account_budget

record compiled_config =
  cc_schema_version :: u16
  cc_mode :: strategy_mode
  cc_params :: reference_quote_params
  cc_quote_update_envelope :: quote_update_envelope
  cc_token_pair :: token_pair_identity
  cc_decimal_scale_preimage :: decimal_scale_preimage
  cc_account_budget :: account_budget

datatype bps_field =
    Fee | BaseHalfSpread | AgingSurchargePerSlot | MaxAgingSurcharge
  | InventorySkewPer10kImbalance | MaxInventorySkew

datatype config_error =
    BpsOutOfRange bps_field | SlotWindowInvalid | TradeLimitInvalid | WorstCaseSpreadInvalid
  | InventoryBandInvalid | QuoteUpdateEnvelopeInvalid | AccountBudgetInvalid
  | DecimalScaleInvalid math_error

section \<open>Validation and compilation\<close>

definition validate_bps :: "bps_field \<Rightarrow> u16 \<Rightarrow> config_error + unit" where
  "validate_bps field value = (if BASIS_POINTS \<le> value then Err (BpsOutOfRange field) else Ok ())"

definition validate_reference_quote_params :: "reference_quote_params \<Rightarrow> config_error + unit" where
  "validate_reference_quote_params params =
    and_then (validate_bps Fee (fee_bps params)) (\<lambda>_.
    and_then (validate_bps BaseHalfSpread (base_half_spread_bps params)) (\<lambda>_.
    and_then (validate_bps AgingSurchargePerSlot (aging_surcharge_bps_per_slot params)) (\<lambda>_.
    and_then (validate_bps MaxAgingSurcharge (max_aging_surcharge_bps params)) (\<lambda>_.
    and_then (validate_bps InventorySkewPer10kImbalance
               (inventory_skew_bps_per_10k_imbalance params)) (\<lambda>_.
    and_then (validate_bps MaxInventorySkew (max_inventory_skew_bps params)) (\<lambda>_.
    if expire_slots params = 0 \<or> protected_start_slots params < aging_start_slots params
        \<or> expire_slots params \<le> protected_start_slots params then Err SlotWindowInvalid
    else if max_trade_base_atoms params = 0 \<or> protected_max_trade_base_atoms params = 0
        \<or> max_trade_base_atoms params < protected_max_trade_base_atoms params
      then Err TradeLimitInvalid
    else if hard_inventory_band_bps params = 0 \<or> BASIS_POINTS < hard_inventory_band_bps params
      then Err InventoryBandInvalid
    else
      let worst_case_spread =
        saturating_add (saturating_add (ucast (base_half_spread_bps params) :: u32)
          (ucast (max_aging_surcharge_bps params))) (ucast (max_inventory_skew_bps params))
      in if ucast BASIS_POINTS \<le> worst_case_spread then Err WorstCaseSpreadInvalid
         else Ok ()))))))"

definition validate_quote_update_envelope :: "quote_update_envelope \<Rightarrow> u64 \<Rightarrow> config_error + unit" where
  "validate_quote_update_envelope envelope expire =
    (if max_maker_update_period_slots envelope = 0
        \<or> min_update_success_probability_bps envelope = 0
        \<or> BASIS_POINTS < min_update_success_probability_bps envelope
        \<or> expire \<le> max_landing_latency_slots envelope then Err QuoteUpdateEnvelopeInvalid
     else
       and_then (ok_or QuoteUpdateEnvelopeInvalid
         (checked_add (max_maker_update_period_slots envelope) (max_landing_latency_slots envelope)))
       (\<lambda>no_drop_refresh_age.
       if expire \<le> no_drop_refresh_age then Err QuoteUpdateEnvelopeInvalid else Ok ()))"

definition validate_account_budget :: "account_budget \<Rightarrow> config_error + unit" where
  "validate_account_budget budget =
    (if required_swap_account_metas budget = 0 \<or> max_swap_account_metas budget = 0
        \<or> required_swap_account_metas budget < REFERENCE_QUOTE_REQUIRED_SWAP_ACCOUNT_METAS
        \<or> max_swap_account_metas budget < required_swap_account_metas budget
     then Err AccountBudgetInvalid else Ok ())"

definition compile_reference_quote_config :: "config_input \<Rightarrow> config_error + compiled_config" where
  "compile_reference_quote_config input =
    and_then (validate_reference_quote_params (st_params (in_strategy input))) (\<lambda>_.
    and_then (validate_quote_update_envelope (st_quote_update_envelope (in_strategy input))
               (expire_slots (st_params (in_strategy input)))) (\<lambda>_.
    and_then (validate_account_budget (in_account_budget input)) (\<lambda>_.
    and_then (map_err DecimalScaleInvalid
      (decimal_scale_new (tp_base_decimals (in_token_pair input))
        (tp_quote_decimals (in_token_pair input)))) (\<lambda>_.
    Ok \<lparr>cc_schema_version = CONFIG_SCHEMA_VERSION, cc_mode = ReferenceQuote,
        cc_params = st_params (in_strategy input),
        cc_quote_update_envelope = st_quote_update_envelope (in_strategy input),
        cc_token_pair = in_token_pair input,
        cc_decimal_scale_preimage = pair_decimal_scale_preimage (in_token_pair input),
        cc_account_budget = in_account_budget input\<rparr>))))"

section \<open>What compiles\<close>

definition config_params_ok :: "reference_quote_params \<Rightarrow> bool" where
  "config_params_ok p \<longleftrightarrow>
     fee_bps p < 10000 \<and> base_half_spread_bps p < 10000 \<and> aging_surcharge_bps_per_slot p < 10000
   \<and> max_aging_surcharge_bps p < 10000 \<and> inventory_skew_bps_per_10k_imbalance p < 10000
   \<and> max_inventory_skew_bps p < 10000
   \<and> aging_start_slots p \<le> protected_start_slots p \<and> protected_start_slots p < expire_slots p
   \<and> 0 < protected_max_trade_base_atoms p \<and> protected_max_trade_base_atoms p \<le> max_trade_base_atoms p
   \<and> 0 < hard_inventory_band_bps p \<and> hard_inventory_band_bps p \<le> 10000
   \<and> unat (base_half_spread_bps p) + unat (max_aging_surcharge_bps p)
       + unat (max_inventory_skew_bps p) < 10000"

lemma validate_bps_Ok [simp]: "validate_bps f v = Ok u \<longleftrightarrow> v < 10000"
  by (auto simp: validate_bps_def BASIS_POINTS_def)

lemma worst_case_spread:
  "ucast BASIS_POINTS \<le> saturating_add (saturating_add (ucast a :: u32) (ucast b)) (ucast c)
    \<longleftrightarrow> 10000 \<le> unat a + unat b + unat c" for a b c :: u16
proof -
  have "unat a + unat b + unat c < 2 ^ 32"
    using u16_bound[of a] u16_bound[of b] u16_bound[of c] by simp
  then show ?thesis
    by (simp add: word_le_nat_alt unat_saturating_add BASIS_POINTS_def)
qed

lemma validate_reference_quote_params_Ok:
  "validate_reference_quote_params p = Ok () \<longleftrightarrow> config_params_ok p"
  unfolding validate_reference_quote_params_def Let_def worst_case_spread
  by (auto simp: and_then_eq_Ok config_params_ok_def not_less not_le word_gt_0 BASIS_POINTS_def
      split: if_splits)

definition envelope_ok :: "quote_update_envelope \<Rightarrow> u64 \<Rightarrow> bool" where
  "envelope_ok e expire \<longleftrightarrow> 0 < max_maker_update_period_slots e
     \<and> 0 < min_update_success_probability_bps e \<and> min_update_success_probability_bps e \<le> 10000
     \<and> unat (max_maker_update_period_slots e) + unat (max_landing_latency_slots e) < unat expire"

lemma validate_envelope_Ok:
  "validate_quote_update_envelope e x = Ok () \<longleftrightarrow> envelope_ok e x"
proof (cases "checked_add (max_maker_update_period_slots e) (max_landing_latency_slots e)")
  case None
  then have "\<not> envelope_ok e x"
    using u64_bound[of x] by (auto simp: checked_add_eq_None envelope_ok_def)
  with None show ?thesis by (simp add: validate_quote_update_envelope_def)
next
  case (Some n)
  then have n: "unat n = unat (max_maker_update_period_slots e) + unat (max_landing_latency_slots e)"
    by (simp add: checked_add_eq_Some)
  have "unat (max_landing_latency_slots e) < unat x" if "unat n < unat x" using that n by simp
  with Some show ?thesis
    by (auto simp: validate_quote_update_envelope_def envelope_ok_def BASIS_POINTS_def word_gt_0
        not_le not_less word_less_nat_alt word_le_nat_alt n unat_gt_0)
qed

definition budget_ok :: "account_budget \<Rightarrow> bool" where
  "budget_ok b \<longleftrightarrow> 13 \<le> required_swap_account_metas b
     \<and> required_swap_account_metas b \<le> max_swap_account_metas b"

lemma validate_account_budget_Ok: "validate_account_budget b = Ok () \<longleftrightarrow> budget_ok b"
  by (auto simp: validate_account_budget_def budget_ok_def REFERENCE_QUOTE_REQUIRED_SWAP_ACCOUNT_METAS_def
      word_le_nat_alt word_less_nat_alt word_eq_iff_unat)

lemma decimal_scale_new_Ok: "(\<exists>s. decimal_scale_new b q = Ok s) \<longleftrightarrow> b \<le> 12 \<and> q \<le> 12"
  by (simp add: decimal_scale_new_spec)

definition input_ok :: "config_input \<Rightarrow> bool" where
  "input_ok input \<longleftrightarrow> config_params_ok (st_params (in_strategy input))
     \<and> envelope_ok (st_quote_update_envelope (in_strategy input))
         (expire_slots (st_params (in_strategy input)))
     \<and> budget_ok (in_account_budget input)
     \<and> tp_base_decimals (in_token_pair input) \<le> 12 \<and> tp_quote_decimals (in_token_pair input) \<le> 12"

definition compiled_from :: "config_input \<Rightarrow> compiled_config" where
  "compiled_from input =
    \<lparr>cc_schema_version = CONFIG_SCHEMA_VERSION, cc_mode = ReferenceQuote,
     cc_params = st_params (in_strategy input),
     cc_quote_update_envelope = st_quote_update_envelope (in_strategy input),
     cc_token_pair = in_token_pair input,
     cc_decimal_scale_preimage = pair_decimal_scale_preimage (in_token_pair input),
     cc_account_budget = in_account_budget input\<rparr>"

lemma compile_Ok:
  "compile_reference_quote_config input = Ok c \<longleftrightarrow> input_ok input \<and> c = compiled_from input"
  using decimal_scale_new_Ok[of "tp_base_decimals (in_token_pair input)" "tp_quote_decimals (in_token_pair input)"]
  by (auto simp: compile_reference_quote_config_def and_then_eq_Ok map_err_eq compiled_from_def
      validate_reference_quote_params_Ok validate_envelope_Ok validate_account_budget_Ok input_ok_def)

section \<open>A compiled configuration at run time\<close>

lemma config_params_runtime: "config_params_ok p \<Longrightarrow> params_valid p"
  by (auto simp: config_params_ok_def params_valid_iff)

lemma spread_bound: "uint (applied_spread s p) \<le> uint (base_half_spread_bps p) + uint (max_aging_surcharge_bps p)"
proof -
  have "unat (applied_spread s p) \<le> unat (base_half_spread_bps p) + unat (max_aging_surcharge_bps p)"
    unfolding applied_spread_def unat_saturating_add aging_surcharge_eq by linarith
  then show ?thesis
    by (metis of_nat_add of_nat_le_iff uint_nat)
qed

text \<open>The worst-case check is exactly what keeps the price factor positive.\<close>

lemma sum3_uint: "uint a + uint b + uint c < 10000 \<longleftrightarrow> unat a + unat b + unat c < 10000"
  for a b c :: u16
proof -
  have "int (unat a + unat b + unat c) < int 10000 \<longleftrightarrow> unat a + unat b + unat c < 10000"
    by (rule of_nat_less_iff)
  then show ?thesis by simp
qed

lemma factor_arith:
  fixes a b c k s :: int
  assumes "a + b + c < 10000" "k \<le> c" "s \<le> a + b" "0 \<le> s"
  shows "0 < 10000 + (if b2q then - s else s) - k"
  using assms by (cases b2q) auto

lemma factor_positive:
  assumes "config_params_ok p"
  shows "0 < factor_bps (applied_spread s p) (current_skew s p) b2q"
proof -
  have "unat (base_half_spread_bps p) + unat (max_aging_surcharge_bps p)
      + unat (max_inventory_skew_bps p) < 10000"
    using assms by (simp add: config_params_ok_def)
  then have "uint (base_half_spread_bps p) + uint (max_aging_surcharge_bps p)
      + uint (max_inventory_skew_bps p) < 10000"
    by (simp add: sum3_uint)
  moreover have "current_skew s p \<le> uint (max_inventory_skew_bps p)"
    by (simp add: current_skew_def skew_bounds)
  ultimately show ?thesis
    unfolding factor_bps_def by (rule factor_arith[OF _ _ spread_bound uint_u16_bounds(1)])
qed

lemma effective_price_not_invalid:
  assumes "config_params_ok p"
  shows "effective_price mid (applied_spread s p) (current_skew s p) b2q \<noteq> Err InvalidConfig"
proof
  assume err: "effective_price mid (applied_spread s p) (current_skew s p) b2q = Err InvalidConfig"
  with factor_positive[OF assms, of s b2q] show False
    by (auto simp: effective_price_eq map_ok_eq mdf.md_Err_iff split: if_splits)
qed

lemma reference_fill_not_invalid: "reference_fill s a net price b2q \<noteq> Err InvalidConfig"
  by (auto simp: reference_fill_def result_simps dest: mul_amount_floor_Err div_amount_floor_Err
      split: if_splits)

lemma swap_not_invalid:
  assumes ok: "config_params_ok p" and target: "target_base_inventory s \<noteq> 0"
  shows "reference_quote_exact_in s p a b2q \<noteq> Err InvalidConfig"
proof (cases "swap_open s p a")
  case False
  from swap_closed[OF config_params_runtime[OF ok] target this, of b2q] show ?thesis by auto
next
  case True
  show ?thesis
    unfolding swap_open_eq[OF True] and_then_eq_Err
    using effective_price_not_invalid[OF ok] reference_fill_not_invalid
    by (auto simp: base_equivalent_amount_def amount_less_fee_def Let_def result_simps
        dest: div_amount_floor_Err split: if_splits)
qed

section \<open>Properties\<close>

text \<open>
  C16: a configuration compiles exactly when every bound holds: all basis points below 10000,
  ordered age windows, ordered trade limits, a hard band in (0, 10000], spread plus surcharge
  plus skew below 100%, an update envelope that refreshes before expiry, enough account metas,
  and at most 12 decimals; and the compiled value carries the input unchanged.
\<close>

theorem config_compiles_exactly:
  "compile_reference_quote_config input = Ok c \<longleftrightarrow> input_ok input \<and> c = compiled_from input"
  by (rule compile_Ok)

text \<open>
  C17: with parameters that pass validation, a swap on a pool with a non-zero target never
  reports \<open>InvalidConfig\<close>: the spread, surcharge and skew can never drive the price factor to
  zero or below.
\<close>

theorem compiled_config_never_invalid:
  assumes "compile_reference_quote_config input = Ok c" and "target_base_inventory s \<noteq> 0"
  shows "reference_quote_exact_in s (cc_params c) a b2q \<noteq> Err InvalidConfig"
  using assms swap_not_invalid[of "cc_params c" s a b2q]
  by (auto simp: compile_Ok input_ok_def compiled_from_def)

definition example_pair :: token_pair_identity where
  "example_pair = \<lparr>tp_base_mint = replicate 32 1, tp_quote_mint = replicate 32 2,
     tp_base_token_program = replicate 32 3, tp_quote_token_program = replicate 32 4,
     tp_base_decimals = 9, tp_quote_decimals = 6\<rparr>"

definition example_envelope :: quote_update_envelope where
  "example_envelope = \<lparr>max_maker_update_period_slots = 4, max_landing_latency_slots = 2,
     min_update_success_probability_bps = 9500, same_slot_order = UpdateBeforeSwap\<rparr>"

definition example_input :: config_input where
  "example_input = \<lparr>in_strategy = \<lparr>st_params = example_params,
       st_quote_update_envelope = example_envelope\<rparr>,
     in_token_pair = example_pair, in_account_budget = reference_quote_jupiter_default\<rparr>"

lemma example_input_ok: "input_ok example_input"
  by (simp add: input_ok_def example_input_def config_params_ok_def example_params_def
      envelope_ok_def example_envelope_def budget_ok_def reference_quote_jupiter_default_def
      REFERENCE_QUOTE_REQUIRED_SWAP_ACCOUNT_METAS_def
      REFERENCE_QUOTE_DEFAULT_SWAP_ACCOUNT_META_BUDGET_def example_pair_def)

theorem compiled_config_never_invalid_witness:
  "is_ok (compile_reference_quote_config example_input)
    \<and> reference_quote_exact_in example_state (cc_params (compiled_from example_input)) 1000000 True
       \<noteq> Err InvalidConfig"
proof -
  have c: "compile_reference_quote_config example_input = Ok (compiled_from example_input)"
    using compile_Ok example_input_ok by blast
  have t: "target_base_inventory example_state \<noteq> 0" by (simp add: example_state_def)
  from compiled_config_never_invalid[OF c t] c show ?thesis by simp
qed

text \<open>
  A maker whose last landed update was published no longer ago than its update period plus
  its landing latency has a quote that is not expired, in every compiled configuration.
\<close>

lemma envelope_keeps_quote_alive:
  assumes "compile_reference_quote_config input = Ok c" and "\<not> paused s"
    and "quote_age s \<le> unat (max_maker_update_period_slots (cc_quote_update_envelope c))
          + unat (max_landing_latency_slots (cc_quote_update_envelope c))"
  shows "\<exists>st. quote_age_state s (cc_params c) = Ok st \<and> st \<noteq> Expired \<and> st \<noteq> Paused"
proof -
  have ok: "params_valid (cc_params c)" and age: "quote_age s < unat (expire_slots (cc_params c))"
    using assms config_params_runtime
    by (auto simp: compile_Ok input_ok_def compiled_from_def envelope_ok_def)
  then show ?thesis using assms(2) by (simp add: quote_age_state_eq age_state_of_def)
qed

theorem envelope_keeps_quote_alive_witness:
  "\<exists>st. quote_age_state example_state (cc_params (compiled_from example_input)) = Ok st \<and> st \<noteq> Expired"
proof -
  have c: "compile_reference_quote_config example_input = Ok (compiled_from example_input)"
    using compile_Ok example_input_ok by blast
  have "\<not> paused example_state" by (simp add: example_state_def)
  moreover have "quote_age example_state
      \<le> unat (max_maker_update_period_slots (cc_quote_update_envelope (compiled_from example_input)))
        + unat (max_landing_latency_slots (cc_quote_update_envelope (compiled_from example_input)))"
    by (simp add: quote_age_def example_state_def compiled_from_def example_input_def example_envelope_def)
  ultimately show ?thesis using envelope_keeps_quote_alive[OF c] by blast
qed

end
