(* ===== verification/Config_Layout.thy ===== *)
theory Config_Layout imports Config begin

text \<open>
  The byte layout of the pool configuration account, \<open>crates/meta_amm_config/src/lib.rs\<close>:
  the \<open>repr(C)\<close> structures, the manual writer \<open>to_bytes\<close> and the reader of the parameters.
  Shown: the writer fills exactly its 448 bytes, the reader recovers the parameters, and the
  same-slot order byte stands at its published offset.
\<close>

section \<open>Layout structures\<close>

definition REFERENCE_QUOTE_POOL_CONFIG_DISCRIMINATOR :: "u8 list" where
  "REFERENCE_QUOTE_POOL_CONFIG_DISCRIMINATOR = byte_string ''MAMMCFG1''"

definition REFERENCE_QUOTE_POOL_CONFIG_RESERVED_BYTES :: nat where
  "REFERENCE_QUOTE_POOL_CONFIG_RESERVED_BYTES = 64"

definition REFERENCE_QUOTE_POOL_CONFIG_MAX_BYTES :: nat where
  "REFERENCE_QUOTE_POOL_CONFIG_MAX_BYTES = 512"

definition REFERENCE_QUOTE_POOL_CONFIG_PARAMS_OFFSET :: nat where
  "REFERENCE_QUOTE_POOL_CONFIG_PARAMS_OFFSET = 8 + 8"

definition REFERENCE_QUOTE_POOL_CONFIG_SAME_SLOT_ORDER_OFFSET :: nat where
  "REFERENCE_QUOTE_POOL_CONFIG_SAME_SLOT_ORDER_OFFSET = 8 + 8 + 56 + 8 + 8 + 2"

text \<open>Held equal to the account length by a compile-time assertion of the source.\<close>

definition REFERENCE_QUOTE_POOL_CONFIG_WRITER_LEN :: nat where
  "REFERENCE_QUOTE_POOL_CONFIG_WRITER_LEN =
    8 + (2 + 1 + 1 + 1 + 3) + (5 * 8 + 7 * 2 + 2) + (2 * 8 + 2 + 1 + 5) + (1 + 1) + 4 * 32
    + DECIMAL_SCALE_PREIMAGE_LEN + REFERENCE_QUOTE_POOL_CONFIG_RESERVED_BYTES + 2"

record header_layout =
  hl_schema_version :: u16
  hl_mode :: u8
  hl_paused :: u8
  hl_authority_bump :: u8
  hl_padding :: "u8 list"

record params_layout =
  pl_aging_start_slots :: u64
  pl_protected_start_slots :: u64
  pl_expire_slots :: u64
  pl_max_trade_base_atoms :: u64
  pl_protected_max_trade_base_atoms :: u64
  pl_fee_bps :: u16
  pl_base_half_spread_bps :: u16
  pl_aging_surcharge_bps_per_slot :: u16
  pl_max_aging_surcharge_bps :: u16
  pl_inventory_skew_bps_per_10k_imbalance :: u16
  pl_max_inventory_skew_bps :: u16
  pl_hard_inventory_band_bps :: u16
  pl_padding :: "u8 list"

record envelope_layout =
  el_max_maker_update_period_slots :: u64
  el_max_landing_latency_slots :: u64
  el_min_update_success_probability_bps :: u16
  el_same_slot_order :: u8
  el_padding :: "u8 list"

record budget_layout =
  bl_required_swap_account_metas :: u8
  bl_max_swap_account_metas :: u8

record config_account_layout =
  la_discriminator :: "u8 list"
  la_header :: header_layout
  la_params :: params_layout
  la_quote_update_envelope :: envelope_layout
  la_account_budget :: budget_layout
  la_base_mint :: pubkey
  la_quote_mint :: pubkey
  la_base_token_program :: pubkey
  la_quote_token_program :: pubkey
  la_decimal_scale_preimage :: "u8 list"
  la_reserved :: "u8 list"
  la_trailing_padding :: "u8 list"

definition params_layout_from_params :: "reference_quote_params \<Rightarrow> params_layout" where
  "params_layout_from_params p =
    \<lparr>pl_aging_start_slots = aging_start_slots p,
     pl_protected_start_slots = protected_start_slots p,
     pl_expire_slots = expire_slots p,
     pl_max_trade_base_atoms = max_trade_base_atoms p,
     pl_protected_max_trade_base_atoms = protected_max_trade_base_atoms p,
     pl_fee_bps = fee_bps p,
     pl_base_half_spread_bps = base_half_spread_bps p,
     pl_aging_surcharge_bps_per_slot = aging_surcharge_bps_per_slot p,
     pl_max_aging_surcharge_bps = max_aging_surcharge_bps p,
     pl_inventory_skew_bps_per_10k_imbalance = inventory_skew_bps_per_10k_imbalance p,
     pl_max_inventory_skew_bps = max_inventory_skew_bps p,
     pl_hard_inventory_band_bps = hard_inventory_band_bps p,
     pl_padding = replicate 2 0\<rparr>"

definition params_layout_to_params :: "params_layout \<Rightarrow> reference_quote_params" where
  "params_layout_to_params l =
    \<lparr>fee_bps = pl_fee_bps l,
     base_half_spread_bps = pl_base_half_spread_bps l,
     aging_start_slots = pl_aging_start_slots l,
     protected_start_slots = pl_protected_start_slots l,
     expire_slots = pl_expire_slots l,
     aging_surcharge_bps_per_slot = pl_aging_surcharge_bps_per_slot l,
     max_aging_surcharge_bps = pl_max_aging_surcharge_bps l,
     max_trade_base_atoms = pl_max_trade_base_atoms l,
     protected_max_trade_base_atoms = pl_protected_max_trade_base_atoms l,
     inventory_skew_bps_per_10k_imbalance = pl_inventory_skew_bps_per_10k_imbalance l,
     max_inventory_skew_bps = pl_max_inventory_skew_bps l,
     hard_inventory_band_bps = pl_hard_inventory_band_bps l\<rparr>"

definition same_slot_update_order_to_u8 :: "same_slot_update_order \<Rightarrow> u8" where
  "same_slot_update_order_to_u8 order =
    (case order of UpdateBeforeSwap \<Rightarrow> 0 | SwapBeforeUpdate \<Rightarrow> 1)"

definition envelope_layout_from_envelope :: "quote_update_envelope \<Rightarrow> envelope_layout" where
  "envelope_layout_from_envelope e =
    \<lparr>el_max_maker_update_period_slots = max_maker_update_period_slots e,
     el_max_landing_latency_slots = max_landing_latency_slots e,
     el_min_update_success_probability_bps = min_update_success_probability_bps e,
     el_same_slot_order = same_slot_update_order_to_u8 (same_slot_order e),
     el_padding = replicate 5 0\<rparr>"

definition budget_layout_from_budget :: "account_budget \<Rightarrow> budget_layout" where
  "budget_layout_from_budget b =
    \<lparr>bl_required_swap_account_metas = required_swap_account_metas b,
     bl_max_swap_account_metas = max_swap_account_metas b\<rparr>"

definition layout_from_compiled :: "compiled_config \<Rightarrow> u8 \<Rightarrow> bool \<Rightarrow> config_account_layout option" where
  "layout_from_compiled compiled authority_bump paused_flag = do {
     pre \<leftarrow> preimage_to_bytes (cc_decimal_scale_preimage compiled);
     Some \<lparr>la_discriminator = REFERENCE_QUOTE_POOL_CONFIG_DISCRIMINATOR,
       la_header = \<lparr>hl_schema_version = cc_schema_version compiled,
         hl_mode = strategy_mode_as_u8 (cc_mode compiled), hl_paused = of_bool paused_flag,
         hl_authority_bump = authority_bump, hl_padding = replicate 3 0\<rparr>,
       la_params = params_layout_from_params (cc_params compiled),
       la_quote_update_envelope = envelope_layout_from_envelope (cc_quote_update_envelope compiled),
       la_account_budget = budget_layout_from_budget (cc_account_budget compiled),
       la_base_mint = tp_base_mint (cc_token_pair compiled),
       la_quote_mint = tp_quote_mint (cc_token_pair compiled),
       la_base_token_program = tp_base_token_program (cc_token_pair compiled),
       la_quote_token_program = tp_quote_token_program (cc_token_pair compiled),
       la_decimal_scale_preimage = pre,
       la_reserved = replicate REFERENCE_QUOTE_POOL_CONFIG_RESERVED_BYTES 0,
       la_trailing_padding = replicate 2 0\<rparr>}"

section \<open>The writer\<close>

definition write_header :: "header_layout \<Rightarrow> byte_cursor \<Rightarrow> byte_cursor option" where
  "write_header h c = do {
     c \<leftarrow> put_u16 (hl_schema_version h) c;
     c \<leftarrow> put_u8 (hl_mode h) c;
     c \<leftarrow> put_u8 (hl_paused h) c;
     c \<leftarrow> put_u8 (hl_authority_bump h) c;
     put_bytes (hl_padding h) c}"

definition write_params :: "params_layout \<Rightarrow> byte_cursor \<Rightarrow> byte_cursor option" where
  "write_params p c = do {
     c \<leftarrow> put_u64 (pl_aging_start_slots p) c;
     c \<leftarrow> put_u64 (pl_protected_start_slots p) c;
     c \<leftarrow> put_u64 (pl_expire_slots p) c;
     c \<leftarrow> put_u64 (pl_max_trade_base_atoms p) c;
     c \<leftarrow> put_u64 (pl_protected_max_trade_base_atoms p) c;
     c \<leftarrow> put_u16 (pl_fee_bps p) c;
     c \<leftarrow> put_u16 (pl_base_half_spread_bps p) c;
     c \<leftarrow> put_u16 (pl_aging_surcharge_bps_per_slot p) c;
     c \<leftarrow> put_u16 (pl_max_aging_surcharge_bps p) c;
     c \<leftarrow> put_u16 (pl_inventory_skew_bps_per_10k_imbalance p) c;
     c \<leftarrow> put_u16 (pl_max_inventory_skew_bps p) c;
     c \<leftarrow> put_u16 (pl_hard_inventory_band_bps p) c;
     put_bytes (pl_padding p) c}"

definition write_envelope :: "envelope_layout \<Rightarrow> byte_cursor \<Rightarrow> byte_cursor option" where
  "write_envelope e c = do {
     c \<leftarrow> put_u64 (el_max_maker_update_period_slots e) c;
     c \<leftarrow> put_u64 (el_max_landing_latency_slots e) c;
     c \<leftarrow> put_u16 (el_min_update_success_probability_bps e) c;
     c \<leftarrow> put_u8 (el_same_slot_order e) c;
     put_bytes (el_padding e) c}"

definition layout_to_bytes :: "config_account_layout \<Rightarrow> u8 list option" where
  "layout_to_bytes a = do {
     c \<leftarrow> put_bytes (la_discriminator a) (replicate REFERENCE_QUOTE_POOL_CONFIG_WRITER_LEN 0, 0);
     c \<leftarrow> write_header (la_header a) c;
     c \<leftarrow> write_params (la_params a) c;
     c \<leftarrow> write_envelope (la_quote_update_envelope a) c;
     c \<leftarrow> put_u8 (bl_required_swap_account_metas (la_account_budget a)) c;
     c \<leftarrow> put_u8 (bl_max_swap_account_metas (la_account_budget a)) c;
     c \<leftarrow> put_bytes (la_base_mint a) c;
     c \<leftarrow> put_bytes (la_quote_mint a) c;
     c \<leftarrow> put_bytes (la_base_token_program a) c;
     c \<leftarrow> put_bytes (la_quote_token_program a) c;
     c \<leftarrow> put_bytes (la_decimal_scale_preimage a) c;
     c \<leftarrow> put_bytes (la_reserved a) c;
     c \<leftarrow> put_bytes (la_trailing_padding a) c;
     Some (fst c)}"

section \<open>The reader\<close>

definition params_from_pool_config_bytes :: "u8 list \<Rightarrow> reference_quote_params option" where
  "params_from_pool_config_bytes source = do {
     (a, off) \<leftarrow> read_u64 source REFERENCE_QUOTE_POOL_CONFIG_PARAMS_OFFSET;
     (b, off) \<leftarrow> read_u64 source off;
     (c, off) \<leftarrow> read_u64 source off;
     (d, off) \<leftarrow> read_u64 source off;
     (e, off) \<leftarrow> read_u64 source off;
     (f, off) \<leftarrow> read_u16 source off;
     (g, off) \<leftarrow> read_u16 source off;
     (h, off) \<leftarrow> read_u16 source off;
     (i, off) \<leftarrow> read_u16 source off;
     (j, off) \<leftarrow> read_u16 source off;
     (k, off) \<leftarrow> read_u16 source off;
     (l, off) \<leftarrow> read_u16 source off;
     (m, off) \<leftarrow> read_2 source off;
     Some (params_layout_to_params
       \<lparr>pl_aging_start_slots = a, pl_protected_start_slots = b, pl_expire_slots = c,
        pl_max_trade_base_atoms = d, pl_protected_max_trade_base_atoms = e, pl_fee_bps = f,
        pl_base_half_spread_bps = g, pl_aging_surcharge_bps_per_slot = h,
        pl_max_aging_surcharge_bps = i, pl_inventory_skew_bps_per_10k_imbalance = j,
        pl_max_inventory_skew_bps = k, pl_hard_inventory_band_bps = l, pl_padding = m\<rparr>)}"

definition compile_pool_config_account ::
    "config_input \<Rightarrow> u8 \<Rightarrow> bool \<Rightarrow> (config_error + config_account_layout) option" where
  "compile_pool_config_account input authority_bump paused_flag =
    (case compile_reference_quote_config input of
       Err e \<Rightarrow> Some (Err e)
     | Ok compiled \<Rightarrow> map_option Ok (layout_from_compiled compiled authority_bump paused_flag))"

section \<open>What the writer writes\<close>

lemma WRITER_LEN_eq: "REFERENCE_QUOTE_POOL_CONFIG_WRITER_LEN = 448"
  by (simp add: REFERENCE_QUOTE_POOL_CONFIG_WRITER_LEN_def REFERENCE_QUOTE_POOL_CONFIG_RESERVED_BYTES_def)

definition header_bytes :: "header_layout \<Rightarrow> u8 list" where
  "header_bytes h = to_le_bytes 2 (hl_schema_version h)
     @ [hl_mode h, hl_paused h, hl_authority_bump h] @ hl_padding h"

definition params_bytes :: "params_layout \<Rightarrow> u8 list" where
  "params_bytes p = to_le_bytes 8 (pl_aging_start_slots p) @ to_le_bytes 8 (pl_protected_start_slots p)
     @ to_le_bytes 8 (pl_expire_slots p) @ to_le_bytes 8 (pl_max_trade_base_atoms p)
     @ to_le_bytes 8 (pl_protected_max_trade_base_atoms p)
     @ to_le_bytes 2 (pl_fee_bps p) @ to_le_bytes 2 (pl_base_half_spread_bps p)
     @ to_le_bytes 2 (pl_aging_surcharge_bps_per_slot p) @ to_le_bytes 2 (pl_max_aging_surcharge_bps p)
     @ to_le_bytes 2 (pl_inventory_skew_bps_per_10k_imbalance p)
     @ to_le_bytes 2 (pl_max_inventory_skew_bps p)
     @ to_le_bytes 2 (pl_hard_inventory_band_bps p) @ pl_padding p"

definition envelope_bytes :: "envelope_layout \<Rightarrow> u8 list" where
  "envelope_bytes e = to_le_bytes 8 (el_max_maker_update_period_slots e)
     @ to_le_bytes 8 (el_max_landing_latency_slots e)
     @ to_le_bytes 2 (el_min_update_success_probability_bps e) @ [el_same_slot_order e] @ el_padding e"

lemma write_header_cursor [cursor_simps]:
  "length (hl_padding h) = 3 \<Longrightarrow> 8 \<le> n \<Longrightarrow>
   write_header h (cursor p n) = Some (cursor (p @ header_bytes h) (n - 8))"
  by (simp add: write_header_def header_bytes_def cursor_simps)

lemma write_params_cursor [cursor_simps]:
  "length (pl_padding l) = 2 \<Longrightarrow> 56 \<le> n \<Longrightarrow>
   write_params l (cursor p n) = Some (cursor (p @ params_bytes l) (n - 56))"
  by (simp add: write_params_def params_bytes_def cursor_simps)

lemma write_envelope_cursor [cursor_simps]:
  "length (el_padding e) = 5 \<Longrightarrow> 24 \<le> n \<Longrightarrow>
   write_envelope e (cursor p n) = Some (cursor (p @ envelope_bytes e) (n - 24))"
  by (simp add: write_envelope_def envelope_bytes_def cursor_simps)

definition layout_wf :: "config_account_layout \<Rightarrow> bool" where
  "layout_wf a \<longleftrightarrow> length (la_discriminator a) = 8 \<and> length (hl_padding (la_header a)) = 3
     \<and> length (pl_padding (la_params a)) = 2 \<and> length (el_padding (la_quote_update_envelope a)) = 5
     \<and> is_pubkey (la_base_mint a) \<and> is_pubkey (la_quote_mint a)
     \<and> is_pubkey (la_base_token_program a) \<and> is_pubkey (la_quote_token_program a)
     \<and> length (la_decimal_scale_preimage a) = 156 \<and> length (la_reserved a) = 64
     \<and> length (la_trailing_padding a) = 2"

definition layout_bytes :: "config_account_layout \<Rightarrow> u8 list" where
  "layout_bytes a = la_discriminator a @ header_bytes (la_header a) @ params_bytes (la_params a)
     @ envelope_bytes (la_quote_update_envelope a)
     @ [bl_required_swap_account_metas (la_account_budget a), bl_max_swap_account_metas (la_account_budget a)]
     @ la_base_mint a @ la_quote_mint a @ la_base_token_program a @ la_quote_token_program a
     @ la_decimal_scale_preimage a @ la_reserved a @ la_trailing_padding a"

lemma layout_to_bytes_eq: "layout_wf a \<Longrightarrow> layout_to_bytes a = Some (layout_bytes a)"
  unfolding layout_to_bytes_def layout_bytes_def layout_wf_def is_pubkey_def WRITER_LEN_eq cursor_start
  by (simp add: cursor_simps)

lemma length_header_bytes: "length (hl_padding h) = 3 \<Longrightarrow> length (header_bytes h) = 8"
  and length_params_bytes: "length (pl_padding l) = 2 \<Longrightarrow> length (params_bytes l) = 56"
  and length_envelope_bytes: "length (el_padding e) = 5 \<Longrightarrow> length (envelope_bytes e) = 24"
  by (simp_all add: header_bytes_def params_bytes_def envelope_bytes_def)

lemma length_layout_bytes: "layout_wf a \<Longrightarrow> length (layout_bytes a) = 448"
  by (simp add: layout_bytes_def layout_wf_def is_pubkey_def length_header_bytes length_params_bytes
      length_envelope_bytes)

lemma params_read_back:
  assumes "length (pl_padding l) = 2" "length p = 16"
  shows "params_from_pool_config_bytes (p @ params_bytes l @ q) = Some (params_layout_to_params l)"
  using assms
  by (cases l) (simp add: params_from_pool_config_bytes_def
      REFERENCE_QUOTE_POOL_CONFIG_PARAMS_OFFSET_def params_bytes_def read_simps)

lemma params_layout_inverse: "params_layout_to_params (params_layout_from_params p) = p"
  by (simp add: params_layout_to_params_def params_layout_from_params_def)

section \<open>A compiled account\<close>

definition pair_wf :: "token_pair_identity \<Rightarrow> bool" where
  "pair_wf pair \<longleftrightarrow> is_pubkey (tp_base_mint pair) \<and> is_pubkey (tp_quote_mint pair)
     \<and> is_pubkey (tp_base_token_program pair) \<and> is_pubkey (tp_quote_token_program pair)"

lemma pair_preimage_wf: "pair_wf pair \<Longrightarrow> preimage_wf (pair_decimal_scale_preimage pair)"
  by (simp add: pair_wf_def preimage_wf_def pair_decimal_scale_preimage_def)

lemma layout_from_compiled_wf:
  assumes "pair_wf (in_token_pair input)"
  obtains a where "layout_from_compiled (compiled_from input) bump flag = Some a" "layout_wf a"
    "la_params a = params_layout_from_params (st_params (in_strategy input))"
    "el_same_slot_order (la_quote_update_envelope a)
       = same_slot_update_order_to_u8 (same_slot_order (st_quote_update_envelope (in_strategy input)))"
    "la_decimal_scale_preimage a = preimage_bytes (pair_decimal_scale_preimage (in_token_pair input))"
    "la_discriminator a = REFERENCE_QUOTE_POOL_CONFIG_DISCRIMINATOR"
    "la_header a = \<lparr>hl_schema_version = 1, hl_mode = 1, hl_paused = of_bool flag,
       hl_authority_bump = bump, hl_padding = replicate 3 0\<rparr>"
  using assms pair_preimage_wf[OF assms] length_preimage_bytes[OF pair_preimage_wf[OF assms]]
    that[OF _ _ _ _ _ _ _]
  by (simp add: layout_from_compiled_def compiled_from_def preimage_to_bytes_eq layout_wf_def
      pair_wf_def REFERENCE_QUOTE_POOL_CONFIG_DISCRIMINATOR_def byte_string_def
      REFERENCE_QUOTE_POOL_CONFIG_RESERVED_BYTES_def params_layout_from_params_def
      envelope_layout_from_envelope_def strategy_mode_as_u8_def REFERENCE_QUOTE_MODE_ID_def
      CONFIG_SCHEMA_VERSION_def)

lemma order_byte_at:
  assumes "layout_wf a"
  shows "layout_bytes a ! 90 = el_same_slot_order (la_quote_update_envelope a)"
proof -
  let ?p = "la_discriminator a @ header_bytes (la_header a) @ params_bytes (la_params a)
      @ to_le_bytes 8 (el_max_maker_update_period_slots (la_quote_update_envelope a))
      @ to_le_bytes 8 (el_max_landing_latency_slots (la_quote_update_envelope a))
      @ to_le_bytes 2 (el_min_update_success_probability_bps (la_quote_update_envelope a))"
  obtain q where "layout_bytes a = ?p @ el_same_slot_order (la_quote_update_envelope a) # q"
    by (simp add: layout_bytes_def envelope_bytes_def)
  moreover have "length ?p = 90"
    using assms by (simp add: layout_wf_def length_header_bytes length_params_bytes)
  ultimately show ?thesis by (metis nth_append_length)
qed

lemma compiled_account_bytes:
  assumes "input_ok input" "pair_wf (in_token_pair input)"
  shows "\<exists>a bs. compile_pool_config_account input bump flag = Some (Ok a)
    \<and> layout_to_bytes a = Some bs
    \<and> length bs = REFERENCE_QUOTE_POOL_CONFIG_WRITER_LEN
    \<and> length bs \<le> REFERENCE_QUOTE_POOL_CONFIG_MAX_BYTES
    \<and> params_from_pool_config_bytes bs = Some (st_params (in_strategy input))
    \<and> bs ! REFERENCE_QUOTE_POOL_CONFIG_SAME_SLOT_ORDER_OFFSET
        = same_slot_update_order_to_u8 (same_slot_order (st_quote_update_envelope (in_strategy input)))
    \<and> take 8 bs = REFERENCE_QUOTE_POOL_CONFIG_DISCRIMINATOR"
proof -
  obtain a where a: "layout_from_compiled (compiled_from input) bump flag = Some a" "layout_wf a"
      "la_params a = params_layout_from_params (st_params (in_strategy input))"
      "el_same_slot_order (la_quote_update_envelope a)
       = same_slot_update_order_to_u8 (same_slot_order (st_quote_update_envelope (in_strategy input)))"
      "la_discriminator a = REFERENCE_QUOTE_POOL_CONFIG_DISCRIMINATOR"
    using layout_from_compiled_wf[OF assms(2)] by metis
  have c: "compile_pool_config_account input bump flag = Some (Ok a)"
    using compile_Ok[of input "compiled_from input"] assms(1) a(1)
    by (simp add: compile_pool_config_account_def)
  have len: "length (la_discriminator a @ header_bytes (la_header a)) = 16"
    "length (pl_padding (la_params a)) = 2" "length (la_discriminator a) = 8"
    using a(2) by (simp_all add: layout_wf_def length_header_bytes)
  have "params_from_pool_config_bytes (layout_bytes a) = Some (st_params (in_strategy input))"
    using params_read_back[OF len(2,1)] a(3)
    by (simp add: layout_bytes_def params_layout_inverse)
  moreover have "take 8 (layout_bytes a) = la_discriminator a"
    using len(3) by (simp add: layout_bytes_def)
  ultimately show ?thesis
    using c layout_to_bytes_eq[OF a(2)] length_layout_bytes[OF a(2)] order_byte_at[OF a(2)] a(4,5)
    by (simp add: WRITER_LEN_eq REFERENCE_QUOTE_POOL_CONFIG_MAX_BYTES_def
        REFERENCE_QUOTE_POOL_CONFIG_SAME_SLOT_ORDER_OFFSET_def)
qed

section \<open>Properties\<close>

text \<open>
  C33: for every accepted configuration, whatever the bump and pause flag, the account writer
  fills exactly its 448 bytes (within the 512-byte limit, never past its buffer); the reader
  recovers exactly the parameters that were compiled; the same-slot order stands as its byte
  at the published offset; and the account starts with the discriminator.
\<close>

theorem config_account_round_trip:
  assumes "input_ok input" "pair_wf (in_token_pair input)"
  shows "\<exists>a bs. compile_pool_config_account input bump flag = Some (Ok a)
    \<and> layout_to_bytes a = Some bs
    \<and> length bs = REFERENCE_QUOTE_POOL_CONFIG_WRITER_LEN
    \<and> length bs \<le> REFERENCE_QUOTE_POOL_CONFIG_MAX_BYTES
    \<and> params_from_pool_config_bytes bs = Some (st_params (in_strategy input))
    \<and> bs ! REFERENCE_QUOTE_POOL_CONFIG_SAME_SLOT_ORDER_OFFSET
        = same_slot_update_order_to_u8 (same_slot_order (st_quote_update_envelope (in_strategy input)))
    \<and> take 8 bs = REFERENCE_QUOTE_POOL_CONFIG_DISCRIMINATOR"
  using assms by (rule compiled_account_bytes)

theorem config_account_round_trip_witness:
  "\<exists>a bs. compile_pool_config_account example_input 254 False = Some (Ok a)
    \<and> layout_to_bytes a = Some bs \<and> params_from_pool_config_bytes bs = Some example_params"
proof -
  have "pair_wf (in_token_pair example_input)"
    by (simp add: pair_wf_def is_pubkey_def example_input_def example_pair_def)
  from config_account_round_trip[OF example_input_ok this, of 254 False]
  show ?thesis by (auto simp: example_input_def)
qed

end
