(* ===== verification/Program_State.thy ===== *)
theory Program_State imports Config_Layout begin

text \<open>
  The accounts of the on-chain program, \<open>programs/meta_amm/src/lib.rs\<close>, their methods, the
  instruction arguments and the error codes.  Both kinds of sequenced account (the published
  quote and the staged curve slot) meet one contract, the locale \<open>sequenced\<close>: a step is accepted
  only with a larger sequence number, so no message can be replayed.
\<close>

section \<open>Errors\<close>

datatype meta_amm_error =
    InvalidReferenceQuoteConfig | InvalidSameSlotUpdateOrder | UnauthorizedPoolAuthority
  | InvalidQuoteAuthority | UnauthorizedQuoteUpdate | InvalidReferenceQuotePrice
  | NonMonotonicQuoteSequence | StaleQuotePublishSlot | FutureQuotePublishSlot
  | QuoteStatePoolMismatch | QuoteStateOrderMismatch | VaultMintMismatch
  | VaultTokenProgramMismatch | VaultStatePoolMismatch | VaultStateAuthorityMismatch
  | VaultAccountMismatch | UnsupportedCustodyModel | VaultPaused | EmptyFundingAmount
  | PoolConfigPaused | QuoteStatePaused | QuoteNotInitialized | QuoteSequenceMismatch
  | InvalidSwapAmount | EmptyPoolLiquidity | InvalidMinimumAmountOut | SlippageExceeded
  | UninitializedInventoryTarget | VaultInventoryOverflow | StaleReferenceQuote
  | ProtectedQuoteTradeLimit | InventoryBandExceeded | SwapMathFailed
  | UnsupportedTokenExtension | InvalidReferenceQuoteSpread | CurveSlotPoolMismatch
  | InvalidCurveSlot | InvalidCurveHash | NonMonotonicCurveSequence | CurveHashMismatch

text \<open>\<open>map_swap_math_error\<close>; \<open>MathError::EmptyLiquidity\<close> keeps its name as \<open>EmptyPoolLiquidity\<close>.\<close>

definition map_swap_math_error :: "math_error \<Rightarrow> meta_amm_error" where
  "map_swap_math_error e = (case e of
     InvalidAmount \<Rightarrow> InvalidSwapAmount
   | EmptyLiquidity \<Rightarrow> EmptyPoolLiquidity
   | PoolPaused \<Rightarrow> PoolConfigPaused
   | StaleQuote \<Rightarrow> StaleReferenceQuote
   | QuoteProtected \<Rightarrow> ProtectedQuoteTradeLimit
   | InventoryBand \<Rightarrow> InventoryBandExceeded
   | InvalidConfig \<Rightarrow> InvalidReferenceQuoteConfig
   | InvalidFee \<Rightarrow> SwapMathFailed
   | Overflow \<Rightarrow> SwapMathFailed
   | Underflow \<Rightarrow> SwapMathFailed
   | DivByZero \<Rightarrow> SwapMathFailed
   | DecimalsOutOfRange \<Rightarrow> SwapMathFailed)"

definition CUSTODY_MODEL_MAKER_OWNED :: u8 where "CUSTODY_MODEL_MAKER_OWNED = 0"
definition MAX_CURVE_SLOTS :: u8 where "MAX_CURVE_SLOTS = 16"
definition default_pubkey :: pubkey where "default_pubkey = replicate 32 0"

section \<open>Instruction arguments\<close>

record params_args =
  pa_fee_bps :: u16
  pa_base_half_spread_bps :: u16
  pa_aging_start_slots :: u64
  pa_protected_start_slots :: u64
  pa_expire_slots :: u64
  pa_aging_surcharge_bps_per_slot :: u16
  pa_max_aging_surcharge_bps :: u16
  pa_max_trade_base_atoms :: u64
  pa_protected_max_trade_base_atoms :: u64
  pa_inventory_skew_bps_per_10k_imbalance :: u16
  pa_max_inventory_skew_bps :: u16
  pa_hard_inventory_band_bps :: u16

definition args_to_params :: "params_args \<Rightarrow> reference_quote_params" where
  "args_to_params a =
    \<lparr>fee_bps = pa_fee_bps a,
     base_half_spread_bps = pa_base_half_spread_bps a,
     aging_start_slots = pa_aging_start_slots a,
     protected_start_slots = pa_protected_start_slots a,
     expire_slots = pa_expire_slots a,
     aging_surcharge_bps_per_slot = pa_aging_surcharge_bps_per_slot a,
     max_aging_surcharge_bps = pa_max_aging_surcharge_bps a,
     max_trade_base_atoms = pa_max_trade_base_atoms a,
     protected_max_trade_base_atoms = pa_protected_max_trade_base_atoms a,
     inventory_skew_bps_per_10k_imbalance = pa_inventory_skew_bps_per_10k_imbalance a,
     max_inventory_skew_bps = pa_max_inventory_skew_bps a,
     hard_inventory_band_bps = pa_hard_inventory_band_bps a\<rparr>"

record envelope_args =
  ea_max_maker_update_period_slots :: u64
  ea_max_landing_latency_slots :: u64
  ea_min_update_success_probability_bps :: u16
  ea_same_slot_order :: u8

definition args_to_envelope :: "envelope_args \<Rightarrow> meta_amm_error + quote_update_envelope" where
  "args_to_envelope a =
    and_then (if ea_same_slot_order a = 0 then Ok UpdateBeforeSwap
              else if ea_same_slot_order a = 1 then Ok SwapBeforeUpdate
              else Err InvalidSameSlotUpdateOrder) (\<lambda>order.
    Ok \<lparr>max_maker_update_period_slots = ea_max_maker_update_period_slots a,
        max_landing_latency_slots = ea_max_landing_latency_slots a,
        min_update_success_probability_bps = ea_min_update_success_probability_bps a,
        same_slot_order = order\<rparr>)"

record budget_args =
  ba_required_swap_account_metas :: u8
  ba_max_swap_account_metas :: u8

definition args_to_account_budget :: "budget_args \<Rightarrow> account_budget" where
  "args_to_account_budget a =
    \<lparr>required_swap_account_metas = ba_required_swap_account_metas a,
     max_swap_account_metas = ba_max_swap_account_metas a\<rparr>"

record initialize_pool_args =
  ip_params :: params_args
  ip_quote_update_envelope :: envelope_args
  ip_account_budget :: budget_args

definition args_strategy_config :: "initialize_pool_args \<Rightarrow> meta_amm_error + strategy_config" where
  "args_strategy_config a =
    and_then (args_to_envelope (ip_quote_update_envelope a)) (\<lambda>envelope.
    Ok \<lparr>st_params = args_to_params (ip_params a), st_quote_update_envelope = envelope\<rparr>)"

record update_quote_args =
  ua_mid_price_q64x64 :: u128
  ua_publish_slot :: u64
  ua_sequence :: u64

record update_quote_v2_args =
  u2_mid_price_q64x64 :: u128
  u2_base_half_spread_bps :: u16
  u2_publish_slot :: u64
  u2_sequence :: u64

definition to_legacy_args :: "update_quote_v2_args \<Rightarrow> update_quote_args" where
  "to_legacy_args a =
    \<lparr>ua_mid_price_q64x64 = u2_mid_price_q64x64 a, ua_publish_slot = u2_publish_slot a,
     ua_sequence = u2_sequence a\<rparr>"

record stage_args =
  sa_slot :: u8
  sa_curve_hash :: "u8 list"
  sa_sequence :: u64

record activate_args =
  aa_slot :: u8
  aa_expected_hash :: "u8 list"
  aa_sequence :: u64

record fund_args =
  fa_base_amount :: u64
  fa_quote_amount :: u64

definition fund_args_validate :: "fund_args \<Rightarrow> meta_amm_error + unit" where
  "fund_args_validate a = require (0 < fa_base_amount a \<or> 0 < fa_quote_amount a) EmptyFundingAmount"

record swap_args =
  sw_amount_in :: u64
  sw_minimum_amount_out :: u64
  sw_expected_quote_sequence :: u64
  sw_base_to_quote :: bool

definition swap_args_validate :: "swap_args \<Rightarrow> meta_amm_error + unit" where
  "swap_args_validate a =
    and_then (require (0 < sw_amount_in a) InvalidSwapAmount) (\<lambda>_.
    and_then (require (0 < sw_minimum_amount_out a) InvalidMinimumAmountOut) (\<lambda>_.
    require (0 < sw_expected_quote_sequence a) QuoteNotInitialized))"

section \<open>The pool configuration account\<close>

record pool_config =
  pc_authority :: pubkey
  pc_base_mint :: pubkey
  pc_quote_mint :: pubkey
  pc_base_token_program :: pubkey
  pc_quote_token_program :: pubkey
  pc_bump :: u8
  pc_paused :: bool
  pc_layout :: "u8 list"

definition pool_same_slot_order :: "pool_config \<Rightarrow> meta_amm_error + u8" where
  "pool_same_slot_order pc =
    (let b = pc_layout pc ! REFERENCE_QUOTE_POOL_CONFIG_SAME_SLOT_ORDER_OFFSET
     in if b = 0 then Ok 0 else if b = 1 then Ok 1 else Err InvalidSameSlotUpdateOrder)"

text \<open>
  \<open>layout\<close> is a 448-byte array, so the reader cannot leave it and the \<^const>\<open>the\<close> below is
  applied to \<^const>\<open>Some\<close> (lemma \<open>pool_params_defined\<close>).
\<close>

definition pool_params :: "pool_config \<Rightarrow> reference_quote_params" where
  "pool_params pc = the (params_from_pool_config_bytes (pc_layout pc))"

lemma pool_params_defined:
  "length (pc_layout pc) = 448 \<Longrightarrow> \<exists>p. params_from_pool_config_bytes (pc_layout pc) = Some p"
  by (simp add: params_from_pool_config_bytes_def read_u64_def read_u16_def read_2_def
      read_bytes_def REFERENCE_QUOTE_POOL_CONFIG_PARAMS_OFFSET_def)

section \<open>The quote account\<close>

record quote_state =
  qs_pool_config :: pubkey
  qs_quote_authority :: pubkey
  qs_bump :: u8
  qs_paused :: bool
  qs_same_slot_order :: u8
  qs_padding :: "u8 list"
  qs_mid_price_q64x64 :: u128
  qs_publish_slot :: u64
  qs_sequence :: u64
  qs_last_update_slot :: u64

definition set_base_half_spread_bps :: "u16 \<Rightarrow> quote_state \<Rightarrow> quote_state" where
  "set_base_half_spread_bps spread qs =
    qs\<lparr>qs_padding := (to_le_bytes 2 spread @ drop 2 (qs_padding qs))[2 := 1]\<rparr>"

definition quote_base_half_spread_bps :: "quote_state \<Rightarrow> u16 \<Rightarrow> u16" where
  "quote_base_half_spread_bps qs fallback =
    (if qs_padding qs ! 2 = 1 then from_le_bytes [qs_padding qs ! 0, qs_padding qs ! 1] else fallback)"

definition apply_update ::
    "quote_state \<Rightarrow> pubkey \<Rightarrow> pubkey \<Rightarrow> update_quote_args \<Rightarrow> u64 \<Rightarrow> meta_amm_error + quote_state" where
  "apply_update qs pool_authority signer args current_slot =
    and_then (require (signer = pool_authority \<or> signer = qs_quote_authority qs)
      UnauthorizedQuoteUpdate) (\<lambda>_.
    and_then (require (0 < ua_mid_price_q64x64 args) InvalidReferenceQuotePrice) (\<lambda>_.
    and_then (require (qs_sequence qs < ua_sequence args) NonMonotonicQuoteSequence) (\<lambda>_.
    and_then (require (qs_publish_slot qs \<le> ua_publish_slot args) StaleQuotePublishSlot) (\<lambda>_.
    and_then (require (ua_publish_slot args \<le> current_slot) FutureQuotePublishSlot) (\<lambda>_.
    Ok (qs\<lparr>qs_mid_price_q64x64 := ua_mid_price_q64x64 args,
           qs_publish_slot := ua_publish_slot args,
           qs_sequence := ua_sequence args,
           qs_last_update_slot := current_slot\<rparr>))))))"

definition assert_usable_for_swap ::
    "quote_state \<Rightarrow> pubkey \<Rightarrow> u8 \<Rightarrow> u64 \<Rightarrow> u64 \<Rightarrow> meta_amm_error + unit" where
  "assert_usable_for_swap qs pool expected_order expected_sequence current_slot =
    and_then (require (qs_pool_config qs = pool) QuoteStatePoolMismatch) (\<lambda>_.
    and_then (require (\<not> qs_paused qs) QuoteStatePaused) (\<lambda>_.
    and_then (require (qs_same_slot_order qs = expected_order) QuoteStateOrderMismatch) (\<lambda>_.
    and_then (require (0 < qs_mid_price_q64x64 qs \<and> 0 < qs_sequence qs) QuoteNotInitialized) (\<lambda>_.
    and_then (require (qs_sequence qs = expected_sequence) QuoteSequenceMismatch) (\<lambda>_.
    require (qs_publish_slot qs \<le> current_slot) FutureQuotePublishSlot)))))"

definition validate_reference_quote_base_spread ::
    "u16 \<Rightarrow> reference_quote_params \<Rightarrow> meta_amm_error + unit" where
  "validate_reference_quote_base_spread spread params =
    (let worst_spread = saturating_add (saturating_add (ucast spread :: u32)
           (ucast (max_aging_surcharge_bps params))) (ucast (max_inventory_skew_bps params))
     in require (worst_spread < 10000) InvalidReferenceQuoteSpread)"

section \<open>The curve slot account\<close>

record curve_slot_state =
  cs_pool_config :: pubkey
  cs_authority :: pubkey
  cs_bump :: u8
  cs_active_slot :: u8
  cs_pending_slot :: u8
  cs_padding :: "u8 list"
  cs_pending_hash :: "u8 list"
  cs_sequence :: u64
  cs_reserved :: "u8 list"

definition validate_curve_slot :: "u8 \<Rightarrow> meta_amm_error + unit" where
  "validate_curve_slot slot = require (slot < MAX_CURVE_SLOTS) InvalidCurveSlot"

definition curve_stage :: "curve_slot_state \<Rightarrow> stage_args \<Rightarrow> meta_amm_error + curve_slot_state" where
  "curve_stage cs args =
    and_then (validate_curve_slot (sa_slot args)) (\<lambda>_.
    and_then (require (sa_curve_hash args \<noteq> replicate 32 0) InvalidCurveHash) (\<lambda>_.
    and_then (require (cs_sequence cs < sa_sequence args) NonMonotonicCurveSequence) (\<lambda>_.
    Ok (cs\<lparr>cs_pending_slot := sa_slot args, cs_pending_hash := sa_curve_hash args,
           cs_sequence := sa_sequence args\<rparr>))))"

definition curve_activate :: "curve_slot_state \<Rightarrow> activate_args \<Rightarrow> meta_amm_error + curve_slot_state" where
  "curve_activate cs args =
    and_then (validate_curve_slot (aa_slot args)) (\<lambda>_.
    and_then (require (cs_sequence cs < aa_sequence args) NonMonotonicCurveSequence) (\<lambda>_.
    and_then (require (cs_pending_slot cs = aa_slot args \<and> cs_pending_hash cs = aa_expected_hash args)
      CurveHashMismatch) (\<lambda>_.
    Ok (cs\<lparr>cs_active_slot := aa_slot args, cs_pending_hash := replicate 32 0,
           cs_sequence := aa_sequence args\<rparr>))))"

section \<open>The vault account\<close>

record vault_state =
  vs_pool_config :: pubkey
  vs_maker_authority :: pubkey
  vs_base_vault :: pubkey
  vs_quote_vault :: pubkey
  vs_base_mint :: pubkey
  vs_quote_mint :: pubkey
  vs_vault_authority_bump :: u8
  vs_bump :: u8
  vs_custody_model :: u8
  vs_paused :: bool
  vs_padding :: "u8 list"
  vs_target_base_inventory :: u64
  vs_reserved :: "u8 list"

definition assert_maker_owned_for_pool ::
    "vault_state \<Rightarrow> pubkey \<Rightarrow> pubkey \<Rightarrow> pubkey \<Rightarrow> pubkey \<Rightarrow> meta_amm_error + unit" where
  "assert_maker_owned_for_pool vs pool maker base_vault quote_vault =
    and_then (require (vs_pool_config vs = pool) VaultStatePoolMismatch) (\<lambda>_.
    and_then (require (vs_maker_authority vs = maker) VaultStateAuthorityMismatch) (\<lambda>_.
    and_then (require (vs_base_vault vs = base_vault) VaultAccountMismatch) (\<lambda>_.
    and_then (require (vs_quote_vault vs = quote_vault) VaultAccountMismatch) (\<lambda>_.
    and_then (require (vs_custody_model vs = CUSTODY_MODEL_MAKER_OWNED) UnsupportedCustodyModel) (\<lambda>_.
    require (\<not> vs_paused vs) VaultPaused)))))"

definition apply_base_funding_to_target ::
    "vault_state \<Rightarrow> u64 \<Rightarrow> u64 \<Rightarrow> meta_amm_error + vault_state" where
  "apply_base_funding_to_target vs pre_base_vault_amount base_amount =
    (if base_amount = 0 then Ok vs
     else if vs_target_base_inventory vs = 0 then
       and_then (ok_or VaultInventoryOverflow (checked_add pre_base_vault_amount base_amount))
         (\<lambda>t. Ok (vs\<lparr>vs_target_base_inventory := t\<rparr>))
     else
       and_then (ok_or VaultInventoryOverflow (checked_add (vs_target_base_inventory vs) base_amount))
         (\<lambda>t. Ok (vs\<lparr>vs_target_base_inventory := t\<rparr>)))"

definition quote_age_state_to_u8 :: "age_state \<Rightarrow> u8" where
  "quote_age_state_to_u8 st = (case st of
     Fresh \<Rightarrow> 0 | Aging \<Rightarrow> 1 | Protected \<Rightarrow> 2 | Expired \<Rightarrow> 3 | Paused \<Rightarrow> 4)"

record reference_swap_event =
  ev_pool_config :: pubkey
  ev_taker :: pubkey
  ev_base_to_quote :: bool
  ev_amount_in :: u64
  ev_amount_in_less_fee :: u64
  ev_amount_out :: u64
  ev_quote_sequence :: u64
  ev_quote_publish_slot :: u64
  ev_quote_age_slots :: u64
  ev_age_state :: u8
  ev_mid_price_q64x64 :: u128
  ev_effective_price_q64x64 :: u128
  ev_applied_spread_bps :: u16
  ev_inventory_imbalance_bps :: int
  ev_new_base_inventory :: u64
  ev_new_quote_inventory :: u64

section \<open>Sequenced accounts\<close>

text \<open>A run of messages; a refused message leaves the account as it was.\<close>

fun run_messages :: "('a \<Rightarrow> 's \<Rightarrow> 'e + 's) \<Rightarrow> 'a list \<Rightarrow> 's \<Rightarrow> 's" where
  "run_messages step [] s = s"
| "run_messages step (a # as) s =
     run_messages step as (case step a s of Err _ \<Rightarrow> s | Ok s' \<Rightarrow> s')"

locale sequenced =
  fixes step :: "'a \<Rightarrow> 's \<Rightarrow> 'e + 's" and seq_of :: "'s \<Rightarrow> nat" and msg_seq :: "'a \<Rightarrow> nat"
  assumes accepted_larger: "step a s = Ok s' \<Longrightarrow> seq_of s < msg_seq a"
    and accepted_seq: "step a s = Ok s' \<Longrightarrow> seq_of s' = msg_seq a"
begin

lemma step_mono: "seq_of s \<le> seq_of (case step a s of Err _ \<Rightarrow> s | Ok s' \<Rightarrow> s')"
  using accepted_larger[of a s] accepted_seq[of a s] by (cases "step a s") fastforce+

lemma run_mono: "seq_of s \<le> seq_of (run_messages step as s)"
proof (induction as arbitrary: s)
  case (Cons a as)
  show ?case using Cons[of "case step a s of Err _ \<Rightarrow> s | Ok s' \<Rightarrow> s'"] step_mono[of s a] by simp
qed simp

lemma stale_rejected:
  assumes "step a s = Ok s'" "msg_seq b \<le> msg_seq a"
  shows "\<not> is_ok (step b (run_messages step as s'))"
proof (cases "step b (run_messages step as s')")
  case (Inr s'')
  then have "seq_of (run_messages step as s') < msg_seq b" by (rule accepted_larger)
  moreover have "msg_seq a \<le> seq_of (run_messages step as s')"
    using run_mono[of s' as] accepted_seq[OF assms(1)] by simp
  ultimately show ?thesis using assms(2) by simp
qed simp

end

text \<open>The two accounts as message-driven machines.\<close>

record quote_message =
  qm_pool_authority :: pubkey
  qm_signer :: pubkey
  qm_args :: update_quote_args
  qm_slot :: u64

definition quote_step :: "quote_message \<Rightarrow> quote_state \<Rightarrow> meta_amm_error + quote_state" where
  "quote_step m qs = apply_update qs (qm_pool_authority m) (qm_signer m) (qm_args m) (qm_slot m)"

datatype curve_message = Stage stage_args | Activate activate_args

definition curve_step :: "curve_message \<Rightarrow> curve_slot_state \<Rightarrow> meta_amm_error + curve_slot_state" where
  "curve_step m cs = (case m of Stage a \<Rightarrow> curve_stage cs a | Activate a \<Rightarrow> curve_activate cs a)"

definition curve_msg_seq :: "curve_message \<Rightarrow> nat" where
  "curve_msg_seq m = (case m of Stage a \<Rightarrow> unat (sa_sequence a) | Activate a \<Rightarrow> unat (aa_sequence a))"

lemma apply_update_Ok:
  "apply_update qs auth signer args slot = Ok qs' \<longleftrightarrow>
    (signer = auth \<or> signer = qs_quote_authority qs) \<and> 0 < ua_mid_price_q64x64 args
    \<and> qs_sequence qs < ua_sequence args \<and> qs_publish_slot qs \<le> ua_publish_slot args
    \<and> ua_publish_slot args \<le> slot
    \<and> qs' = qs\<lparr>qs_mid_price_q64x64 := ua_mid_price_q64x64 args,
               qs_publish_slot := ua_publish_slot args, qs_sequence := ua_sequence args,
               qs_last_update_slot := slot\<rparr>"
  by (auto simp: apply_update_def and_then_eq_Ok)

lemma curve_stage_Ok:
  "curve_stage cs a = Ok cs' \<longleftrightarrow> sa_slot a < 16 \<and> sa_curve_hash a \<noteq> replicate 32 0
    \<and> cs_sequence cs < sa_sequence a
    \<and> cs' = cs\<lparr>cs_pending_slot := sa_slot a, cs_pending_hash := sa_curve_hash a,
               cs_sequence := sa_sequence a\<rparr>"
  by (auto simp: curve_stage_def validate_curve_slot_def MAX_CURVE_SLOTS_def and_then_eq_Ok)

lemma curve_activate_Ok:
  "curve_activate cs a = Ok cs' \<longleftrightarrow> aa_slot a < 16 \<and> cs_sequence cs < aa_sequence a
    \<and> cs_pending_slot cs = aa_slot a \<and> cs_pending_hash cs = aa_expected_hash a
    \<and> cs' = cs\<lparr>cs_active_slot := aa_slot a, cs_pending_hash := replicate 32 0,
               cs_sequence := aa_sequence a\<rparr>"
  by (auto simp: curve_activate_def validate_curve_slot_def MAX_CURVE_SLOTS_def and_then_eq_Ok)

interpretation quotes: sequenced quote_step "\<lambda>qs. unat (qs_sequence qs)" "\<lambda>m. unat (ua_sequence (qm_args m))"
  by unfold_locales (auto simp: quote_step_def apply_update_Ok word_less_nat_alt)

interpretation curves: sequenced curve_step "\<lambda>cs. unat (cs_sequence cs)" curve_msg_seq
  by unfold_locales (auto simp: curve_step_def curve_msg_seq_def curve_stage_Ok curve_activate_Ok
      word_less_nat_alt split: curve_message.splits)

section \<open>The stored half spread\<close>

definition quote_state_wf :: "quote_state \<Rightarrow> bool" where
  "quote_state_wf qs \<longleftrightarrow> length (qs_padding qs) = 5"

lemma to_le_bytes_2: "to_le_bytes 2 w = [ucast w, ucast (drop_bit 8 w)]"
  by (simp add: numeral_2_eq_2)

lemma stored_spread:
  assumes "quote_state_wf qs"
  shows "quote_base_half_spread_bps (set_base_half_spread_bps v qs) fallback = v"
    and "quote_state_wf (set_base_half_spread_bps v qs)"
proof -
  have "from_le_bytes [ucast v, ucast (drop_bit 8 v)] = v"
    using from_le_to_le_u16[of v] by (simp only: to_le_bytes_2)
  moreover obtain a b c d e where "qs_padding qs = [a, b, c, d, e]"
    using assms by (auto simp: quote_state_wf_def length_Suc_conv numeral_eq_Suc)
  ultimately show "quote_base_half_spread_bps (set_base_half_spread_bps v qs) fallback = v"
    by (simp add: quote_base_half_spread_bps_def set_base_half_spread_bps_def to_le_bytes_2
        nth_Cons_numeral list_update_code numeral_2_eq_2)
  show "quote_state_wf (set_base_half_spread_bps v qs)"
    using assms by (simp add: quote_state_wf_def set_base_half_spread_bps_def)
qed

lemma apply_update_keeps:
  assumes "apply_update qs auth signer args slot = Ok qs'"
  shows "qs_padding qs' = qs_padding qs" "qs_same_slot_order qs' = qs_same_slot_order qs"
    "qs_pool_config qs' = qs_pool_config qs" "qs_quote_authority qs' = qs_quote_authority qs"
    "qs_paused qs' = qs_paused qs" "qs_bump qs' = qs_bump qs"
  using assms by (auto simp: apply_update_Ok)

lemma base_spread_Ok:
  "validate_reference_quote_base_spread v p = Ok () \<longleftrightarrow>
     unat v + unat (max_aging_surcharge_bps p) + unat (max_inventory_skew_bps p) < 10000"
proof -
  have "unat v + unat (max_aging_surcharge_bps p) + unat (max_inventory_skew_bps p) < 2 ^ 32"
    using u16_bound[of v] u16_bound[of "max_aging_surcharge_bps p"]
      u16_bound[of "max_inventory_skew_bps p"] by simp
  then show ?thesis
    by (simp add: validate_reference_quote_base_spread_def word_less_nat_alt unat_saturating_add)
qed

lemma config_params_with_spread:
  "config_params_ok p \<Longrightarrow>
   unat v + unat (max_aging_surcharge_bps p) + unat (max_inventory_skew_bps p) < 10000 \<Longrightarrow>
   config_params_ok (p\<lparr>base_half_spread_bps := v\<rparr>)"
  by (auto simp: config_params_ok_def word_less_nat_alt)

end
