(* ===== verification/Program.thy ===== *)
theory Program imports Program_State begin

text \<open>
  The instructions of the on-chain program, \<open>programs/meta_amm/src/lib.rs\<close>: the account
  constraints of each Anchor context and the handler, as a function from the world (the
  accounts of the program and the token accounts) to a new world or an error.  The Solana
  runtime and the token program are parameters, the record \<open>runtime\<close>.
\<close>

section \<open>The world and its environment\<close>

datatype program_error =
    Custom meta_amm_error
  | AccountNotInitialized | AccountAlreadyInUse | AccountNotSigner | InvalidProgramId
  | ConstraintSeeds | ConstraintMintTokenProgram | ConstraintTokenMint | ConstraintTokenOwner
  | ConstraintTokenTokenProgram | TransferFailed | Panic

record token_account =
  ta_mint :: pubkey
  ta_owner :: pubkey
  ta_program :: pubkey
  ta_amount :: u64

record mint_account =
  mi_decimals :: u8
  mi_program :: pubkey
  mi_transfer_fee_config :: bool

record world =
  wd_pools :: "pubkey \<Rightarrow> pool_config option"
  wd_quotes :: "pubkey \<Rightarrow> quote_state option"
  wd_curves :: "pubkey \<Rightarrow> curve_slot_state option"
  wd_vaults :: "pubkey \<Rightarrow> vault_state option"
  wd_tokens :: "pubkey \<Rightarrow> token_account option"
  wd_mints :: "pubkey \<Rightarrow> mint_account option"
  wd_events :: "reference_swap_event list"

record transfer =
  tr_program :: pubkey
  tr_from :: pubkey
  tr_mint :: pubkey
  tr_to :: pubkey
  tr_authority :: pubkey
  tr_amount :: u64
  tr_decimals :: u8

text \<open>
  What the code takes from outside: \<open>create_program_address\<close> and \<open>find_program_address\<close>, the
  ids of the two token programs, and the token program's \<open>transfer_checked\<close> on the token
  accounts, which may depend on the mints (Token-2022 withholds a fee on a mint that has a
  transfer fee).
\<close>

record runtime =
  rt_create_address :: "u8 list list \<Rightarrow> pubkey option"
  rt_find_address :: "u8 list list \<Rightarrow> pubkey \<times> u8"
  rt_token_program :: pubkey
  rt_token_2022_program :: pubkey
  rt_transfer :: "transfer \<Rightarrow> (pubkey \<Rightarrow> mint_account option) \<Rightarrow> (pubkey \<Rightarrow> token_account option) \<Rightarrow> (pubkey \<Rightarrow> token_account option) option"

definition POOL_CONFIG_SEED :: "u8 list" where "POOL_CONFIG_SEED = byte_string ''pool-config''"
definition QUOTE_STATE_SEED :: "u8 list" where "QUOTE_STATE_SEED = byte_string ''quote-state''"
definition VAULT_STATE_SEED :: "u8 list" where "VAULT_STATE_SEED = byte_string ''vault-state''"
definition VAULT_AUTHORITY_SEED :: "u8 list" where "VAULT_AUTHORITY_SEED = byte_string ''vault-authority''"
definition BASE_VAULT_SEED :: "u8 list" where "BASE_VAULT_SEED = byte_string ''base-vault''"
definition QUOTE_VAULT_SEED :: "u8 list" where "QUOTE_VAULT_SEED = byte_string ''quote-vault''"
definition CURVE_SLOT_STATE_SEED :: "u8 list" where "CURVE_SLOT_STATE_SEED = byte_string ''curve-slot-state''"

section \<open>Constraint checks\<close>

abbreviation custom :: "meta_amm_error + 'a \<Rightarrow> program_error + 'a" where
  "custom \<equiv> map_err Custom"

definition lookup_account :: "(pubkey \<Rightarrow> 'v option) \<Rightarrow> pubkey \<Rightarrow> program_error + 'v" where
  "lookup_account m k = ok_or AccountNotInitialized (m k)"

definition check_signer :: "pubkey list \<Rightarrow> pubkey \<Rightarrow> program_error + unit" where
  "check_signer signers k = require (k \<in> set signers) AccountNotSigner"

text \<open>\<open>seeds = [...], bump = stored\<close> and, for \<open>init\<close>, \<open>seeds = [...], bump\<close>.\<close>

definition check_seeds :: "runtime \<Rightarrow> u8 list list \<Rightarrow> u8 \<Rightarrow> pubkey \<Rightarrow> program_error + unit" where
  "check_seeds rt seeds bump key =
    require (rt_create_address rt (seeds @ [[bump]]) = Some key) ConstraintSeeds"

definition check_found :: "runtime \<Rightarrow> u8 list list \<Rightarrow> pubkey \<Rightarrow> program_error + u8" where
  "check_found rt seeds key =
    and_then (require (fst (rt_find_address rt seeds) = key) ConstraintSeeds)
      (\<lambda>_. Ok (snd (rt_find_address rt seeds)))"

definition unused :: "world \<Rightarrow> pubkey \<Rightarrow> bool" where
  "unused w k \<longleftrightarrow> wd_pools w k = None \<and> wd_quotes w k = None \<and> wd_curves w k = None
     \<and> wd_vaults w k = None \<and> wd_tokens w k = None \<and> wd_mints w k = None"

definition check_unused :: "world \<Rightarrow> pubkey \<Rightarrow> program_error + unit" where
  "check_unused w k = require (unused w k) AccountAlreadyInUse"

definition pool_seeds :: "pubkey \<Rightarrow> pubkey \<Rightarrow> pubkey \<Rightarrow> u8 list list" where
  "pool_seeds authority base_mint quote_mint = [POOL_CONFIG_SEED, authority, base_mint, quote_mint]"

definition load_pool :: "runtime \<Rightarrow> world \<Rightarrow> pubkey \<Rightarrow> program_error + pool_config" where
  "load_pool rt w key =
    and_then (lookup_account (wd_pools w) key) (\<lambda>pc.
    and_then (check_seeds rt (pool_seeds (pc_authority pc) (pc_base_mint pc) (pc_quote_mint pc))
      (pc_bump pc) key) (\<lambda>_. Ok pc))"

definition load_quote :: "runtime \<Rightarrow> world \<Rightarrow> pubkey \<Rightarrow> pubkey \<Rightarrow> program_error + quote_state" where
  "load_quote rt w pool key =
    and_then (lookup_account (wd_quotes w) key) (\<lambda>qs.
    and_then (check_seeds rt [QUOTE_STATE_SEED, pool] (qs_bump qs) key) (\<lambda>_.
    and_then (require (qs_pool_config qs = pool) (Custom QuoteStatePoolMismatch)) (\<lambda>_. Ok qs)))"

definition load_curve :: "runtime \<Rightarrow> world \<Rightarrow> pubkey \<Rightarrow> pubkey \<Rightarrow> pubkey \<Rightarrow> program_error + curve_slot_state" where
  "load_curve rt w pool authority key =
    and_then (lookup_account (wd_curves w) key) (\<lambda>cs.
    and_then (check_seeds rt [CURVE_SLOT_STATE_SEED, pool] (cs_bump cs) key) (\<lambda>_.
    and_then (require (cs_pool_config cs = pool) (Custom CurveSlotPoolMismatch)) (\<lambda>_.
    and_then (require (cs_authority cs = authority) (Custom UnauthorizedPoolAuthority)) (\<lambda>_. Ok cs))))"

definition load_vault :: "runtime \<Rightarrow> world \<Rightarrow> pubkey \<Rightarrow> pubkey \<Rightarrow> pubkey \<Rightarrow> program_error + vault_state" where
  "load_vault rt w pool maker key =
    and_then (lookup_account (wd_vaults w) key) (\<lambda>vs.
    and_then (check_seeds rt [VAULT_STATE_SEED, pool] (vs_bump vs) key) (\<lambda>_.
    and_then (require (vs_pool_config vs = pool) (Custom VaultStatePoolMismatch)) (\<lambda>_.
    and_then (require (vs_maker_authority vs = maker) (Custom VaultStateAuthorityMismatch)) (\<lambda>_.
    and_then (require (vs_custody_model vs = CUSTODY_MODEL_MAKER_OWNED) (Custom UnsupportedCustodyModel)) (\<lambda>_.
    and_then (require (\<not> vs_paused vs) (Custom VaultPaused)) (\<lambda>_. Ok vs))))))"

definition load_mint :: "world \<Rightarrow> pubkey \<Rightarrow> pubkey \<Rightarrow> program_error + mint_account" where
  "load_mint w program key =
    and_then (lookup_account (wd_mints w) key) (\<lambda>m.
    and_then (require (mi_program m = program) ConstraintMintTokenProgram) (\<lambda>_. Ok m))"

definition load_pool_mint :: "world \<Rightarrow> pubkey \<Rightarrow> pubkey \<Rightarrow> pubkey \<Rightarrow> program_error + mint_account" where
  "load_pool_mint w program key expected =
    and_then (load_mint w program key) (\<lambda>m.
    and_then (require (key = expected) (Custom VaultMintMismatch)) (\<lambda>_. Ok m))"

definition check_token_interface :: "runtime \<Rightarrow> pubkey \<Rightarrow> program_error + unit" where
  "check_token_interface rt key =
    require (key = rt_token_program rt \<or> key = rt_token_2022_program rt) InvalidProgramId"

definition check_pool_token_program :: "runtime \<Rightarrow> pubkey \<Rightarrow> pubkey \<Rightarrow> program_error + unit" where
  "check_pool_token_program rt key expected =
    and_then (check_token_interface rt key) (\<lambda>_.
    require (key = expected) (Custom VaultTokenProgramMismatch))"

definition load_token ::
    "world \<Rightarrow> pubkey \<Rightarrow> pubkey \<Rightarrow> pubkey \<Rightarrow> pubkey \<Rightarrow> program_error + token_account" where
  "load_token w mint authority program key =
    and_then (lookup_account (wd_tokens w) key) (\<lambda>t.
    and_then (require (ta_mint t = mint) ConstraintTokenMint) (\<lambda>_.
    and_then (require (ta_owner t = authority) ConstraintTokenOwner) (\<lambda>_.
    and_then (require (ta_program t = program) ConstraintTokenTokenProgram) (\<lambda>_. Ok t))))"

definition reject_unsupported_token_extensions :: "runtime \<Rightarrow> mint_account \<Rightarrow> meta_amm_error + unit" where
  "reject_unsupported_token_extensions rt m =
    (if mi_program m = rt_token_2022_program rt \<and> mi_transfer_fee_config m
     then Err UnsupportedTokenExtension else Ok ())"

definition transfer_checked :: "runtime \<Rightarrow> transfer \<Rightarrow> world \<Rightarrow> program_error + world" where
  "transfer_checked rt t w =
    map_ok (\<lambda>tokens. w\<lparr>wd_tokens := tokens\<rparr>) (ok_or TransferFailed
      (rt_transfer rt t (wd_mints w) (wd_tokens w)))"

section \<open>Creating the pool and its accounts\<close>

record initialize_pool_accounts =
  ia_payer :: pubkey
  ia_authority :: pubkey
  ia_base_mint :: pubkey
  ia_quote_mint :: pubkey
  ia_base_token_program :: pubkey
  ia_quote_token_program :: pubkey
  ia_pool_config :: pubkey

definition initialize_reference_quote_pool ::
    "runtime \<Rightarrow> pubkey list \<Rightarrow> initialize_pool_accounts \<Rightarrow> initialize_pool_args \<Rightarrow> world \<Rightarrow> program_error + world" where
  "initialize_reference_quote_pool rt signers acc args w =
    and_then (check_signer signers (ia_payer acc)) (\<lambda>_.
    and_then (check_signer signers (ia_authority acc)) (\<lambda>_.
    and_then (load_mint w (ia_base_token_program acc) (ia_base_mint acc)) (\<lambda>base_mint.
    and_then (load_mint w (ia_quote_token_program acc) (ia_quote_mint acc)) (\<lambda>quote_mint.
    and_then (check_token_interface rt (ia_base_token_program acc)) (\<lambda>_.
    and_then (check_token_interface rt (ia_quote_token_program acc)) (\<lambda>_.
    and_then (check_found rt (pool_seeds (ia_authority acc) (ia_base_mint acc) (ia_quote_mint acc))
      (ia_pool_config acc)) (\<lambda>bump.
    and_then (check_unused w (ia_pool_config acc)) (\<lambda>_.
    and_then (custom (reject_unsupported_token_extensions rt base_mint)) (\<lambda>_.
    and_then (custom (reject_unsupported_token_extensions rt quote_mint)) (\<lambda>_.
    and_then (custom (args_strategy_config args)) (\<lambda>strategy.
    let token_pair = \<lparr>tp_base_mint = ia_base_mint acc, tp_quote_mint = ia_quote_mint acc,
          tp_base_token_program = ia_base_token_program acc,
          tp_quote_token_program = ia_quote_token_program acc,
          tp_base_decimals = mi_decimals base_mint, tp_quote_decimals = mi_decimals quote_mint\<rparr>;
        input = \<lparr>in_strategy = strategy, in_token_pair = token_pair,
          in_account_budget = args_to_account_budget (ip_account_budget args)\<rparr>
    in and_then (ok_or Panic (compile_pool_config_account input bump False)) (\<lambda>compiled.
    and_then (map_err (\<lambda>_. Custom InvalidReferenceQuoteConfig) compiled) (\<lambda>layout.
    and_then (ok_or Panic (layout_to_bytes layout)) (\<lambda>bytes.
    Ok (w\<lparr>wd_pools := (wd_pools w)(ia_pool_config acc \<mapsto>
      \<lparr>pc_authority = ia_authority acc, pc_base_mint = ia_base_mint acc,
       pc_quote_mint = ia_quote_mint acc, pc_base_token_program = ia_base_token_program acc,
       pc_quote_token_program = ia_quote_token_program acc, pc_bump = bump, pc_paused = False,
       pc_layout = bytes\<rparr>)\<rparr>)))))))))))))))"

record authority_accounts =
  aa_payer :: pubkey
  aa_authority :: pubkey
  aa_pool_config :: pubkey
  aa_target :: pubkey

text \<open>
  The shared head of the contexts with an \<open>authority\<close> signer: it must sign and be the pool's
  authority.
\<close>

definition authorized_pool :: "runtime \<Rightarrow> pubkey list \<Rightarrow> world \<Rightarrow> pubkey \<Rightarrow> pubkey \<Rightarrow> program_error + pool_config" where
  "authorized_pool rt signers w authority pool =
    and_then (check_signer signers authority) (\<lambda>_.
    and_then (load_pool rt w pool) (\<lambda>pc.
    and_then (require (pc_authority pc = authority) (Custom UnauthorizedPoolAuthority)) (\<lambda>_. Ok pc)))"

definition initialize_reference_quote_state ::
    "runtime \<Rightarrow> pubkey list \<Rightarrow> authority_accounts \<Rightarrow> pubkey \<Rightarrow> world \<Rightarrow> program_error + world" where
  "initialize_reference_quote_state rt signers acc quote_authority w =
    and_then (check_signer signers (aa_payer acc)) (\<lambda>_.
    and_then (authorized_pool rt signers w (aa_authority acc) (aa_pool_config acc)) (\<lambda>pc.
    and_then (check_found rt [QUOTE_STATE_SEED, aa_pool_config acc] (aa_target acc)) (\<lambda>bump.
    and_then (check_unused w (aa_target acc)) (\<lambda>_.
    and_then (require (quote_authority \<noteq> default_pubkey) (Custom InvalidQuoteAuthority)) (\<lambda>_.
    and_then (custom (pool_same_slot_order pc)) (\<lambda>order.
    let qs = set_base_half_spread_bps (base_half_spread_bps (pool_params pc))
      \<lparr>qs_pool_config = aa_pool_config acc, qs_quote_authority = quote_authority, qs_bump = bump,
       qs_paused = False, qs_same_slot_order = order, qs_padding = replicate 5 0,
       qs_mid_price_q64x64 = 0, qs_publish_slot = 0, qs_sequence = 0, qs_last_update_slot = 0\<rparr>
    in Ok (w\<lparr>wd_quotes := (wd_quotes w)(aa_target acc \<mapsto> qs)\<rparr>)))))))"

definition initialize_curve_slot_state ::
    "runtime \<Rightarrow> pubkey list \<Rightarrow> authority_accounts \<Rightarrow> world \<Rightarrow> program_error + world" where
  "initialize_curve_slot_state rt signers acc w =
    and_then (check_signer signers (aa_payer acc)) (\<lambda>_.
    and_then (authorized_pool rt signers w (aa_authority acc) (aa_pool_config acc)) (\<lambda>pc.
    and_then (check_found rt [CURVE_SLOT_STATE_SEED, aa_pool_config acc] (aa_target acc)) (\<lambda>bump.
    and_then (check_unused w (aa_target acc)) (\<lambda>_.
    Ok (w\<lparr>wd_curves := (wd_curves w)(aa_target acc \<mapsto>
      \<lparr>cs_pool_config = aa_pool_config acc, cs_authority = pc_authority pc, cs_bump = bump,
       cs_active_slot = 0, cs_pending_slot = 0, cs_padding = replicate 5 0,
       cs_pending_hash = replicate 32 0, cs_sequence = 0, cs_reserved = replicate 32 0\<rparr>)\<rparr>)))))"

section \<open>Publishing quotes, pausing, curve slots\<close>

record update_accounts =
  up_quote_signer :: pubkey
  up_pool_config :: pubkey
  up_quote_state :: pubkey

definition load_update ::
    "runtime \<Rightarrow> pubkey list \<Rightarrow> update_accounts \<Rightarrow> world \<Rightarrow> program_error + (pool_config \<times> quote_state)" where
  "load_update rt signers acc w =
    and_then (check_signer signers (up_quote_signer acc)) (\<lambda>_.
    and_then (load_pool rt w (up_pool_config acc)) (\<lambda>pc.
    and_then (load_quote rt w (up_pool_config acc) (up_quote_state acc)) (\<lambda>qs. Ok (pc, qs))))"

definition update_reference_quote ::
    "runtime \<Rightarrow> pubkey list \<Rightarrow> update_accounts \<Rightarrow> update_quote_args \<Rightarrow> u64 \<Rightarrow> world \<Rightarrow> program_error + world" where
  "update_reference_quote rt signers acc args current_slot w =
    and_then (load_update rt signers acc w) (\<lambda>(pc, qs).
    and_then (custom (pool_same_slot_order pc)) (\<lambda>order.
    and_then (require (qs_same_slot_order qs = order) (Custom QuoteStateOrderMismatch)) (\<lambda>_.
    and_then (custom (apply_update qs (pc_authority pc) (up_quote_signer acc) args current_slot)) (\<lambda>qs'.
    Ok (w\<lparr>wd_quotes := (wd_quotes w)(up_quote_state acc \<mapsto> qs')\<rparr>)))))"

definition update_reference_quote_v2 ::
    "runtime \<Rightarrow> pubkey list \<Rightarrow> update_accounts \<Rightarrow> update_quote_v2_args \<Rightarrow> u64 \<Rightarrow> world \<Rightarrow> program_error + world" where
  "update_reference_quote_v2 rt signers acc args current_slot w =
    and_then (load_update rt signers acc w) (\<lambda>(pc, qs).
    and_then (custom (pool_same_slot_order pc)) (\<lambda>order.
    and_then (require (qs_same_slot_order qs = order) (Custom QuoteStateOrderMismatch)) (\<lambda>_.
    and_then (custom (validate_reference_quote_base_spread (u2_base_half_spread_bps args) (pool_params pc))) (\<lambda>_.
    and_then (custom (apply_update qs (pc_authority pc) (up_quote_signer acc) (to_legacy_args args) current_slot)) (\<lambda>qs'.
    Ok (w\<lparr>wd_quotes := (wd_quotes w)(up_quote_state acc \<mapsto>
      set_base_half_spread_bps (u2_base_half_spread_bps args) qs')\<rparr>))))))"

definition pause_pool ::
    "runtime \<Rightarrow> pubkey list \<Rightarrow> authority_accounts \<Rightarrow> bool \<Rightarrow> world \<Rightarrow> program_error + world" where
  "pause_pool rt signers acc flag w =
    and_then (authorized_pool rt signers w (aa_authority acc) (aa_pool_config acc)) (\<lambda>pc.
    Ok (w\<lparr>wd_pools := (wd_pools w)(aa_pool_config acc \<mapsto> pc\<lparr>pc_paused := flag\<rparr>)\<rparr>))"

definition load_curve_update ::
    "runtime \<Rightarrow> pubkey list \<Rightarrow> authority_accounts \<Rightarrow> world \<Rightarrow> program_error + curve_slot_state" where
  "load_curve_update rt signers acc w =
    and_then (authorized_pool rt signers w (aa_authority acc) (aa_pool_config acc)) (\<lambda>_.
    load_curve rt w (aa_pool_config acc) (aa_authority acc) (aa_target acc))"

definition stage_curve_slot ::
    "runtime \<Rightarrow> pubkey list \<Rightarrow> authority_accounts \<Rightarrow> stage_args \<Rightarrow> world \<Rightarrow> program_error + world" where
  "stage_curve_slot rt signers acc args w =
    and_then (load_curve_update rt signers acc w) (\<lambda>cs.
    and_then (custom (curve_stage cs args)) (\<lambda>cs'.
    Ok (w\<lparr>wd_curves := (wd_curves w)(aa_target acc \<mapsto> cs')\<rparr>)))"

definition activate_curve_slot ::
    "runtime \<Rightarrow> pubkey list \<Rightarrow> authority_accounts \<Rightarrow> activate_args \<Rightarrow> world \<Rightarrow> program_error + world" where
  "activate_curve_slot rt signers acc args w =
    and_then (load_curve_update rt signers acc w) (\<lambda>cs.
    and_then (custom (curve_activate cs args)) (\<lambda>cs'.
    Ok (w\<lparr>wd_curves := (wd_curves w)(aa_target acc \<mapsto> cs')\<rparr>)))"

section \<open>Vaults and funding\<close>

record vault_accounts =
  va_payer :: pubkey
  va_authority :: pubkey
  va_pool_config :: pubkey
  va_vault_authority :: pubkey
  va_base_mint :: pubkey
  va_quote_mint :: pubkey
  va_base_token_program :: pubkey
  va_quote_token_program :: pubkey
  va_vault_state :: pubkey
  va_base_vault :: pubkey
  va_quote_vault :: pubkey

text \<open>\<open>init\<close> of a token account: an empty account of the mint, owned by the vault authority.\<close>

definition init_token :: "pubkey \<Rightarrow> pubkey \<Rightarrow> pubkey \<Rightarrow> pubkey \<Rightarrow> world \<Rightarrow> program_error + world" where
  "init_token key mint authority program w =
    and_then (check_unused w key) (\<lambda>_.
    Ok (w\<lparr>wd_tokens := (wd_tokens w)(key \<mapsto>
      \<lparr>ta_mint = mint, ta_owner = authority, ta_program = program, ta_amount = 0\<rparr>)\<rparr>))"

definition initialize_maker_vaults ::
    "runtime \<Rightarrow> pubkey list \<Rightarrow> vault_accounts \<Rightarrow> world \<Rightarrow> program_error + world" where
  "initialize_maker_vaults rt signers acc w =
    and_then (check_signer signers (va_payer acc)) (\<lambda>_.
    and_then (authorized_pool rt signers w (va_authority acc) (va_pool_config acc)) (\<lambda>pc.
    and_then (check_found rt [VAULT_AUTHORITY_SEED, va_pool_config acc] (va_vault_authority acc)) (\<lambda>authority_bump.
    and_then (load_pool_mint w (va_base_token_program acc) (va_base_mint acc) (pc_base_mint pc)) (\<lambda>base_mint.
    and_then (load_pool_mint w (va_quote_token_program acc) (va_quote_mint acc) (pc_quote_mint pc)) (\<lambda>quote_mint.
    and_then (check_pool_token_program rt (va_base_token_program acc) (pc_base_token_program pc)) (\<lambda>_.
    and_then (check_pool_token_program rt (va_quote_token_program acc) (pc_quote_token_program pc)) (\<lambda>_.
    and_then (check_found rt [VAULT_STATE_SEED, va_pool_config acc] (va_vault_state acc)) (\<lambda>bump.
    and_then (check_unused w (va_vault_state acc)) (\<lambda>_.
    let vs = \<lparr>vs_pool_config = va_pool_config acc, vs_maker_authority = pc_authority pc,
       vs_base_vault = va_base_vault acc, vs_quote_vault = va_quote_vault acc,
       vs_base_mint = va_base_mint acc, vs_quote_mint = va_quote_mint acc,
       vs_vault_authority_bump = authority_bump, vs_bump = bump,
       vs_custody_model = CUSTODY_MODEL_MAKER_OWNED, vs_paused = False,
       vs_padding = replicate 4 0, vs_target_base_inventory = 0, vs_reserved = replicate 32 0\<rparr>;
       w1 = w\<lparr>wd_vaults := (wd_vaults w)(va_vault_state acc \<mapsto> vs)\<rparr>
    in and_then (check_found rt [BASE_VAULT_SEED, va_pool_config acc] (va_base_vault acc)) (\<lambda>_.
    and_then (init_token (va_base_vault acc) (va_base_mint acc) (va_vault_authority acc)
      (va_base_token_program acc) w1) (\<lambda>w2.
    and_then (check_found rt [QUOTE_VAULT_SEED, va_pool_config acc] (va_quote_vault acc)) (\<lambda>_.
    and_then (init_token (va_quote_vault acc) (va_quote_mint acc) (va_vault_authority acc)
      (va_quote_token_program acc) w2) (\<lambda>w3.
    and_then (custom (reject_unsupported_token_extensions rt base_mint)) (\<lambda>_.
    and_then (custom (reject_unsupported_token_extensions rt quote_mint)) (\<lambda>_.
    Ok w3)))))))))))))))"

record pool_accounts =
  ac_user :: pubkey
  ac_pool_config :: pubkey
  ac_quote_state :: pubkey
  ac_vault_authority :: pubkey
  ac_vault_state :: pubkey
  ac_base_mint :: pubkey
  ac_quote_mint :: pubkey
  ac_base_token_program :: pubkey
  ac_quote_token_program :: pubkey
  ac_user_base :: pubkey
  ac_user_quote :: pubkey
  ac_base_vault :: pubkey
  ac_quote_vault :: pubkey

text \<open>
  The part the contexts of \<open>fund_pool\<close> and \<open>swap_exact_in\<close> share: the vault authority and
  vault state, the mints and token programs of the pool, the user's two token accounts (the
  funding sources, or the taker's accounts) and the two vaults.
\<close>

record loaded =
  ld_vault :: vault_state
  ld_base_mint :: mint_account
  ld_quote_mint :: mint_account
  ld_base_vault :: token_account
  ld_quote_vault :: token_account

definition load_vault_side ::
    "runtime \<Rightarrow> world \<Rightarrow> pool_accounts \<Rightarrow> pool_config \<Rightarrow> pubkey \<Rightarrow> program_error + loaded" where
  "load_vault_side rt w acc pc maker =
    and_then (load_vault rt w (ac_pool_config acc) maker (ac_vault_state acc)) (\<lambda>vs.
    and_then (check_seeds rt [VAULT_AUTHORITY_SEED, ac_pool_config acc] (vs_vault_authority_bump vs)
      (ac_vault_authority acc)) (\<lambda>_.
    and_then (load_pool_mint w (ac_base_token_program acc) (ac_base_mint acc) (pc_base_mint pc)) (\<lambda>base_mint.
    and_then (load_pool_mint w (ac_quote_token_program acc) (ac_quote_mint acc) (pc_quote_mint pc)) (\<lambda>quote_mint.
    and_then (check_pool_token_program rt (ac_base_token_program acc) (pc_base_token_program pc)) (\<lambda>_.
    and_then (check_pool_token_program rt (ac_quote_token_program acc) (pc_quote_token_program pc)) (\<lambda>_.
    and_then (load_token w (ac_base_mint acc) (ac_user acc) (ac_base_token_program acc) (ac_user_base acc)) (\<lambda>_.
    and_then (load_token w (ac_quote_mint acc) (ac_user acc) (ac_quote_token_program acc) (ac_user_quote acc)) (\<lambda>_.
    and_then (load_token w (ac_base_mint acc) (ac_vault_authority acc) (ac_base_token_program acc)
      (ac_base_vault acc)) (\<lambda>base_vault.
    and_then (require (ac_base_vault acc = vs_base_vault vs) (Custom VaultAccountMismatch)) (\<lambda>_.
    and_then (load_token w (ac_quote_mint acc) (ac_vault_authority acc) (ac_quote_token_program acc)
      (ac_quote_vault acc)) (\<lambda>quote_vault.
    and_then (require (ac_quote_vault acc = vs_quote_vault vs) (Custom VaultAccountMismatch)) (\<lambda>_.
    Ok \<lparr>ld_vault = vs, ld_base_mint = base_mint, ld_quote_mint = quote_mint,
        ld_base_vault = base_vault, ld_quote_vault = quote_vault\<rparr>))))))))))))"

definition base_transfer :: "pool_accounts \<Rightarrow> loaded \<Rightarrow> pubkey \<Rightarrow> pubkey \<Rightarrow> pubkey \<Rightarrow> u64 \<Rightarrow> transfer" where
  "base_transfer acc ld src dst authority amount =
    \<lparr>tr_program = ac_base_token_program acc, tr_from = src, tr_mint = ac_base_mint acc,
     tr_to = dst, tr_authority = authority, tr_amount = amount,
     tr_decimals = mi_decimals (ld_base_mint ld)\<rparr>"

definition quote_transfer :: "pool_accounts \<Rightarrow> loaded \<Rightarrow> pubkey \<Rightarrow> pubkey \<Rightarrow> pubkey \<Rightarrow> u64 \<Rightarrow> transfer" where
  "quote_transfer acc ld src dst authority amount =
    \<lparr>tr_program = ac_quote_token_program acc, tr_from = src, tr_mint = ac_quote_mint acc,
     tr_to = dst, tr_authority = authority, tr_amount = amount,
     tr_decimals = mi_decimals (ld_quote_mint ld)\<rparr>"

definition fund_pool ::
    "runtime \<Rightarrow> pubkey list \<Rightarrow> pool_accounts \<Rightarrow> fund_args \<Rightarrow> world \<Rightarrow> program_error + world" where
  "fund_pool rt signers acc args w =
    and_then (authorized_pool rt signers w (ac_user acc) (ac_pool_config acc)) (\<lambda>pc.
    and_then (load_vault_side rt w acc pc (ac_user acc)) (\<lambda>ld.
    and_then (custom (fund_args_validate args)) (\<lambda>_.
    and_then (custom (reject_unsupported_token_extensions rt (ld_base_mint ld))) (\<lambda>_.
    and_then (custom (reject_unsupported_token_extensions rt (ld_quote_mint ld))) (\<lambda>_.
    and_then (custom (assert_maker_owned_for_pool (ld_vault ld) (ac_pool_config acc) (pc_authority pc)
      (ac_base_vault acc) (ac_quote_vault acc))) (\<lambda>_.
    and_then (if 0 < fa_base_amount args
       then transfer_checked rt (base_transfer acc ld (ac_user_base acc) (ac_base_vault acc)
              (ac_user acc) (fa_base_amount args)) w
       else Ok w) (\<lambda>w1.
    and_then (if 0 < fa_quote_amount args
       then transfer_checked rt (quote_transfer acc ld (ac_user_quote acc) (ac_quote_vault acc)
              (ac_user acc) (fa_quote_amount args)) w1
       else Ok w1) (\<lambda>w2.
    and_then (custom (apply_base_funding_to_target (ld_vault ld) (ta_amount (ld_base_vault ld))
      (fa_base_amount args))) (\<lambda>vs.
    Ok (w2\<lparr>wd_vaults := (wd_vaults w2)(ac_vault_state acc \<mapsto> vs)\<rparr>))))))))))"

section \<open>Swapping\<close>

definition swap_state ::
    "pool_config \<Rightarrow> quote_state \<Rightarrow> loaded \<Rightarrow> u64 \<Rightarrow> reference_quote_state" where
  "swap_state pc qs ld slot =
    \<lparr>base_inventory = ta_amount (ld_base_vault ld), quote_inventory = ta_amount (ld_quote_vault ld),
     target_base_inventory = vs_target_base_inventory (ld_vault ld),
     mid_price = Q64x64 (qs_mid_price_q64x64 qs), mid_publish_slot = qs_publish_slot qs,
     now_slot = slot,
     paused = (pc_paused pc \<or> qs_paused qs \<or> vs_paused (ld_vault ld))\<rparr>"

definition swap_params :: "pool_config \<Rightarrow> quote_state \<Rightarrow> reference_quote_params" where
  "swap_params pc qs =
    (let params = pool_params pc
     in params\<lparr>base_half_spread_bps := quote_base_half_spread_bps qs (base_half_spread_bps params)\<rparr>)"

definition swap_event ::
    "pool_accounts \<Rightarrow> swap_args \<Rightarrow> quote_state \<Rightarrow> u64 \<Rightarrow> reference_quote \<Rightarrow> reference_swap_event" where
  "swap_event acc args qs slot q =
    \<lparr>ev_pool_config = ac_pool_config acc, ev_taker = ac_user acc,
     ev_base_to_quote = sw_base_to_quote args, ev_amount_in = sw_amount_in args,
     ev_amount_in_less_fee = rq_amount_in_less_fee q, ev_amount_out = rq_amount_out q,
     ev_quote_sequence = qs_sequence qs, ev_quote_publish_slot = qs_publish_slot qs,
     ev_quote_age_slots = saturating_sub slot (qs_publish_slot qs),
     ev_age_state = quote_age_state_to_u8 (rq_age_state q),
     ev_mid_price_q64x64 = qs_mid_price_q64x64 qs,
     ev_effective_price_q64x64 = raw (rq_effective_price q),
     ev_applied_spread_bps = rq_applied_spread_bps q,
     ev_inventory_imbalance_bps = rq_inventory_imbalance_bps q,
     ev_new_base_inventory = rq_new_base_inventory q,
     ev_new_quote_inventory = rq_new_quote_inventory q\<rparr>"

text \<open>The context and the checks of the handler before the price is computed.\<close>

definition swap_checks ::
    "runtime \<Rightarrow> pubkey list \<Rightarrow> pool_accounts \<Rightarrow> swap_args \<Rightarrow> u64 \<Rightarrow> world
      \<Rightarrow> program_error + (pool_config \<times> quote_state \<times> loaded)" where
  "swap_checks rt signers acc args now w =
    and_then (check_signer signers (ac_user acc)) (\<lambda>_.
    and_then (load_pool rt w (ac_pool_config acc)) (\<lambda>pc.
    and_then (load_quote rt w (ac_pool_config acc) (ac_quote_state acc)) (\<lambda>qs.
    and_then (load_vault_side rt w acc pc (pc_authority pc)) (\<lambda>ld.
    and_then (custom (swap_args_validate args)) (\<lambda>_.
    and_then (custom (reject_unsupported_token_extensions rt (ld_base_mint ld))) (\<lambda>_.
    and_then (custom (reject_unsupported_token_extensions rt (ld_quote_mint ld))) (\<lambda>_.
    and_then (custom (pool_same_slot_order pc)) (\<lambda>order.
    and_then (custom (assert_usable_for_swap qs (ac_pool_config acc) order
      (sw_expected_quote_sequence args) now)) (\<lambda>_.
    and_then (custom (assert_maker_owned_for_pool (ld_vault ld) (ac_pool_config acc) (pc_authority pc)
      (ac_base_vault acc) (ac_quote_vault acc))) (\<lambda>_.
    and_then (require (\<not> pc_paused pc) (Custom PoolConfigPaused)) (\<lambda>_.
    and_then (require (0 < vs_target_base_inventory (ld_vault ld)) (Custom UninitializedInventoryTarget)) (\<lambda>_.
    Ok (pc, qs, ld)))))))))))))"

definition swap_exact_in ::
    "runtime \<Rightarrow> pubkey list \<Rightarrow> pool_accounts \<Rightarrow> swap_args \<Rightarrow> u64 \<Rightarrow> world \<Rightarrow> program_error + world" where
  "swap_exact_in rt signers acc args now w =
    and_then (swap_checks rt signers acc args now w) (\<lambda>(pc, qs, ld).
    and_then (custom (map_err map_swap_math_error
      (reference_quote_exact_in (swap_state pc qs ld now) (swap_params pc qs)
        (sw_amount_in args) (sw_base_to_quote args)))) (\<lambda>q.
    and_then (require (sw_minimum_amount_out args \<le> rq_amount_out q) (Custom SlippageExceeded)) (\<lambda>_.
    and_then
      (if sw_base_to_quote args then
         and_then (transfer_checked rt (base_transfer acc ld (ac_user_base acc) (ac_base_vault acc)
           (ac_user acc) (sw_amount_in args)) w) (\<lambda>w1.
         transfer_checked rt (quote_transfer acc ld (ac_quote_vault acc) (ac_user_quote acc)
           (ac_vault_authority acc) (rq_amount_out q)) w1)
       else
         and_then (transfer_checked rt (quote_transfer acc ld (ac_user_quote acc) (ac_quote_vault acc)
           (ac_user acc) (sw_amount_in args)) w) (\<lambda>w1.
         transfer_checked rt (base_transfer acc ld (ac_base_vault acc) (ac_user_base acc)
           (ac_vault_authority acc) (rq_amount_out q)) w1)) (\<lambda>w2.
    Ok (w2\<lparr>wd_events := wd_events w2 @ [swap_event acc args qs now q]\<rparr>)))))"

end
