(* ===== verification/Program_Steps.thy ===== *)
theory Program_Steps imports Program begin

text \<open>
  The program as a transition system: instructions are executed one after the other at
  non-decreasing slots, a failed instruction leaves the world unchanged, and between
  instructions the environment may change token accounts and mints at will.  Invariants are
  proved per instruction and lifted to every reachable world.
\<close>

section \<open>Instructions and steps\<close>

datatype instruction =
    InitializePool initialize_pool_accounts initialize_pool_args
  | InitializeQuoteState authority_accounts pubkey
  | UpdateQuote update_accounts update_quote_args
  | UpdateQuoteV2 update_accounts update_quote_v2_args
  | PausePool authority_accounts bool
  | InitializeCurve authority_accounts
  | StageCurve authority_accounts stage_args
  | ActivateCurve authority_accounts activate_args
  | InitializeVaults vault_accounts
  | Fund pool_accounts fund_args
  | Swap pool_accounts swap_args

definition execute :: "runtime \<Rightarrow> pubkey list \<Rightarrow> u64 \<Rightarrow> instruction \<Rightarrow> world \<Rightarrow> program_error + world" where
  "execute rt signers slot ix w = (case ix of
     InitializePool acc args \<Rightarrow> initialize_reference_quote_pool rt signers acc args w
   | InitializeQuoteState acc qa \<Rightarrow> initialize_reference_quote_state rt signers acc qa w
   | UpdateQuote acc args \<Rightarrow> update_reference_quote rt signers acc args slot w
   | UpdateQuoteV2 acc args \<Rightarrow> update_reference_quote_v2 rt signers acc args slot w
   | PausePool acc flag \<Rightarrow> pause_pool rt signers acc flag w
   | InitializeCurve acc \<Rightarrow> initialize_curve_slot_state rt signers acc w
   | StageCurve acc args \<Rightarrow> stage_curve_slot rt signers acc args w
   | ActivateCurve acc args \<Rightarrow> activate_curve_slot rt signers acc args w
   | InitializeVaults acc \<Rightarrow> initialize_maker_vaults rt signers acc w
   | Fund acc args \<Rightarrow> fund_pool rt signers acc args w
   | Swap acc args \<Rightarrow> swap_exact_in rt signers acc args slot w)"

text \<open>Account keys are 32 bytes; only the keys written into a layout matter here.\<close>

fun keys_wf :: "instruction \<Rightarrow> bool" where
  "keys_wf (InitializePool acc args) \<longleftrightarrow> is_pubkey (ia_base_mint acc) \<and> is_pubkey (ia_quote_mint acc)
     \<and> is_pubkey (ia_base_token_program acc) \<and> is_pubkey (ia_quote_token_program acc)"
| "keys_wf _ \<longleftrightarrow> True"

record chain =
  ch_slot :: u64
  ch_world :: world

definition empty_world :: world where
  "empty_world = \<lparr>wd_pools = (\<lambda>_. None), wd_quotes = (\<lambda>_. None), wd_curves = (\<lambda>_. None),
     wd_vaults = (\<lambda>_. None), wd_tokens = (\<lambda>_. None), wd_mints = (\<lambda>_. None), wd_events = []\<rparr>"

inductive chain_step :: "runtime \<Rightarrow> chain \<Rightarrow> chain \<Rightarrow> bool" for rt where
  executed: "keys_wf ix \<Longrightarrow> ch_slot c \<le> slot \<Longrightarrow> execute rt signers slot ix (ch_world c) = Ok w' \<Longrightarrow>
    chain_step rt c \<lparr>ch_slot = slot, ch_world = w'\<rparr>"
| refused: "ch_slot c \<le> slot \<Longrightarrow> execute rt signers slot ix (ch_world c) = Err e \<Longrightarrow>
    chain_step rt c \<lparr>ch_slot = slot, ch_world = ch_world c\<rparr>"
| environment: "ch_slot c \<le> slot \<Longrightarrow>
    chain_step rt c \<lparr>ch_slot = slot,
      ch_world = (ch_world c)\<lparr>wd_tokens := tokens, wd_mints := mints\<rparr>\<rparr>"

inductive reachable :: "runtime \<Rightarrow> chain \<Rightarrow> bool" for rt where
  start: "ch_world c = empty_world \<Longrightarrow> reachable rt c"
| step: "reachable rt c \<Longrightarrow> chain_step rt c c' \<Longrightarrow> reachable rt c'"

inductive_cases chain_stepE: "chain_step rt c c'"

section \<open>What the loaders guarantee\<close>

named_theorems load_simps \<open>inversion of the account loaders\<close>

lemma lookup_account_Ok [load_simps]: "lookup_account m k = Ok v \<longleftrightarrow> m k = Some v"
  by (simp add: lookup_account_def ok_or_eq)

lemma load_pool_Ok [load_simps]:
  "load_pool rt w k = Ok pc \<longleftrightarrow> wd_pools w k = Some pc
     \<and> rt_create_address rt (pool_seeds (pc_authority pc) (pc_base_mint pc) (pc_quote_mint pc) @ [[pc_bump pc]]) = Some k"
  by (auto simp: load_pool_def and_then_eq_Ok lookup_account_Ok check_seeds_def)

lemma load_quote_Ok [load_simps]:
  "load_quote rt w pool k = Ok qs \<longleftrightarrow> wd_quotes w k = Some qs
     \<and> rt_create_address rt ([QUOTE_STATE_SEED, pool] @ [[qs_bump qs]]) = Some k
     \<and> qs_pool_config qs = pool"
  by (auto simp: load_quote_def and_then_eq_Ok lookup_account_Ok check_seeds_def)

lemma load_curve_Ok [load_simps]:
  "load_curve rt w pool a k = Ok cs \<longleftrightarrow> wd_curves w k = Some cs
     \<and> rt_create_address rt ([CURVE_SLOT_STATE_SEED, pool] @ [[cs_bump cs]]) = Some k
     \<and> cs_pool_config cs = pool \<and> cs_authority cs = a"
  by (auto simp: load_curve_def and_then_eq_Ok lookup_account_Ok check_seeds_def)

lemma load_vault_Ok [load_simps]:
  "load_vault rt w pool maker k = Ok vs \<longleftrightarrow> wd_vaults w k = Some vs
     \<and> rt_create_address rt ([VAULT_STATE_SEED, pool] @ [[vs_bump vs]]) = Some k
     \<and> vs_pool_config vs = pool \<and> vs_maker_authority vs = maker
     \<and> vs_custody_model vs = CUSTODY_MODEL_MAKER_OWNED \<and> \<not> vs_paused vs"
  by (auto simp: load_vault_def and_then_eq_Ok lookup_account_Ok check_seeds_def)

lemma load_token_Ok [load_simps]:
  "load_token w mint auth prog k = Ok t \<longleftrightarrow> wd_tokens w k = Some t
     \<and> ta_mint t = mint \<and> ta_owner t = auth \<and> ta_program t = prog"
  by (auto simp: load_token_def and_then_eq_Ok lookup_account_Ok)

lemma load_mint_Ok [load_simps]:
  "load_mint w prog k = Ok m \<longleftrightarrow> wd_mints w k = Some m \<and> mi_program m = prog"
  by (auto simp: load_mint_def and_then_eq_Ok lookup_account_Ok)

lemma authorized_pool_Ok [load_simps]:
  "authorized_pool rt signers w a k = Ok pc \<longleftrightarrow> a \<in> set signers \<and> load_pool rt w k = Ok pc
     \<and> pc_authority pc = a"
  by (auto simp: authorized_pool_def and_then_eq_Ok check_signer_def)

lemma load_update_Ok [load_simps]:
  "load_update rt signers acc w = Ok (pc, qs) \<longleftrightarrow> up_quote_signer acc \<in> set signers
     \<and> load_pool rt w (up_pool_config acc) = Ok pc
     \<and> load_quote rt w (up_pool_config acc) (up_quote_state acc) = Ok qs"
  by (auto simp: load_update_def and_then_eq_Ok check_signer_def)

lemma load_curve_update_Ok [load_simps]:
  "load_curve_update rt signers acc w = Ok cs \<longleftrightarrow>
     (\<exists>pc. authorized_pool rt signers w (aa_authority acc) (aa_pool_config acc) = Ok pc)
     \<and> load_curve rt w (aa_pool_config acc) (aa_authority acc) (aa_target acc) = Ok cs"
  by (auto simp: load_curve_update_def and_then_eq_Ok)

lemma transfer_checked_Ok [load_simps]:
  "transfer_checked rt t w = Ok w' \<longleftrightarrow>
     (\<exists>tokens. rt_transfer rt t (wd_mints w) (wd_tokens w) = Some tokens \<and> w' = w\<lparr>wd_tokens := tokens\<rparr>)"
  by (auto simp: transfer_checked_def map_ok_eq ok_or_eq)

lemma load_vault_side_Ok:
  assumes "load_vault_side rt w acc pc maker = Ok ld"
  shows "load_vault rt w (ac_pool_config acc) maker (ac_vault_state acc) = Ok (ld_vault ld)"
    "rt_create_address rt ([VAULT_AUTHORITY_SEED, ac_pool_config acc] @ [[vs_vault_authority_bump (ld_vault ld)]])
      = Some (ac_vault_authority acc)"
    "wd_mints w (ac_base_mint acc) = Some (ld_base_mint ld)"
    "wd_mints w (ac_quote_mint acc) = Some (ld_quote_mint ld)"
    "\<exists>t. load_token w (ac_base_mint acc) (ac_user acc) (ac_base_token_program acc) (ac_user_base acc) = Ok t"
    "\<exists>t. load_token w (ac_quote_mint acc) (ac_user acc) (ac_quote_token_program acc) (ac_user_quote acc) = Ok t"
    "load_token w (ac_base_mint acc) (ac_vault_authority acc) (ac_base_token_program acc) (ac_base_vault acc)
      = Ok (ld_base_vault ld)"
    "load_token w (ac_quote_mint acc) (ac_vault_authority acc) (ac_quote_token_program acc) (ac_quote_vault acc)
      = Ok (ld_quote_vault ld)"
    "ac_base_vault acc = vs_base_vault (ld_vault ld)" "ac_quote_vault acc = vs_quote_vault (ld_vault ld)"
    "mi_program (ld_base_mint ld) = ac_base_token_program acc"
    "mi_program (ld_quote_mint ld) = ac_quote_token_program acc"
    "ac_base_token_program acc \<in> {rt_token_program rt, rt_token_2022_program rt}"
    "ac_quote_token_program acc \<in> {rt_token_program rt, rt_token_2022_program rt}"
  using assms
  by (auto simp: load_vault_side_def and_then_eq_Ok check_seeds_def load_pool_mint_def load_mint_Ok
      check_pool_token_program_def check_token_interface_def)

end
