(* ===== verification/Program_Effects.thy ===== *)
theory Program_Effects imports Program_Steps begin

text \<open>
  What a successful instruction did: for each handler, the account it wrote, the checks that
  held and the new contents, and the accounts it left alone.
\<close>

section \<open>The effect of each instruction\<close>

lemma pool_same_slot_order_Ok:
  "pool_same_slot_order pc = Ok b \<longleftrightarrow> b = pc_layout pc ! 90 \<and> (b = 0 \<or> b = 1)"
  by (auto simp: pool_same_slot_order_def Let_def REFERENCE_QUOTE_POOL_CONFIG_SAME_SLOT_ORDER_OFFSET_def)

lemma initialize_pool_Ok:
  assumes "initialize_reference_quote_pool rt signers acc args w = Ok w'"
  shows "ia_authority acc \<in> set signers"
    and "\<exists>base quote bump strategy layout bytes.
      wd_mints w (ia_base_mint acc) = Some base \<and> wd_mints w (ia_quote_mint acc) = Some quote
    \<and> unused w (ia_pool_config acc)
    \<and> rt_find_address rt (pool_seeds (ia_authority acc) (ia_base_mint acc) (ia_quote_mint acc))
        = (ia_pool_config acc, bump)
    \<and> args_strategy_config args = Ok strategy
    \<and> compile_pool_config_account \<lparr>in_strategy = strategy,
        in_token_pair = \<lparr>tp_base_mint = ia_base_mint acc, tp_quote_mint = ia_quote_mint acc,
          tp_base_token_program = ia_base_token_program acc,
          tp_quote_token_program = ia_quote_token_program acc,
          tp_base_decimals = mi_decimals base, tp_quote_decimals = mi_decimals quote\<rparr>,
        in_account_budget = args_to_account_budget (ip_account_budget args)\<rparr> bump False = Some (Ok layout)
    \<and> layout_to_bytes layout = Some bytes
    \<and> w' = w\<lparr>wd_pools := (wd_pools w)(ia_pool_config acc \<mapsto>
        \<lparr>pc_authority = ia_authority acc, pc_base_mint = ia_base_mint acc,
         pc_quote_mint = ia_quote_mint acc, pc_base_token_program = ia_base_token_program acc,
         pc_quote_token_program = ia_quote_token_program acc, pc_bump = bump, pc_paused = False,
         pc_layout = bytes\<rparr>)\<rparr>"
  using assms
  by (auto simp: initialize_reference_quote_pool_def and_then_eq_Ok check_signer_def load_mint_Ok
      check_found_def check_unused_def ok_or_eq map_err_eq Let_def prod_eq_iff)

lemma initialize_state_Ok:
  assumes "initialize_reference_quote_state rt signers acc qa w = Ok w'"
  shows "\<exists>pc bump order. authorized_pool rt signers w (aa_authority acc) (aa_pool_config acc) = Ok pc
    \<and> unused w (aa_target acc) \<and> qa \<noteq> default_pubkey \<and> pool_same_slot_order pc = Ok order
    \<and> w' = w\<lparr>wd_quotes := (wd_quotes w)(aa_target acc \<mapsto>
        set_base_half_spread_bps (base_half_spread_bps (pool_params pc))
      \<lparr>qs_pool_config = aa_pool_config acc, qs_quote_authority = qa, qs_bump = bump,
       qs_paused = False, qs_same_slot_order = order, qs_padding = replicate 5 0,
       qs_mid_price_q64x64 = 0, qs_publish_slot = 0, qs_sequence = 0, qs_last_update_slot = 0\<rparr>)\<rparr>"
  using assms
  by (auto simp: initialize_reference_quote_state_def and_then_eq_Ok check_unused_def map_err_eq Let_def)

lemma update_Ok:
  assumes "update_reference_quote rt signers acc args slot w = Ok w'"
  shows "\<exists>pc qs qs'. load_update rt signers acc w = Ok (pc, qs)
    \<and> pool_same_slot_order pc = Ok (qs_same_slot_order qs)
    \<and> apply_update qs (pc_authority pc) (up_quote_signer acc) args slot = Ok qs'
    \<and> w' = w\<lparr>wd_quotes := (wd_quotes w)(up_quote_state acc \<mapsto> qs')\<rparr>"
  using assms by (auto simp: update_reference_quote_def and_then_eq_Ok map_err_eq)

lemma update_v2_Ok:
  assumes "update_reference_quote_v2 rt signers acc args slot w = Ok w'"
  shows "\<exists>pc qs qs'. load_update rt signers acc w = Ok (pc, qs)
    \<and> pool_same_slot_order pc = Ok (qs_same_slot_order qs)
    \<and> validate_reference_quote_base_spread (u2_base_half_spread_bps args) (pool_params pc) = Ok ()
    \<and> apply_update qs (pc_authority pc) (up_quote_signer acc) (to_legacy_args args) slot = Ok qs'
    \<and> w' = w\<lparr>wd_quotes := (wd_quotes w)(up_quote_state acc \<mapsto>
        set_base_half_spread_bps (u2_base_half_spread_bps args) qs')\<rparr>"
  using assms by (auto simp: update_reference_quote_v2_def and_then_eq_Ok map_err_eq)

lemma initialize_curve_Ok:
  assumes "initialize_curve_slot_state rt signers acc w = Ok w'"
  shows "\<exists>pc bump. authorized_pool rt signers w (aa_authority acc) (aa_pool_config acc) = Ok pc
    \<and> unused w (aa_target acc)
    \<and> w' = w\<lparr>wd_curves := (wd_curves w)(aa_target acc \<mapsto>
      \<lparr>cs_pool_config = aa_pool_config acc, cs_authority = pc_authority pc, cs_bump = bump,
       cs_active_slot = 0, cs_pending_slot = 0, cs_padding = replicate 5 0,
       cs_pending_hash = replicate 32 0, cs_sequence = 0, cs_reserved = replicate 32 0\<rparr>)\<rparr>"
  using assms by (auto simp: initialize_curve_slot_state_def and_then_eq_Ok check_unused_def)

text \<open>Only the token accounts differ.\<close>

definition same_but_tokens :: "world \<Rightarrow> world \<Rightarrow> bool" where
  "same_but_tokens w w' \<longleftrightarrow> w' = w\<lparr>wd_tokens := wd_tokens w'\<rparr>"

lemma same_but_tokens_refl [simp]: "same_but_tokens w w"
  by (simp add: same_but_tokens_def)

lemma same_but_tokensD:
  "same_but_tokens w w' \<Longrightarrow> wd_pools w' = wd_pools w \<and> wd_quotes w' = wd_quotes w
     \<and> wd_curves w' = wd_curves w \<and> wd_vaults w' = wd_vaults w \<and> wd_mints w' = wd_mints w
     \<and> wd_events w' = wd_events w"
  by (cases w; cases w') (simp add: same_but_tokens_def)

lemma transfer_frame: "transfer_checked rt t w = Ok w' \<Longrightarrow> same_but_tokens w w'"
  by (auto simp: transfer_checked_Ok same_but_tokens_def)

lemma init_token_frame: "init_token k m a p w = Ok w' \<Longrightarrow> same_but_tokens w w'"
  by (auto simp: init_token_def and_then_eq_Ok same_but_tokens_def)

lemma same_but_tokens_trans:
  "same_but_tokens w w1 \<Longrightarrow> same_but_tokens w1 w2 \<Longrightarrow> same_but_tokens w w2"
  by (cases w; cases w1; cases w2) (simp add: same_but_tokens_def)

lemma initialize_vaults_Ok:
  assumes "initialize_maker_vaults rt signers acc w = Ok w'"
  shows "\<exists>pc vs. authorized_pool rt signers w (va_authority acc) (va_pool_config acc) = Ok pc
    \<and> unused w (va_vault_state acc) \<and> vs_pool_config vs = va_pool_config acc
    \<and> vs_maker_authority vs = pc_authority pc \<and> vs_custody_model vs = CUSTODY_MODEL_MAKER_OWNED
    \<and> vs_target_base_inventory vs = 0 \<and> \<not> vs_paused vs
    \<and> same_but_tokens (w\<lparr>wd_vaults := (wd_vaults w)(va_vault_state acc \<mapsto> vs)\<rparr>) w'"
proof -
  obtain pc ab bump u w2 where pc: "authorized_pool rt signers w (va_authority acc) (va_pool_config acc) = Ok pc"
    and un: "check_unused w (va_vault_state acc) = Ok u"
    and w2: "init_token (va_base_vault acc) (va_base_mint acc) (va_vault_authority acc)
      (va_base_token_program acc) (w\<lparr>wd_vaults := (wd_vaults w)(va_vault_state acc \<mapsto>
        \<lparr>vs_pool_config = va_pool_config acc, vs_maker_authority = pc_authority pc,
       vs_base_vault = va_base_vault acc, vs_quote_vault = va_quote_vault acc,
       vs_base_mint = va_base_mint acc, vs_quote_mint = va_quote_mint acc,
       vs_vault_authority_bump = ab, vs_bump = bump,
       vs_custody_model = CUSTODY_MODEL_MAKER_OWNED, vs_paused = False,
       vs_padding = replicate 4 0, vs_target_base_inventory = 0, vs_reserved = replicate 32 0\<rparr>)\<rparr>) = Ok w2"
    (is "init_token _ _ _ _ (w\<lparr>wd_vaults := (wd_vaults w)(_ \<mapsto> ?vs)\<rparr>) = _")
    and w3: "init_token (va_quote_vault acc) (va_quote_mint acc) (va_vault_authority acc)
      (va_quote_token_program acc) w2 = Ok w'"
    using assms
    unfolding initialize_maker_vaults_def Let_def and_then_eq_Ok
    by - (elim exE conjE, rule that, assumption+, simp)
  have "same_but_tokens (w\<lparr>wd_vaults := (wd_vaults w)(va_vault_state acc \<mapsto> ?vs)\<rparr>) w'"
    using init_token_frame[OF w2] init_token_frame[OF w3] by (rule same_but_tokens_trans)
  then show ?thesis using pc un by (intro exI[of _ pc] exI[of _ ?vs]) (simp add: check_unused_def)
qed

lemma fund_Ok:
  assumes "fund_pool rt signers acc args w = Ok w'"
  shows "\<exists>pc ld vs w2. authorized_pool rt signers w (ac_user acc) (ac_pool_config acc) = Ok pc
    \<and> load_vault_side rt w acc pc (ac_user acc) = Ok ld
    \<and> apply_base_funding_to_target (ld_vault ld) (ta_amount (ld_base_vault ld)) (fa_base_amount args) = Ok vs
    \<and> same_but_tokens w w2
    \<and> w' = w2\<lparr>wd_vaults := (wd_vaults w2)(ac_vault_state acc \<mapsto> vs)\<rparr>"
proof -
  obtain pc ld vs w1 w2 where "authorized_pool rt signers w (ac_user acc) (ac_pool_config acc) = Ok pc"
      "load_vault_side rt w acc pc (ac_user acc) = Ok ld"
    and w1: "(if 0 < fa_base_amount args
       then transfer_checked rt (base_transfer acc ld (ac_user_base acc) (ac_base_vault acc)
              (ac_user acc) (fa_base_amount args)) w else Ok w) = Ok w1"
    and w2: "(if 0 < fa_quote_amount args
       then transfer_checked rt (quote_transfer acc ld (ac_user_quote acc) (ac_quote_vault acc)
              (ac_user acc) (fa_quote_amount args)) w1 else Ok w1) = Ok w2"
    and "custom (apply_base_funding_to_target (ld_vault ld) (ta_amount (ld_base_vault ld))
      (fa_base_amount args)) = Ok vs"
    and "w' = w2\<lparr>wd_vaults := (wd_vaults w2)(ac_vault_state acc \<mapsto> vs)\<rparr>"
    using assms unfolding fund_pool_def and_then_eq_Ok by blast
  moreover have "same_but_tokens w w1" "same_but_tokens w1 w2"
    using w1 w2 transfer_frame by (cases "0 < fa_base_amount args"; cases "0 < fa_quote_amount args"; simp)+
  then have "same_but_tokens w w2" by (rule same_but_tokens_trans)
  ultimately show ?thesis by (auto simp: map_err_eq)
qed

lemma swap_Ok:
  assumes "swap_exact_in rt signers acc args now w = Ok w'"
  shows "\<exists>pc qs ld q tokens. swap_checks rt signers acc args now w = Ok (pc, qs, ld)
    \<and> reference_quote_exact_in (swap_state pc qs ld now) (swap_params pc qs)
        (sw_amount_in args) (sw_base_to_quote args) = Ok q
    \<and> sw_minimum_amount_out args \<le> rq_amount_out q
    \<and> (if sw_base_to_quote args
       then \<exists>t1. rt_transfer rt (base_transfer acc ld (ac_user_base acc) (ac_base_vault acc)
              (ac_user acc) (sw_amount_in args)) (wd_mints w) (wd_tokens w) = Some t1
          \<and> rt_transfer rt (quote_transfer acc ld (ac_quote_vault acc) (ac_user_quote acc)
              (ac_vault_authority acc) (rq_amount_out q)) (wd_mints w) t1 = Some tokens
       else \<exists>t1. rt_transfer rt (quote_transfer acc ld (ac_user_quote acc) (ac_quote_vault acc)
              (ac_user acc) (sw_amount_in args)) (wd_mints w) (wd_tokens w) = Some t1
          \<and> rt_transfer rt (base_transfer acc ld (ac_base_vault acc) (ac_user_base acc)
              (ac_vault_authority acc) (rq_amount_out q)) (wd_mints w) t1 = Some tokens)
    \<and> w' = w\<lparr>wd_tokens := tokens, wd_events := wd_events w @ [swap_event acc args qs now q]\<rparr>"
  using assms
  by (cases "sw_base_to_quote args")
    (auto simp: swap_exact_in_def and_then_eq_Ok map_err_eq transfer_checked_Ok)

end
