(* ===== verification/Program_Invariants.thy ===== *)
theory Program_Invariants imports Program_Effects begin

text \<open>
  What happens to each kind of account along any run of the chain: who may change it, what the
  change is, and the invariant every reachable world satisfies.  The four kinds of account meet
  one contract, the locale \<open>account_kind\<close>.
\<close>

section \<open>Accounts along a run\<close>

locale account_kind =
  fixes rt :: runtime and get :: "world \<Rightarrow> pubkey \<Rightarrow> 'a option"
    and born :: "pubkey list \<Rightarrow> u64 \<Rightarrow> world \<Rightarrow> 'a \<Rightarrow> bool"
    and upd :: "pubkey list \<Rightarrow> u64 \<Rightarrow> world \<Rightarrow> 'a \<Rightarrow> 'a \<Rightarrow> bool"
  assumes exec_change: "keys_wf ix \<Longrightarrow> execute rt signers slot ix w = Ok w' \<Longrightarrow>
      get w' k = get w k
    \<or> get w k = None \<and> (\<exists>a. get w' k = Some a \<and> born signers slot w a)
    \<or> (\<exists>a a'. get w k = Some a \<and> get w' k = Some a' \<and> upd signers slot w a a')"
    and outside: "get (w\<lparr>wd_tokens := t, wd_mints := m\<rparr>) = get w"
begin

lemma step_account:
  assumes "chain_step rt c c'" "get (ch_world c) k = Some a"
  shows "get (ch_world c') k = Some a \<or> (\<exists>signers slot a'. ch_slot c \<le> slot \<and> slot = ch_slot c'
    \<and> get (ch_world c') k = Some a' \<and> upd signers slot (ch_world c) a a')"
  using assms
proof (cases rule: chain_step.cases)
  case (executed ix slot signers w')
  with exec_change[OF executed(2,4), of k] assms(2) show ?thesis by auto
qed (use assms(2) outside in auto)

text \<open>Whatever one update keeps, a whole run keeps; and no account is ever removed.\<close>

lemma run_keeps:
  assumes "(chain_step rt)\<^sup>*\<^sup>* c c'" "get (ch_world c) k = Some a"
    and R: "\<And>signers slot w a a'. upd signers slot w a a' \<Longrightarrow> R a a'"
    and "\<And>a. R a a" and trans: "\<And>a b c. R a b \<Longrightarrow> R b c \<Longrightarrow> R a c"
  shows "\<exists>a'. get (ch_world c') k = Some a' \<and> R a a'"
  using assms(1)
proof (induction rule: rtranclp_induct)
  case base
  then show ?case using assms(2,4) by blast
next
  case (step c1 c2)
  then obtain a1 where a1: "get (ch_world c1) k = Some a1" "R a a1" by blast
  from step_account[OF step(2) a1(1)] show ?case using a1(2) R trans by blast
qed

end

section \<open>Pools\<close>

definition pool_inv :: "pool_config \<Rightarrow> bool" where
  "pool_inv pc \<longleftrightarrow> length (pc_layout pc) = 448 \<and> config_params_ok (pool_params pc)
     \<and> (pc_layout pc ! 90 = 0 \<or> pc_layout pc ! 90 = 1)"

definition pool_born :: "pubkey list \<Rightarrow> u64 \<Rightarrow> world \<Rightarrow> pool_config \<Rightarrow> bool" where
  "pool_born signers slot w pc \<longleftrightarrow> pc_authority pc \<in> set signers \<and> \<not> pc_paused pc \<and> pool_inv pc"

definition pool_upd :: "pubkey list \<Rightarrow> u64 \<Rightarrow> world \<Rightarrow> pool_config \<Rightarrow> pool_config \<Rightarrow> bool" where
  "pool_upd signers slot w pc pc' \<longleftrightarrow> pc_authority pc \<in> set signers
     \<and> (\<exists>flag. pc' = pc\<lparr>pc_paused := flag\<rparr>)"

lemma initialized_pool_inv:
  assumes "compile_pool_config_account input bump False = Some (Ok layout)"
    and "layout_to_bytes layout = Some bytes" and "pair_wf (in_token_pair input)"
    and "pc_layout pc = bytes"
  shows "pool_inv pc"
proof -
  have "is_ok (compile_reference_quote_config input)"
    using assms(1) by (auto simp: compile_pool_config_account_def split: sum.splits)
  then have ok: "input_ok input" using compile_Ok by (auto simp: is_ok_def split: sum.splits)
  from compiled_account_bytes[OF ok assms(3), of bump False] assms(1,2,4)
  have "params_from_pool_config_bytes (pc_layout pc) = Some (st_params (in_strategy input))"
    "length (pc_layout pc) = 448"
    "pc_layout pc ! 90 = same_slot_update_order_to_u8 (same_slot_order (st_quote_update_envelope (in_strategy input)))"
    by (auto simp: WRITER_LEN_eq REFERENCE_QUOTE_POOL_CONFIG_SAME_SLOT_ORDER_OFFSET_def)
  then show ?thesis using ok
    by (auto simp: pool_inv_def pool_params_def input_ok_def same_slot_update_order_to_u8_def
        split: same_slot_update_order.splits)
qed

lemma initialize_pool_born:
  assumes "initialize_reference_quote_pool rt signers acc args w = Ok w'"
    and "keys_wf (InitializePool acc args)"
  shows "\<exists>pc. unused w (ia_pool_config acc) \<and> pool_born signers slot w pc
    \<and> w' = w\<lparr>wd_pools := (wd_pools w)(ia_pool_config acc \<mapsto> pc)\<rparr>"
proof -
  obtain base quote :: mint_account and bump strategy layout bytes where
    un: "unused w (ia_pool_config acc)"
    and comp: "compile_pool_config_account \<lparr>in_strategy = strategy,
        in_token_pair = \<lparr>tp_base_mint = ia_base_mint acc, tp_quote_mint = ia_quote_mint acc,
          tp_base_token_program = ia_base_token_program acc,
          tp_quote_token_program = ia_quote_token_program acc,
          tp_base_decimals = mi_decimals base, tp_quote_decimals = mi_decimals quote\<rparr>,
        in_account_budget = args_to_account_budget (ip_account_budget args)\<rparr> bump False = Some (Ok layout)"
    and bytes: "layout_to_bytes layout = Some bytes"
    and w': "w' = w\<lparr>wd_pools := (wd_pools w)(ia_pool_config acc \<mapsto>
        \<lparr>pc_authority = ia_authority acc, pc_base_mint = ia_base_mint acc,
         pc_quote_mint = ia_quote_mint acc, pc_base_token_program = ia_base_token_program acc,
         pc_quote_token_program = ia_quote_token_program acc, pc_bump = bump, pc_paused = False,
         pc_layout = bytes\<rparr>)\<rparr>" (is "_ = w\<lparr>wd_pools := _(_ \<mapsto> ?pc)\<rparr>")
    using initialize_pool_Ok(2)[OF assms(1)] by - (elim exE conjE, rule that, assumption+)
  have "pool_inv ?pc"
    by (rule initialized_pool_inv[OF comp bytes]) (use assms(2) in \<open>simp_all add: pair_wf_def\<close>)
  then have "pool_born signers slot w ?pc"
    using initialize_pool_Ok(1)[OF assms(1)] by (simp add: pool_born_def)
  with un w' show ?thesis by blast
qed

lemmas execute_simps = execute_def instruction.case

lemma pause_Ok:
  "pause_pool rt signers acc flag w = Ok w' \<longleftrightarrow> (\<exists>pc.
     authorized_pool rt signers w (aa_authority acc) (aa_pool_config acc) = Ok pc
   \<and> w' = w\<lparr>wd_pools := (wd_pools w)(aa_pool_config acc \<mapsto> pc\<lparr>pc_paused := flag\<rparr>)\<rparr>)"
  by (auto simp: pause_pool_def and_then_eq_Ok)

lemma stage_Ok:
  "stage_curve_slot rt signers acc args w = Ok w' \<longleftrightarrow> (\<exists>cs cs'.
     load_curve_update rt signers acc w = Ok cs \<and> curve_stage cs args = Ok cs'
   \<and> w' = w\<lparr>wd_curves := (wd_curves w)(aa_target acc \<mapsto> cs')\<rparr>)"
  by (auto simp: stage_curve_slot_def and_then_eq_Ok map_err_eq)

lemma activate_Ok:
  "activate_curve_slot rt signers acc args w = Ok w' \<longleftrightarrow> (\<exists>cs cs'.
     load_curve_update rt signers acc w = Ok cs \<and> curve_activate cs args = Ok cs'
   \<and> w' = w\<lparr>wd_curves := (wd_curves w)(aa_target acc \<mapsto> cs')\<rparr>)"
  by (auto simp: activate_curve_slot_def and_then_eq_Ok map_err_eq)


text \<open>Which account each instruction writes.\<close>

lemma exec_frame:
  assumes "execute rt signers slot ix w = Ok w'"
  shows "(case ix of InitializePool _ _ \<Rightarrow> True | PausePool _ _ \<Rightarrow> True | _ \<Rightarrow> wd_pools w' = wd_pools w)"
    and "(case ix of InitializeQuoteState _ _ \<Rightarrow> True | UpdateQuote _ _ \<Rightarrow> True | UpdateQuoteV2 _ _ \<Rightarrow> True
          | _ \<Rightarrow> wd_quotes w' = wd_quotes w)"
    and "(case ix of InitializeCurve _ \<Rightarrow> True | StageCurve _ _ \<Rightarrow> True | ActivateCurve _ _ \<Rightarrow> True
          | _ \<Rightarrow> wd_curves w' = wd_curves w)"
    and "(case ix of InitializeVaults _ \<Rightarrow> True | Fund _ _ \<Rightarrow> True | _ \<Rightarrow> wd_vaults w' = wd_vaults w)"
  using assms
  by (cases ix; fastforce simp: execute_simps stage_Ok activate_Ok pause_Ok
      dest!: initialize_pool_Ok(2) initialize_state_Ok update_Ok update_v2_Ok initialize_curve_Ok
        initialize_vaults_Ok fund_Ok swap_Ok same_but_tokensD)+

interpretation pool_kind: account_kind rt wd_pools pool_born pool_upd for rt
proof
  fix ix signers slot w w' k
  assume wf: "keys_wf ix" and ex: "execute rt signers slot ix w = Ok w'"
  show "wd_pools w' k = wd_pools w k
    \<or> wd_pools w k = None \<and> (\<exists>a. wd_pools w' k = Some a \<and> pool_born signers slot w a)
    \<or> (\<exists>a a'. wd_pools w k = Some a \<and> wd_pools w' k = Some a' \<and> pool_upd signers slot w a a')"
  proof (cases ix)
    case (InitializePool acc args)
    with initialize_pool_born[of rt signers acc args w w' slot] wf ex show ?thesis
      by (cases "k = ia_pool_config acc") (auto simp: execute_simps unused_def)
  next
    case (PausePool acc flag)
    with ex show ?thesis
      by (cases "k = aa_pool_config acc") (auto simp: execute_simps pause_Ok load_simps pool_upd_def)
  qed (use exec_frame(1)[OF ex] in auto)
qed simp

section \<open>Quotes\<close>

definition spread_allowed :: "u16 \<Rightarrow> pool_config \<Rightarrow> bool" where
  "spread_allowed v pc \<longleftrightarrow> unat v + unat (max_aging_surcharge_bps (pool_params pc))
     + unat (max_inventory_skew_bps (pool_params pc)) < 10000"

definition quote_born :: "pubkey list \<Rightarrow> u64 \<Rightarrow> world \<Rightarrow> quote_state \<Rightarrow> bool" where
  "quote_born signers slot w qs \<longleftrightarrow> (\<exists>pc pool qa bump. wd_pools w pool = Some pc
     \<and> pc_authority pc \<in> set signers \<and> (pc_layout pc ! 90 = 0 \<or> pc_layout pc ! 90 = 1)
     \<and> qs = set_base_half_spread_bps (base_half_spread_bps (pool_params pc))
        \<lparr>qs_pool_config = pool, qs_quote_authority = qa, qs_bump = bump, qs_paused = False,
         qs_same_slot_order = pc_layout pc ! 90, qs_padding = replicate 5 0,
         qs_mid_price_q64x64 = 0, qs_publish_slot = 0, qs_sequence = 0, qs_last_update_slot = 0\<rparr>)"

definition quote_upd :: "pubkey list \<Rightarrow> u64 \<Rightarrow> world \<Rightarrow> quote_state \<Rightarrow> quote_state \<Rightarrow> bool" where
  "quote_upd signers slot w qs qs' \<longleftrightarrow> (\<exists>pc signer args q1. wd_pools w (qs_pool_config qs) = Some pc
     \<and> signer \<in> set signers \<and> apply_update qs (pc_authority pc) signer args slot = Ok q1
     \<and> (qs' = q1 \<or> (\<exists>v. spread_allowed v pc \<and> qs' = set_base_half_spread_bps v q1)))"

interpretation quote_kind: account_kind rt wd_quotes quote_born quote_upd for rt
proof
  fix ix signers slot w w' k
  assume "keys_wf ix" and ex: "execute rt signers slot ix w = Ok w'"
  show "wd_quotes w' k = wd_quotes w k
    \<or> wd_quotes w k = None \<and> (\<exists>a. wd_quotes w' k = Some a \<and> quote_born signers slot w a)
    \<or> (\<exists>a a'. wd_quotes w k = Some a \<and> wd_quotes w' k = Some a' \<and> quote_upd signers slot w a a')"
  proof (cases ix)
    case (InitializeQuoteState acc qa)
    with initialize_state_Ok[of rt signers acc qa w w'] ex obtain pc bump order where
      auth: "authorized_pool rt signers w (aa_authority acc) (aa_pool_config acc) = Ok pc"
      and un: "unused w (aa_target acc)" and order: "pool_same_slot_order pc = Ok order"
      and w': "w' = w\<lparr>wd_quotes := (wd_quotes w)(aa_target acc \<mapsto>
        set_base_half_spread_bps (base_half_spread_bps (pool_params pc))
      \<lparr>qs_pool_config = aa_pool_config acc, qs_quote_authority = qa, qs_bump = bump,
       qs_paused = False, qs_same_slot_order = order, qs_padding = replicate 5 0,
       qs_mid_price_q64x64 = 0, qs_publish_slot = 0, qs_sequence = 0, qs_last_update_slot = 0\<rparr>)\<rparr>"
        (is "_ = w\<lparr>wd_quotes := _(_ \<mapsto> ?qs)\<rparr>")
      by (auto simp: execute_simps)
    have "quote_born signers slot w ?qs"
      unfolding quote_born_def using auth order
      by (intro exI[of _ pc] exI[of _ "aa_pool_config acc"] exI[of _ qa] exI[of _ bump])
        (auto simp: load_simps pool_same_slot_order_Ok)
    with un w' show ?thesis by (simp add: unused_def)
  next
    case (UpdateQuote acc args)
    with update_Ok[of rt signers acc args slot w w'] ex obtain pc qs qs' where
      "load_update rt signers acc w = Ok (pc, qs)"
      and up: "apply_update qs (pc_authority pc) (up_quote_signer acc) args slot = Ok qs'"
      and w': "w' = w\<lparr>wd_quotes := (wd_quotes w)(up_quote_state acc \<mapsto> qs')\<rparr>"
      by (auto simp: execute_simps)
    then have ld: "up_quote_signer acc \<in> set signers" "wd_pools w (qs_pool_config qs) = Some pc"
        "wd_quotes w (up_quote_state acc) = Some qs"
      by (simp_all add: load_simps)
    then have "quote_upd signers slot w qs qs'" unfolding quote_upd_def using up by blast
    with ld w' show ?thesis by simp
  next
    case (UpdateQuoteV2 acc args)
    let ?v = "u2_base_half_spread_bps args"
    from UpdateQuoteV2 update_v2_Ok[of rt signers acc args slot w w'] ex obtain pc qs qs' where
      "load_update rt signers acc w = Ok (pc, qs)"
      and v: "validate_reference_quote_base_spread ?v (pool_params pc) = Ok ()"
      and up: "apply_update qs (pc_authority pc) (up_quote_signer acc) (to_legacy_args args) slot = Ok qs'"
      and w': "w' = w\<lparr>wd_quotes := (wd_quotes w)(up_quote_state acc \<mapsto> set_base_half_spread_bps ?v qs')\<rparr>"
      by (auto simp: execute_simps)
    then have ld: "up_quote_signer acc \<in> set signers" "wd_pools w (qs_pool_config qs) = Some pc"
        "wd_quotes w (up_quote_state acc) = Some qs"
      by (simp_all add: load_simps)
    have "spread_allowed ?v pc" using v by (simp add: base_spread_Ok spread_allowed_def)
    then have "quote_upd signers slot w qs (set_base_half_spread_bps ?v qs')"
      unfolding quote_upd_def using up ld by blast
    with ld w' show ?thesis by simp
  qed (use exec_frame(2)[OF ex] in auto)
qed simp

section \<open>Curve slots and vaults\<close>

definition curve_born :: "pubkey list \<Rightarrow> u64 \<Rightarrow> world \<Rightarrow> curve_slot_state \<Rightarrow> bool" where
  "curve_born signers slot w cs \<longleftrightarrow> (\<exists>pc. wd_pools w (cs_pool_config cs) = Some pc
     \<and> pc_authority pc \<in> set signers \<and> cs_authority cs = pc_authority pc
     \<and> cs_active_slot cs = 0 \<and> cs_pending_slot cs = 0 \<and> cs_pending_hash cs = replicate 32 0
     \<and> cs_sequence cs = 0)"

definition curve_upd :: "pubkey list \<Rightarrow> u64 \<Rightarrow> world \<Rightarrow> curve_slot_state \<Rightarrow> curve_slot_state \<Rightarrow> bool" where
  "curve_upd signers slot w cs cs' \<longleftrightarrow> cs_authority cs \<in> set signers \<and> (\<exists>m. curve_step m cs = Ok cs')"

lemma curve_step_I:
  "curve_stage cs a = Ok cs' \<Longrightarrow> \<exists>m. curve_step m cs = Ok cs'"
  "curve_activate cs b = Ok cs' \<Longrightarrow> \<exists>m. curve_step m cs = Ok cs'"
  by (auto simp: curve_step_def intro: exI[of _ "Stage a"] exI[of _ "Activate b"])

interpretation curve_kind: account_kind rt wd_curves curve_born curve_upd for rt
proof
  fix ix signers slot w w' k
  assume "keys_wf ix" and ex: "execute rt signers slot ix w = Ok w'"
  show "wd_curves w' k = wd_curves w k
    \<or> wd_curves w k = None \<and> (\<exists>a. wd_curves w' k = Some a \<and> curve_born signers slot w a)
    \<or> (\<exists>a a'. wd_curves w k = Some a \<and> wd_curves w' k = Some a' \<and> curve_upd signers slot w a a')"
  proof (cases ix)
    case (InitializeCurve acc)
    with initialize_curve_Ok[of rt signers acc w w'] ex show ?thesis
      by (cases "k = aa_target acc") (auto simp: execute_simps unused_def load_simps curve_born_def)
  next
    case (StageCurve acc args)
    then show ?thesis using ex
      by (cases "k = aa_target acc")
        (auto simp: execute_simps stage_Ok load_simps curve_upd_def dest!: curve_step_I)
  next
    case (ActivateCurve acc args)
    then show ?thesis using ex
      by (cases "k = aa_target acc")
        (auto simp: execute_simps activate_Ok load_simps curve_upd_def dest!: curve_step_I)
  qed (use exec_frame(3)[OF ex] in auto)
qed simp

definition vault_born :: "pubkey list \<Rightarrow> u64 \<Rightarrow> world \<Rightarrow> vault_state \<Rightarrow> bool" where
  "vault_born signers slot w vs \<longleftrightarrow> (\<exists>pc. wd_pools w (vs_pool_config vs) = Some pc
     \<and> pc_authority pc \<in> set signers \<and> vs_maker_authority vs = pc_authority pc
     \<and> vs_custody_model vs = CUSTODY_MODEL_MAKER_OWNED \<and> \<not> vs_paused vs
     \<and> vs_target_base_inventory vs = 0)"

definition vault_upd :: "pubkey list \<Rightarrow> u64 \<Rightarrow> world \<Rightarrow> vault_state \<Rightarrow> vault_state \<Rightarrow> bool" where
  "vault_upd signers slot w vs vs' \<longleftrightarrow> vs_maker_authority vs \<in> set signers
     \<and> (\<exists>pre added. apply_base_funding_to_target vs pre added = Ok vs')"

interpretation vault_kind: account_kind rt wd_vaults vault_born vault_upd for rt
proof
  fix ix signers slot w w' k
  assume "keys_wf ix" and ex: "execute rt signers slot ix w = Ok w'"
  show "wd_vaults w' k = wd_vaults w k
    \<or> wd_vaults w k = None \<and> (\<exists>a. wd_vaults w' k = Some a \<and> vault_born signers slot w a)
    \<or> (\<exists>a a'. wd_vaults w k = Some a \<and> wd_vaults w' k = Some a' \<and> vault_upd signers slot w a a')"
  proof (cases ix)
    case (InitializeVaults acc)
    with initialize_vaults_Ok[of rt signers acc w w'] ex show ?thesis
      by (fastforce simp: execute_simps unused_def load_simps vault_born_def dest: same_but_tokensD)
  next
    case (Fund acc args)
    with fund_Ok[of rt signers acc args w w'] ex show ?thesis
      by (fastforce simp: execute_simps load_simps vault_upd_def dest: same_but_tokensD load_vault_side_Ok(1))
  qed (use exec_frame(4)[OF ex] in auto)
qed simp


section \<open>The invariant of a reachable world\<close>

definition quote_inv :: "u64 \<Rightarrow> world \<Rightarrow> quote_state \<Rightarrow> bool" where
  "quote_inv slot w qs \<longleftrightarrow> quote_state_wf qs \<and> \<not> qs_paused qs
     \<and> qs_publish_slot qs \<le> qs_last_update_slot qs \<and> qs_last_update_slot qs \<le> slot
     \<and> (0 < qs_sequence qs \<longrightarrow> 0 < qs_mid_price_q64x64 qs)
     \<and> (\<exists>pc. wd_pools w (qs_pool_config qs) = Some pc \<and> qs_same_slot_order qs = pc_layout pc ! 90
         \<and> (\<forall>fallback. spread_allowed (quote_base_half_spread_bps qs fallback) pc))"

definition curve_inv :: "world \<Rightarrow> curve_slot_state \<Rightarrow> bool" where
  "curve_inv w cs \<longleftrightarrow> cs_active_slot cs < MAX_CURVE_SLOTS \<and> cs_pending_slot cs < MAX_CURVE_SLOTS
     \<and> (cs_pending_hash cs = replicate 32 0 \<longrightarrow> cs_pending_slot cs = cs_active_slot cs)
     \<and> (\<exists>pc. wd_pools w (cs_pool_config cs) = Some pc \<and> pc_authority pc = cs_authority cs)"

definition vault_inv :: "world \<Rightarrow> vault_state \<Rightarrow> bool" where
  "vault_inv w vs \<longleftrightarrow> vs_custody_model vs = CUSTODY_MODEL_MAKER_OWNED \<and> \<not> vs_paused vs
     \<and> (\<exists>pc. wd_pools w (vs_pool_config vs) = Some pc \<and> pc_authority pc = vs_maker_authority vs)"

definition world_inv :: "u64 \<Rightarrow> world \<Rightarrow> bool" where
  "world_inv slot w \<longleftrightarrow> (\<forall>k pc. wd_pools w k = Some pc \<longrightarrow> pool_inv pc)
     \<and> (\<forall>k qs. wd_quotes w k = Some qs \<longrightarrow> quote_inv slot w qs)
     \<and> (\<forall>k cs. wd_curves w k = Some cs \<longrightarrow> curve_inv w cs)
     \<and> (\<forall>k vs. wd_vaults w k = Some vs \<longrightarrow> vault_inv w vs)"

lemma pool_params_paused [simp]: "pool_params (pc\<lparr>pc_paused := b\<rparr>) = pool_params pc"
  by (simp add: pool_params_def)

lemma spread_allowed_paused [simp]: "spread_allowed v (pc\<lparr>pc_paused := b\<rparr>) = spread_allowed v pc"
  by (simp add: spread_allowed_def)

text \<open>Pools stay, and nothing but their pause flag changes.\<close>

definition pools_kept :: "world \<Rightarrow> world \<Rightarrow> bool" where
  "pools_kept w w' \<longleftrightarrow> (\<forall>k pc. wd_pools w k = Some pc \<longrightarrow>
     (\<exists>flag. wd_pools w' k = Some (pc\<lparr>pc_paused := flag\<rparr>)))"

lemma exec_pools_kept:
  assumes "keys_wf ix" "execute rt signers slot ix w = Ok w'"
  shows "pools_kept w w'"
  unfolding pools_kept_def
proof (intro allI impI)
  fix k pc
  assume pc: "wd_pools w k = Some pc"
  have "\<exists>flag. pc = pc\<lparr>pc_paused := flag\<rparr>" by (rule exI[of _ "pc_paused pc"]) simp
  with pc pool_kind.exec_change[OF assms, of k]
  show "\<exists>flag. wd_pools w' k = Some (pc\<lparr>pc_paused := flag\<rparr>)"
    by (auto simp: pool_upd_def)
qed

lemma curve_inv_kept: "curve_inv w cs \<Longrightarrow> pools_kept w w' \<Longrightarrow> curve_inv w' cs"
  by (fastforce simp: curve_inv_def pools_kept_def)

lemma vault_inv_kept: "vault_inv w vs \<Longrightarrow> pools_kept w w' \<Longrightarrow> vault_inv w' vs"
  by (fastforce simp: vault_inv_def pools_kept_def)

lemma quote_inv_kept:
  assumes "quote_inv slot w qs" "pools_kept w w'" "slot \<le> slot'"
  shows "quote_inv slot' w' qs"
  using assms by (fastforce simp: quote_inv_def pools_kept_def)

lemma config_spread_allowed: "pool_inv pc \<Longrightarrow> spread_allowed (base_half_spread_bps (pool_params pc)) pc"
  by (simp add: pool_inv_def config_params_ok_def spread_allowed_def)

lemma quote_born_inv:
  assumes "quote_born signers slot w qs" "\<forall>k pc. wd_pools w k = Some pc \<longrightarrow> pool_inv pc"
  shows "quote_inv slot w qs"
proof -
  obtain pc pool qa bump where pc: "wd_pools w pool = Some pc"
    and qs: "qs = set_base_half_spread_bps (base_half_spread_bps (pool_params pc))
        \<lparr>qs_pool_config = pool, qs_quote_authority = qa, qs_bump = bump, qs_paused = False,
         qs_same_slot_order = pc_layout pc ! 90, qs_padding = replicate 5 0,
         qs_mid_price_q64x64 = 0, qs_publish_slot = 0, qs_sequence = 0, qs_last_update_slot = 0\<rparr>"
      (is "_ = set_base_half_spread_bps ?v ?q")
    using assms(1) unfolding quote_born_def by blast
  have "quote_state_wf ?q" by (simp add: quote_state_wf_def)
  from stored_spread[OF this, of ?v] have "quote_state_wf qs"
    and "\<forall>f. quote_base_half_spread_bps qs f = ?v" by (simp_all add: qs)
  moreover have "spread_allowed ?v pc" using assms(2) pc config_spread_allowed by blast
  ultimately show ?thesis using pc by (simp add: quote_inv_def qs set_base_half_spread_bps_def)
qed

lemma apply_update_stored:
  assumes "apply_update qs auth signer args slot = Ok qs'"
  shows "quote_base_half_spread_bps qs' f = quote_base_half_spread_bps qs f"
    and "quote_state_wf qs' = quote_state_wf qs"
  using apply_update_keeps(1)[OF assms] by (simp_all add: quote_base_half_spread_bps_def quote_state_wf_def)

lemma set_base_half_spread_keeps [simp]:
  "qs_pool_config (set_base_half_spread_bps v qs) = qs_pool_config qs"
  "qs_quote_authority (set_base_half_spread_bps v qs) = qs_quote_authority qs"
  "qs_bump (set_base_half_spread_bps v qs) = qs_bump qs"
  "qs_paused (set_base_half_spread_bps v qs) = qs_paused qs"
  "qs_same_slot_order (set_base_half_spread_bps v qs) = qs_same_slot_order qs"
  "qs_mid_price_q64x64 (set_base_half_spread_bps v qs) = qs_mid_price_q64x64 qs"
  "qs_publish_slot (set_base_half_spread_bps v qs) = qs_publish_slot qs"
  "qs_sequence (set_base_half_spread_bps v qs) = qs_sequence qs"
  "qs_last_update_slot (set_base_half_spread_bps v qs) = qs_last_update_slot qs"
  by (simp_all add: set_base_half_spread_bps_def)

lemma quote_upd_inv:
  assumes "quote_upd signers slot w qs qs'" "quote_inv slot0 w qs"
  shows "quote_inv slot w qs'"
proof -
  obtain pc signer args q1 where pc: "wd_pools w (qs_pool_config qs) = Some pc"
    and up: "apply_update qs (pc_authority pc) signer args slot = Ok q1"
    and qs': "qs' = q1 \<or> (\<exists>v. spread_allowed v pc \<and> qs' = set_base_half_spread_bps v q1)"
    using assms(1) unfolding quote_upd_def by blast
  have q1: "quote_inv slot w q1"
    using assms(2) pc up apply_update_stored[OF up] apply_update_keeps[OF up]
    by (auto simp: quote_inv_def apply_update_Ok)
  then have "quote_state_wf q1" by (simp add: quote_inv_def)
  note st = stored_spread[OF this]
  from qs' show ?thesis
  proof (elim disjE exE conjE)
    fix v
    assume "spread_allowed v pc" "qs' = set_base_half_spread_bps v q1"
    with q1 pc apply_update_keeps(3)[OF up] show ?thesis by (auto simp: quote_inv_def st)
  qed (use q1 in simp)
qed

lemma curve_upd_inv:
  assumes "curve_upd signers slot w cs cs'" "curve_inv w cs"
  shows "curve_inv w cs'"
proof -
  obtain m where m: "curve_step m cs = Ok cs'" using assms(1) unfolding curve_upd_def by blast
  show ?thesis
  proof (cases m)
    case (Stage a)
    with m assms(2) show ?thesis
      by (auto simp: curve_step_def curve_inv_def curve_stage_Ok MAX_CURVE_SLOTS_def)
  next
    case (Activate a)
    with m assms(2) show ?thesis
      by (auto simp: curve_step_def curve_inv_def curve_activate_Ok MAX_CURVE_SLOTS_def)
  qed
qed

lemma curve_born_inv: "curve_born signers slot w cs \<Longrightarrow> curve_inv w cs"
  by (auto simp: curve_born_def curve_inv_def MAX_CURVE_SLOTS_def)

lemma funding_Ok:
  "apply_base_funding_to_target vs pre added = Ok vs' \<Longrightarrow>
   \<exists>t. vs' = vs\<lparr>vs_target_base_inventory := t\<rparr> \<and> vs_target_base_inventory vs \<le> t"
  using exI[of "\<lambda>t. vs = vs\<lparr>vs_target_base_inventory := t\<rparr> \<and> vs_target_base_inventory vs \<le> t",
      of "vs_target_base_inventory vs"]
  by (fastforce simp: apply_base_funding_to_target_def and_then_eq_Ok ok_or_eq checked_add_eq_Some
      word_le_nat_alt split: if_splits)

lemma vault_upd_inv: "vault_upd signers slot w vs vs' \<Longrightarrow> vault_inv w vs \<Longrightarrow> vault_inv w vs'"
  by (auto simp: vault_upd_def vault_inv_def dest!: funding_Ok)


lemma vault_born_inv: "vault_born signers slot w vs \<Longrightarrow> vault_inv w vs"
  by (auto simp: vault_born_def vault_inv_def)

lemma exec_world_inv:
  assumes wf: "keys_wf ix" and ex: "execute rt signers slot ix w = Ok w'"
    and inv: "world_inv slot0 w" and le: "slot0 \<le> slot"
  shows "world_inv slot w'"
proof -
  note kept = exec_pools_kept[OF wf ex]
  have pools: "\<forall>k pc. wd_pools w k = Some pc \<longrightarrow> pool_inv pc" using inv by (simp add: world_inv_def)
  have "pool_inv pc" if "wd_pools w' k = Some pc" for k pc
    using pool_kind.exec_change[OF wf ex, of k] that pools
    by (auto simp: pool_born_def pool_upd_def) (auto simp: pool_inv_def pool_params_def)
  moreover have "quote_inv slot w' qs" if q: "wd_quotes w' k = Some qs" for k qs
  proof -
    have "quote_inv slot0 w qs \<or> quote_inv slot w qs"
      using quote_kind.exec_change[OF wf ex, of k] q quote_born_inv[OF _ pools] quote_upd_inv inv
      by (auto simp: world_inv_def) metis
    then show ?thesis using quote_inv_kept[OF _ kept] le by blast
  qed
  moreover have "curve_inv w' cs" if c: "wd_curves w' k = Some cs" for k cs
  proof -
    have "curve_inv w cs"
      using curve_kind.exec_change[OF wf ex, of k] c curve_born_inv curve_upd_inv inv
      by (auto simp: world_inv_def)
    then show ?thesis by (rule curve_inv_kept[OF _ kept])
  qed
  moreover have "vault_inv w' vs" if v: "wd_vaults w' k = Some vs" for k vs
  proof -
    have "vault_inv w vs"
      using vault_kind.exec_change[OF wf ex, of k] v vault_born_inv vault_upd_inv inv
      by (auto simp: world_inv_def)
    then show ?thesis by (rule vault_inv_kept[OF _ kept])
  qed
  ultimately show ?thesis by (simp add: world_inv_def)
qed

lemma world_inv_later: "world_inv slot w \<Longrightarrow> slot \<le> slot' \<Longrightarrow> world_inv slot' w"
  by (auto simp: world_inv_def quote_inv_def) (meson order_trans)+

lemma world_inv_outside [simp]:
  "world_inv slot (w\<lparr>wd_tokens := t, wd_mints := m\<rparr>) = world_inv slot w"
  by (simp add: world_inv_def quote_inv_def curve_inv_def vault_inv_def)

lemma step_world_inv:
  assumes "chain_step rt c c'" "world_inv (ch_slot c) (ch_world c)"
  shows "world_inv (ch_slot c') (ch_world c') \<and> ch_slot c \<le> ch_slot c'"
  using assms
proof (cases rule: chain_step.cases)
  case (executed ix slot signers w')
  with exec_world_inv[OF executed(2,4) assms(2)] show ?thesis by simp
qed (use assms(2) world_inv_later in auto)

lemma reachable_world_inv: "reachable rt c \<Longrightarrow> world_inv (ch_slot c) (ch_world c)"
proof (induction rule: reachable.induct)
  case (start c)
  then show ?case by (simp add: world_inv_def empty_world_def)
next
  case (step c c')
  then show ?case using step_world_inv by blast
qed

end
