(* ===== verification/Program_Demo.thy ===== *)
theory Program_Demo imports Program_Invariants begin

text \<open>
  A concrete run of the program, for the witnesses: a runtime whose derived addresses are 32
  copies of a checksum of the seed prefix, and whose token program debits exactly and withholds a
  hundredth of what it credits on a Token-2022 mint with a transfer fee; a maker who creates
  a pool, publishes a price, funds the vaults; and a taker who swaps.
\<close>

section \<open>A concrete runtime\<close>

definition demo_transfer :: "transfer \<Rightarrow> (pubkey \<Rightarrow> mint_account option) \<Rightarrow> (pubkey \<Rightarrow> token_account option) \<Rightarrow> (pubkey \<Rightarrow> token_account option) option" where
  "demo_transfer t mints tokens =
    (case (mints (tr_mint t), tokens (tr_from t), tokens (tr_to t)) of
       (Some m, Some a, Some b) \<Rightarrow>
         if tr_from t \<noteq> tr_to t \<and> ta_owner a = tr_authority t \<and> ta_mint a = tr_mint t \<and> ta_mint b = tr_mint t
            \<and> ta_program a = tr_program t \<and> mi_program m = tr_program t \<and> tr_amount t \<le> ta_amount a
         then (case checked_add (ta_amount b) (tr_amount t -
             (if mi_program m = replicate 32 7 \<and> mi_transfer_fee_config m then tr_amount t div 100 else 0)) of
             None \<Rightarrow> None
           | Some v \<Rightarrow> Some (tokens(tr_from t \<mapsto> a\<lparr>ta_amount := ta_amount a - tr_amount t\<rparr>,
                                tr_to t \<mapsto> b\<lparr>ta_amount := v\<rparr>)))
         else None
     | _ \<Rightarrow> None)"

definition demo_key :: "u8 list list \<Rightarrow> pubkey" where
  "demo_key seeds = replicate 32 (sum_list (hd seeds))"

definition demo_runtime :: runtime where
  "demo_runtime = \<lparr>rt_create_address = (\<lambda>seeds. Some (demo_key seeds)),
     rt_find_address = (\<lambda>seeds. (demo_key seeds, 255)),
     rt_token_program = replicate 32 6, rt_token_2022_program = replicate 32 7,
     rt_transfer = demo_transfer\<rparr>"

definition demo_maker :: pubkey where "demo_maker = replicate 32 1"
definition demo_taker :: pubkey where "demo_taker = replicate 32 2"
definition demo_base_mint :: pubkey where "demo_base_mint = replicate 32 3"
definition demo_quote_mint :: pubkey where "demo_quote_mint = replicate 32 4"
definition demo_publisher :: pubkey where "demo_publisher = replicate 32 5"
definition demo_program :: pubkey where "demo_program = replicate 32 6"
definition pool_key :: pubkey where "pool_key = replicate 32 93"
definition quote_key :: pubkey where "quote_key = replicate 32 124"
definition vault_key :: pubkey where "vault_key = replicate 32 122"
definition vault_authority :: pubkey where "vault_authority = replicate 32 66"
definition base_vault_key :: pubkey where "base_vault_key = replicate 32 244"
definition quote_vault_key :: pubkey where "quote_vault_key = replicate 32 135"
definition curve_key :: pubkey where "curve_key = replicate 32 98"

definition demo_token :: "pubkey \<Rightarrow> pubkey \<Rightarrow> u64 \<Rightarrow> token_account" where
  "demo_token owner mint amount =
    \<lparr>ta_mint = mint, ta_owner = owner, ta_program = demo_program, ta_amount = amount\<rparr>"

definition demo_tokens :: "pubkey \<Rightarrow> token_account option" where
  "demo_tokens = [replicate 32 8 \<mapsto> demo_token demo_maker demo_base_mint 1000000000,
     replicate 32 9 \<mapsto> demo_token demo_maker demo_quote_mint 30000000000000,
     replicate 32 10 \<mapsto> demo_token demo_taker demo_base_mint 5000000,
     replicate 32 11 \<mapsto> demo_token demo_taker demo_quote_mint 0]"

definition demo_mints :: "pubkey \<Rightarrow> mint_account option" where
  "demo_mints = [demo_base_mint \<mapsto> \<lparr>mi_decimals = 9, mi_program = demo_program, mi_transfer_fee_config = False\<rparr>,
     demo_quote_mint \<mapsto> \<lparr>mi_decimals = 6, mi_program = demo_program, mi_transfer_fee_config = False\<rparr>]"

definition demo_pool_args :: initialize_pool_args where
  "demo_pool_args =
    \<lparr>ip_params = \<lparr>pa_fee_bps = 0, pa_base_half_spread_bps = 5, pa_aging_start_slots = 2,
       pa_protected_start_slots = 10, pa_expire_slots = 20, pa_aging_surcharge_bps_per_slot = 1,
       pa_max_aging_surcharge_bps = 20, pa_max_trade_base_atoms = 500000000,
       pa_protected_max_trade_base_atoms = 1000000, pa_inventory_skew_bps_per_10k_imbalance = 200,
       pa_max_inventory_skew_bps = 100, pa_hard_inventory_band_bps = 5000\<rparr>,
     ip_quote_update_envelope = \<lparr>ea_max_maker_update_period_slots = 4,
       ea_max_landing_latency_slots = 2, ea_min_update_success_probability_bps = 9500,
       ea_same_slot_order = 0\<rparr>,
     ip_account_budget = \<lparr>ba_required_swap_account_metas = 13, ba_max_swap_account_metas = 15\<rparr>\<rparr>"

definition demo_initialize_pool :: instruction where
  "demo_initialize_pool = InitializePool
     \<lparr>ia_payer = demo_maker, ia_authority = demo_maker, ia_base_mint = demo_base_mint, ia_quote_mint = demo_quote_mint,
      ia_base_token_program = demo_program, ia_quote_token_program = demo_program,
      ia_pool_config = pool_key\<rparr> demo_pool_args"

definition demo_authority :: "pubkey \<Rightarrow> authority_accounts" where
  "demo_authority target = \<lparr>aa_payer = demo_maker, aa_authority = demo_maker, aa_pool_config = pool_key,
     aa_target = target\<rparr>"

definition demo_update :: instruction where
  "demo_update = UpdateQuoteV2
     \<lparr>up_quote_signer = demo_publisher, up_pool_config = pool_key, up_quote_state = quote_key\<rparr>
     \<lparr>u2_mid_price_q64x64 = 553402322211286548480000, u2_base_half_spread_bps = 5,
      u2_publish_slot = 100, u2_sequence = 1\<rparr>"

definition demo_vaults :: instruction where
  "demo_vaults = InitializeVaults
     \<lparr>va_payer = demo_maker, va_authority = demo_maker, va_pool_config = pool_key,
      va_vault_authority = vault_authority, va_base_mint = demo_base_mint, va_quote_mint = demo_quote_mint,
      va_base_token_program = demo_program, va_quote_token_program = demo_program,
      va_vault_state = vault_key, va_base_vault = base_vault_key, va_quote_vault = quote_vault_key\<rparr>"

definition demo_accounts :: "pubkey \<Rightarrow> pubkey \<Rightarrow> pubkey \<Rightarrow> pool_accounts" where
  "demo_accounts user user_base user_quote =
    \<lparr>ac_user = user, ac_pool_config = pool_key, ac_quote_state = quote_key,
     ac_vault_authority = vault_authority, ac_vault_state = vault_key, ac_base_mint = demo_base_mint,
     ac_quote_mint = demo_quote_mint, ac_base_token_program = demo_program,
     ac_quote_token_program = demo_program, ac_user_base = user_base, ac_user_quote = user_quote,
     ac_base_vault = base_vault_key, ac_quote_vault = quote_vault_key\<rparr>"

definition demo_fund :: instruction where
  "demo_fund = Fund (demo_accounts demo_maker (replicate 32 8) (replicate 32 9))
     \<lparr>fa_base_amount = 1000000000, fa_quote_amount = 30000000000000\<rparr>"

definition demo_swap_args :: swap_args where
  "demo_swap_args = \<lparr>sw_amount_in = 1000000, sw_minimum_amount_out = 29000000000,
     sw_expected_quote_sequence = 1, sw_base_to_quote = True\<rparr>"

definition taker_accounts :: pool_accounts where
  "taker_accounts = demo_accounts demo_taker (replicate 32 10) (replicate 32 11)"


section \<open>The worlds of the run\<close>

definition demo_layout :: "u8 list" where
  "demo_layout = (case compile_pool_config_account
      \<lparr>in_strategy = \<lparr>st_params = example_params, st_quote_update_envelope = example_envelope\<rparr>,
       in_token_pair = \<lparr>tp_base_mint = demo_base_mint, tp_quote_mint = demo_quote_mint,
          tp_base_token_program = demo_program, tp_quote_token_program = demo_program,
          tp_base_decimals = 9, tp_quote_decimals = 6\<rparr>,
       in_account_budget = reference_quote_jupiter_default\<rparr> 255 False of
     Some (Ok layout) \<Rightarrow> the (layout_to_bytes layout) | _ \<Rightarrow> [])"

definition demo_pool :: pool_config where
  "demo_pool = \<lparr>pc_authority = demo_maker, pc_base_mint = demo_base_mint, pc_quote_mint = demo_quote_mint,
     pc_base_token_program = demo_program, pc_quote_token_program = demo_program,
     pc_bump = 255, pc_paused = False, pc_layout = demo_layout\<rparr>"

definition demo_quote :: quote_state where
  "demo_quote = \<lparr>qs_pool_config = pool_key, qs_quote_authority = demo_publisher, qs_bump = 255,
     qs_paused = False, qs_same_slot_order = 0, qs_padding = [5, 0, 1, 0, 0],
     qs_mid_price_q64x64 = 0, qs_publish_slot = 0, qs_sequence = 0, qs_last_update_slot = 0\<rparr>"

definition demo_published :: quote_state where
  "demo_published = demo_quote\<lparr>qs_mid_price_q64x64 := 553402322211286548480000,
     qs_publish_slot := 100, qs_sequence := 1, qs_last_update_slot := 101\<rparr>"

definition demo_vault :: vault_state where
  "demo_vault = \<lparr>vs_pool_config = pool_key, vs_maker_authority = demo_maker,
     vs_base_vault = base_vault_key, vs_quote_vault = quote_vault_key, vs_base_mint = demo_base_mint,
     vs_quote_mint = demo_quote_mint, vs_vault_authority_bump = 255, vs_bump = 255,
     vs_custody_model = 0, vs_paused = False, vs_padding = replicate 4 0,
     vs_target_base_inventory = 0, vs_reserved = replicate 32 0\<rparr>"

definition demo_world0 :: world where
  "demo_world0 = empty_world\<lparr>wd_tokens := demo_tokens, wd_mints := demo_mints\<rparr>"

definition demo_world1 :: world where
  "demo_world1 = demo_world0\<lparr>wd_pools := [pool_key \<mapsto> demo_pool]\<rparr>"

definition demo_world2 :: world where
  "demo_world2 = demo_world1\<lparr>wd_quotes := [quote_key \<mapsto> demo_quote]\<rparr>"

definition demo_world3 :: world where
  "demo_world3 = demo_world2\<lparr>wd_vaults := [vault_key \<mapsto> demo_vault],
     wd_tokens := demo_tokens(base_vault_key \<mapsto> demo_token vault_authority demo_base_mint 0,
       quote_vault_key \<mapsto> demo_token vault_authority demo_quote_mint 0)\<rparr>"

definition demo_world4 :: world where
  "demo_world4 = demo_world3\<lparr>
     wd_vaults := [vault_key \<mapsto> demo_vault\<lparr>vs_target_base_inventory := 1000000000\<rparr>],
     wd_tokens := (wd_tokens demo_world3)(
       replicate 32 8 \<mapsto> demo_token demo_maker demo_base_mint 0,
       base_vault_key \<mapsto> demo_token vault_authority demo_base_mint 1000000000,
       replicate 32 9 \<mapsto> demo_token demo_maker demo_quote_mint 0,
       quote_vault_key \<mapsto> demo_token vault_authority demo_quote_mint 30000000000000)\<rparr>"

definition demo_world5 :: world where
  "demo_world5 = demo_world4\<lparr>wd_quotes := [quote_key \<mapsto> demo_published]\<rparr>"

lemmas demo_keys = demo_maker_def demo_taker_def demo_base_mint_def demo_quote_mint_def demo_publisher_def demo_program_def
  pool_key_def quote_key_def vault_key_def vault_authority_def base_vault_key_def
  quote_vault_key_def curve_key_def

lemma demo_key_simps [simp]:
  "demo_key (POOL_CONFIG_SEED # s) = pool_key" "demo_key (QUOTE_STATE_SEED # s) = quote_key"
  "demo_key (VAULT_STATE_SEED # s) = vault_key" "demo_key (VAULT_AUTHORITY_SEED # s) = vault_authority"
  "demo_key (BASE_VAULT_SEED # s) = base_vault_key" "demo_key (QUOTE_VAULT_SEED # s) = quote_vault_key"
  "demo_key (CURVE_SLOT_STATE_SEED # s) = curve_key"
  by (simp_all add: demo_key_def demo_keys POOL_CONFIG_SEED_def QUOTE_STATE_SEED_def VAULT_STATE_SEED_def
      VAULT_AUTHORITY_SEED_def BASE_VAULT_SEED_def QUOTE_VAULT_SEED_def CURVE_SLOT_STATE_SEED_def
      byte_string_def)

lemmas demo_worlds = demo_world0_def demo_world1_def demo_world2_def demo_world3_def demo_world4_def
  demo_world5_def empty_world_def demo_tokens_def demo_mints_def demo_pool_def demo_quote_def demo_vault_def
  demo_token_def demo_published_def

lemmas handler_checks = check_signer_def load_mint_def lookup_account_def check_token_interface_def
  check_found_def check_unused_def unused_def reject_unsupported_token_extensions_def
  check_pool_token_program_def load_pool_mint_def check_seeds_def pool_seeds_def ok_or_def

lemma demo_layout_facts:
  "\<exists>a. compile_pool_config_account
      \<lparr>in_strategy = \<lparr>st_params = example_params, st_quote_update_envelope = example_envelope\<rparr>,
       in_token_pair = \<lparr>tp_base_mint = demo_base_mint, tp_quote_mint = demo_quote_mint,
          tp_base_token_program = demo_program, tp_quote_token_program = demo_program,
          tp_base_decimals = 9, tp_quote_decimals = 6\<rparr>,
       in_account_budget = reference_quote_jupiter_default\<rparr> 255 False = Some (Ok a)
     \<and> layout_to_bytes a = Some demo_layout"
  "params_from_pool_config_bytes demo_layout = Some example_params" "demo_layout ! 90 = 0"
proof -
  let ?i = "\<lparr>in_strategy = \<lparr>st_params = example_params, st_quote_update_envelope = example_envelope\<rparr>,
       in_token_pair = \<lparr>tp_base_mint = demo_base_mint, tp_quote_mint = demo_quote_mint,
          tp_base_token_program = demo_program, tp_quote_token_program = demo_program,
          tp_base_decimals = 9, tp_quote_decimals = 6\<rparr>,
       in_account_budget = reference_quote_jupiter_default\<rparr>"
  have "input_ok ?i" using example_input_ok by (simp add: example_input_def input_ok_def example_pair_def)
  moreover have "pair_wf (in_token_pair ?i)" by (simp add: pair_wf_def is_pubkey_def demo_keys)
  ultimately obtain a bs where "compile_pool_config_account ?i 255 False = Some (Ok a)"
    "layout_to_bytes a = Some bs" "params_from_pool_config_bytes bs = Some example_params"
    "bs ! 90 = same_slot_update_order_to_u8 (same_slot_order example_envelope)"
    using compiled_account_bytes[of ?i 255 False] by (auto simp: REFERENCE_QUOTE_POOL_CONFIG_SAME_SLOT_ORDER_OFFSET_def)
  then show "\<exists>a. compile_pool_config_account ?i 255 False = Some (Ok a) \<and> layout_to_bytes a = Some demo_layout"
    "params_from_pool_config_bytes demo_layout = Some example_params" "demo_layout ! 90 = 0"
    by (simp_all add: demo_layout_def example_envelope_def same_slot_update_order_to_u8_def)
qed

lemma demo_pool_params [simp]: "pool_params demo_pool = example_params"
  by (simp add: pool_params_def demo_pool_def demo_layout_facts)

lemma demo_args: "args_strategy_config demo_pool_args
    = Ok \<lparr>st_params = example_params, st_quote_update_envelope = example_envelope\<rparr>"
  "args_to_account_budget (ip_account_budget demo_pool_args) = reference_quote_jupiter_default"
  by (simp_all add: args_strategy_config_def demo_pool_args_def args_to_envelope_def args_to_params_def
      example_params_def example_envelope_def args_to_account_budget_def reference_quote_jupiter_default_def
      REFERENCE_QUOTE_REQUIRED_SWAP_ACCOUNT_METAS_def REFERENCE_QUOTE_DEFAULT_SWAP_ACCOUNT_META_BUDGET_def)

lemma demo_step1: "execute demo_runtime [demo_maker] 90 demo_initialize_pool demo_world0 = Ok demo_world1"
  using demo_layout_facts(1)
  by (auto simp: execute_simps demo_initialize_pool_def initialize_reference_quote_pool_def handler_checks
      demo_worlds demo_runtime_def demo_args demo_keys Let_def)


lemma demo_spread: "set_base_half_spread_bps 5 (demo_quote\<lparr>qs_padding := replicate 5 0\<rparr>) = demo_quote"
  "set_base_half_spread_bps 5 demo_published = demo_published"
  by (simp_all add: set_base_half_spread_bps_def to_le_bytes_2 demo_published_def demo_quote_def
      numeral_3_eq_3)

lemma demo_order [simp]: "pool_same_slot_order demo_pool = Ok 0"
  by (simp add: pool_same_slot_order_def REFERENCE_QUOTE_POOL_CONFIG_SAME_SLOT_ORDER_OFFSET_def
      demo_pool_def demo_layout_facts)

lemma demo_pool_fields [simp]:
  "pc_authority demo_pool = demo_maker" "pc_base_mint demo_pool = demo_base_mint"
  "pc_quote_mint demo_pool = demo_quote_mint" "pc_base_token_program demo_pool = demo_program"
  "pc_quote_token_program demo_pool = demo_program" "pc_bump demo_pool = 255" "\<not> pc_paused demo_pool"
  by (simp_all add: demo_pool_def)

lemma demo_load_pool [simp]:
  "wd_pools w = [pool_key \<mapsto> demo_pool] \<Longrightarrow> load_pool demo_runtime w pool_key = Ok demo_pool"
  by (simp add: load_pool_def lookup_account_def ok_or_def check_seeds_def pool_seeds_def demo_runtime_def)

lemma demo_authorized [simp]:
  "wd_pools w = [pool_key \<mapsto> demo_pool] \<Longrightarrow> authorized_pool demo_runtime [demo_maker] w demo_maker pool_key = Ok demo_pool"
  by (simp add: authorized_pool_def check_signer_def)

lemma demo_world_pools [simp]:
  "wd_pools demo_world1 = [pool_key \<mapsto> demo_pool]" "wd_pools demo_world2 = [pool_key \<mapsto> demo_pool]"
  "wd_pools demo_world3 = [pool_key \<mapsto> demo_pool]" "wd_pools demo_world4 = [pool_key \<mapsto> demo_pool]"
  "wd_pools demo_world5 = [pool_key \<mapsto> demo_pool]"
  by (simp_all add: demo_world1_def demo_world2_def demo_world3_def demo_world4_def demo_world5_def)

lemma demo_step2: "execute demo_runtime [demo_maker] 91
    (InitializeQuoteState (demo_authority quote_key) demo_publisher) demo_world1 = Ok demo_world2"
proof -
  have q: "set_base_half_spread_bps 5
      \<lparr>qs_pool_config = pool_key, qs_quote_authority = demo_publisher, qs_bump = 255,
       qs_paused = False, qs_same_slot_order = 0, qs_padding = replicate 5 0,
       qs_mid_price_q64x64 = 0, qs_publish_slot = 0, qs_sequence = 0, qs_last_update_slot = 0\<rparr> = demo_quote"
    using demo_spread(1) by (simp add: demo_quote_def)
  have un: "check_unused demo_world1 quote_key = Ok ()"
    by (simp add: check_unused_def unused_def demo_worlds demo_keys)
  have k: "check_found demo_runtime [QUOTE_STATE_SEED, pool_key] quote_key = Ok 255"
    by (simp add: check_found_def demo_runtime_def)
  have d: "demo_publisher \<noteq> default_pubkey" by (simp add: demo_publisher_def default_pubkey_def)
  have s: "base_half_spread_bps example_params = 5" by (simp add: example_params_def)
  show ?thesis
    by (simp add: execute_simps initialize_reference_quote_state_def check_signer_def demo_authority_def
        un k d s q Let_def) (simp add: demo_world2_def demo_worlds)
qed

lemma demo_step3: "execute demo_runtime [demo_maker] 92 demo_vaults demo_world2 = Ok demo_world3"
  by (simp add: execute_simps demo_vaults_def initialize_maker_vaults_def Let_def check_signer_def)
    (simp add: handler_checks init_token_def demo_runtime_def demo_worlds demo_keys
      CUSTODY_MODEL_MAKER_OWNED_def fun_upd_twist)


lemma demo_step4: "execute demo_runtime [demo_maker] 93 demo_fund demo_world3 = Ok demo_world4"
  by (simp add: execute_simps demo_fund_def demo_accounts_def fund_pool_def fund_args_validate_def)
    (simp add: load_vault_side_def load_vault_def load_token_def handler_checks demo_runtime_def
      demo_worlds demo_keys CUSTODY_MODEL_MAKER_OWNED_def assert_maker_owned_for_pool_def
      transfer_checked_def base_transfer_def quote_transfer_def demo_transfer_def checked_add_def
      apply_base_funding_to_target_def fun_upd_twist)

lemma demo_step5: "execute demo_runtime [demo_publisher] 101 demo_update demo_world4 = Ok demo_world5"
proof -
  have "load_quote demo_runtime demo_world4 pool_key quote_key = Ok demo_quote"
    by (simp add: load_quote_def lookup_account_def ok_or_def check_seeds_def demo_runtime_def
        demo_worlds demo_keys)
  moreover have "validate_reference_quote_base_spread 5 example_params = Ok ()"
    by (simp add: base_spread_Ok example_params_def)
  moreover have "set_base_half_spread_bps 5 demo_published = demo_published" by (rule demo_spread)
  moreover have "apply_update demo_quote demo_maker demo_publisher
      \<lparr>ua_mid_price_q64x64 = 553402322211286548480000, ua_publish_slot = 100, ua_sequence = 1\<rparr> 101 = Ok demo_published"
    by (simp add: apply_update_Ok demo_published_def demo_quote_def)
  ultimately show ?thesis
    by (simp add: execute_simps demo_update_def update_reference_quote_v2_def load_update_def
        check_signer_def to_legacy_args_def demo_quote_def[symmetric])
      (simp add: demo_world5_def demo_worlds demo_keys)
qed


definition demo_loaded :: loaded where
  "demo_loaded = \<lparr>ld_vault = demo_vault\<lparr>vs_target_base_inventory := 1000000000\<rparr>,
     ld_base_mint = \<lparr>mi_decimals = 9, mi_program = demo_program, mi_transfer_fee_config = False\<rparr>,
     ld_quote_mint = \<lparr>mi_decimals = 6, mi_program = demo_program, mi_transfer_fee_config = False\<rparr>,
     ld_base_vault = demo_token vault_authority demo_base_mint 1000000000,
     ld_quote_vault = demo_token vault_authority demo_quote_mint 30000000000000\<rparr>"

definition demo_swapped :: world where
  "demo_swapped = demo_world5\<lparr>wd_tokens := (wd_tokens demo_world5)(
       replicate 32 10 \<mapsto> demo_token demo_taker demo_base_mint 4000000,
       base_vault_key \<mapsto> demo_token vault_authority demo_base_mint 1001000000,
       quote_vault_key \<mapsto> demo_token vault_authority demo_quote_mint 29970024000000,
       replicate 32 11 \<mapsto> demo_token demo_taker demo_quote_mint 29976000000),
     wd_events := [swap_event taker_accounts demo_swap_args demo_published 105 example_swap]\<rparr>"

lemma demo_load_quote [simp]: "load_quote demo_runtime demo_world5 pool_key quote_key = Ok demo_published"
  by (simp add: load_quote_def lookup_account_def ok_or_def check_seeds_def demo_runtime_def
      demo_worlds demo_keys)

lemma taker_fields [simp]:
  "ac_user taker_accounts = demo_taker" "ac_pool_config taker_accounts = pool_key"
  "ac_quote_state taker_accounts = quote_key" "ac_vault_authority taker_accounts = vault_authority"
  "ac_vault_state taker_accounts = vault_key" "ac_base_mint taker_accounts = demo_base_mint"
  "ac_quote_mint taker_accounts = demo_quote_mint" "ac_base_token_program taker_accounts = demo_program"
  "ac_quote_token_program taker_accounts = demo_program" "ac_user_base taker_accounts = replicate 32 10"
  "ac_user_quote taker_accounts = replicate 32 11" "ac_base_vault taker_accounts = base_vault_key"
  "ac_quote_vault taker_accounts = quote_vault_key"
  by (simp_all add: taker_accounts_def demo_accounts_def)

lemma demo_swap_fields [simp]:
  "sw_amount_in demo_swap_args = 1000000" "sw_minimum_amount_out demo_swap_args = 29000000000"
  "sw_expected_quote_sequence demo_swap_args = 1" "sw_base_to_quote demo_swap_args"
  by (simp_all add: demo_swap_args_def)

lemma demo_loaded_side: "load_vault_side demo_runtime demo_world5 taker_accounts demo_pool demo_maker = Ok demo_loaded"
  by (simp add: load_vault_side_def load_vault_def load_token_def
      handler_checks demo_runtime_def demo_worlds demo_keys CUSTODY_MODEL_MAKER_OWNED_def demo_loaded_def)

lemma demo_swap_checks: "swap_checks demo_runtime [demo_taker] taker_accounts demo_swap_args 105 demo_world5
    = Ok (demo_pool, demo_published, demo_loaded)"
proof -
  show ?thesis
    by (simp add: swap_checks_def check_signer_def demo_loaded_side swap_args_validate_def)
      (simp add: reject_unsupported_token_extensions_def demo_loaded_def demo_runtime_def
        demo_keys assert_usable_for_swap_def demo_published_def demo_quote_def demo_vault_def
        assert_maker_owned_for_pool_def CUSTODY_MODEL_MAKER_OWNED_def)
qed

lemma demo_swap_priced: "reference_quote_exact_in (swap_state demo_pool demo_published demo_loaded 105)
    (swap_params demo_pool demo_published) 1000000 True = Ok example_swap"
proof -
  have "swap_state demo_pool demo_published demo_loaded 105 = example_state"
    by (simp add: swap_state_def demo_pool_def demo_published_def demo_quote_def demo_loaded_def
        demo_vault_def demo_token_def example_state_def)
  moreover have "swap_params demo_pool demo_published = example_params"
    by (simp add: swap_params_def quote_base_half_spread_bps_def demo_published_def demo_quote_def
        example_params_def)
  ultimately show ?thesis by (simp add: example_swap_runs)
qed

lemma demo_swap_runs: "swap_exact_in demo_runtime [demo_taker] taker_accounts demo_swap_args 105 demo_world5
    = Ok demo_swapped"
proof -
  have out: "rq_amount_out example_swap = 29976000000" by (simp add: example_swap_def)
  show ?thesis
    unfolding swap_exact_in_def demo_swap_checks
    by (simp add: demo_swap_priced out)
      (simp add: transfer_checked_def base_transfer_def quote_transfer_def demo_transfer_def
        checked_add_def demo_runtime_def demo_loaded_def
        demo_swapped_def demo_worlds demo_keys ok_or_def fun_upd_twist)
qed

section \<open>The run is reachable\<close>

lemma demo_reachable1: "reachable demo_runtime \<lparr>ch_slot = 90, ch_world = demo_world1\<rparr>"
proof -
  have wf: "keys_wf demo_initialize_pool"
    by (simp add: demo_initialize_pool_def is_pubkey_def demo_keys)
  have "reachable demo_runtime \<lparr>ch_slot = 0, ch_world = empty_world\<rparr>" by (rule start) simp
  then have "reachable demo_runtime \<lparr>ch_slot = 0, ch_world = demo_world0\<rparr>"
    by (rule step) (use environment[of "\<lparr>ch_slot = 0, ch_world = empty_world\<rparr>" 0] in \<open>simp add: demo_world0_def\<close>)
  then show ?thesis
    by (rule step) (use executed[of demo_initialize_pool "\<lparr>ch_slot = 0, ch_world = demo_world0\<rparr>" 90] wf demo_step1
      in simp)
qed

lemma demo_reachable4: "reachable demo_runtime \<lparr>ch_slot = 93, ch_world = demo_world4\<rparr>"
proof -
  have "reachable demo_runtime \<lparr>ch_slot = 91, ch_world = demo_world2\<rparr>"
    by (rule step[OF demo_reachable1]) (use executed[of "InitializeQuoteState (demo_authority quote_key) demo_publisher"
        "\<lparr>ch_slot = 90, ch_world = demo_world1\<rparr>" 91] demo_step2 in simp)
  then have "reachable demo_runtime \<lparr>ch_slot = 92, ch_world = demo_world3\<rparr>"
    by (rule step) (use executed[of demo_vaults "\<lparr>ch_slot = 91, ch_world = demo_world2\<rparr>" 92] demo_step3
      in \<open>simp add: demo_vaults_def\<close>)
  then show ?thesis
    by (rule step) (use executed[of demo_fund "\<lparr>ch_slot = 92, ch_world = demo_world3\<rparr>" 93] demo_step4
      in \<open>simp add: demo_fund_def\<close>)
qed

lemma demo_reachable: "reachable demo_runtime \<lparr>ch_slot = 101, ch_world = demo_world5\<rparr>"
  by (rule step[OF demo_reachable4])
    (use executed[of demo_update "\<lparr>ch_slot = 93, ch_world = demo_world4\<rparr>" 101] demo_step5
      in \<open>simp add: demo_update_def\<close>)

end
