(* ===== verification/Program_Settlement.thy ===== *)
theory Program_Settlement imports Program_Demo begin

text \<open>
  Settlement: what an accepted swap moves on the token accounts.  Transfers of mints without a
  transfer fee are exact; that the program only ever moves such mints is proved from its checks.
\<close>

section \<open>Settlement\<close>

text \<open>
  What the program relies on from \<open>transfer_checked\<close> of the two token programs: a transfer of a mint
  that is not a Token-2022 mint with a transfer fee, between two accounts, moves exactly the amount,
  and only that.  Nothing is assumed of a mint with a fee, or of another program.
\<close>

definition plain_mint :: "runtime \<Rightarrow> (pubkey \<Rightarrow> mint_account option) \<Rightarrow> pubkey \<Rightarrow> pubkey \<Rightarrow> bool" where
  "plain_mint rt mints program mint \<longleftrightarrow> program \<in> {rt_token_program rt, rt_token_2022_program rt}
     \<and> (case mints mint of None \<Rightarrow> False
        | Some m \<Rightarrow> mi_program m = program \<and> \<not> (program = rt_token_2022_program rt \<and> mi_transfer_fee_config m))"

definition exact_transfers :: "runtime \<Rightarrow> bool" where
  "exact_transfers rt \<longleftrightarrow> (\<forall>t mints tokens tokens'.
     plain_mint rt mints (tr_program t) (tr_mint t)
       \<and> rt_transfer rt t mints tokens = Some tokens' \<and> tr_from t \<noteq> tr_to t \<longrightarrow>
     (\<exists>a b. tokens (tr_from t) = Some a \<and> tokens (tr_to t) = Some b
        \<and> unat (tr_amount t) \<le> unat (ta_amount a)
        \<and> unat (ta_amount b) + unat (tr_amount t) < 2 ^ 64
        \<and> tokens' = tokens(tr_from t \<mapsto> a\<lparr>ta_amount := ta_amount a - tr_amount t\<rparr>,
                           tr_to t \<mapsto> b\<lparr>ta_amount := ta_amount b + tr_amount t\<rparr>)))"

lemma unat_sum_word: "unat v = unat a + unat b \<Longrightarrow> v = a + b" for a b v :: u64
proof -
  assume "unat v = unat a + unat b"
  then have "of_nat (unat v) = (of_nat (unat a + unat b) :: u64)" by simp
  then show ?thesis by simp
qed

lemma demo_exact: "exact_transfers demo_runtime"
  unfolding exact_transfers_def
proof (intro allI impI)
  fix t mints tokens tokens'
  assume "plain_mint demo_runtime mints (tr_program t) (tr_mint t)
    \<and> rt_transfer demo_runtime t mints tokens = Some tokens' \<and> tr_from t \<noteq> tr_to t"
  then obtain a b v where "tokens (tr_from t) = Some a" "tokens (tr_to t) = Some b"
    "tr_amount t \<le> ta_amount a" "checked_add (ta_amount b) (tr_amount t) = Some v"
    "tokens' = tokens(tr_from t \<mapsto> a\<lparr>ta_amount := ta_amount a - tr_amount t\<rparr>,
                      tr_to t \<mapsto> b\<lparr>ta_amount := v\<rparr>)"
    by (auto simp: demo_runtime_def demo_transfer_def plain_mint_def split: option.splits if_splits)
  moreover from this(4) have "v = ta_amount b + tr_amount t"
    "unat (ta_amount b) + unat (tr_amount t) < 2 ^ 64"
    using unat_sum_word u64_bound[of v] by (simp_all add: checked_add_eq_Some)
  ultimately show "\<exists>a b. tokens (tr_from t) = Some a \<and> tokens (tr_to t) = Some b
        \<and> unat (tr_amount t) \<le> unat (ta_amount a)
        \<and> unat (ta_amount b) + unat (tr_amount t) < 2 ^ 64
        \<and> tokens' = tokens(tr_from t \<mapsto> a\<lparr>ta_amount := ta_amount a - tr_amount t\<rparr>,
                           tr_to t \<mapsto> b\<lparr>ta_amount := ta_amount b + tr_amount t\<rparr>)"
    by (simp add: word_le_nat_alt)
qed

text \<open>On a mint with a fee the same runtime credits less than it debits.\<close>

lemma demo_fee_withheld:
  "rt_transfer demo_runtime
      \<lparr>tr_program = replicate 32 7, tr_from = [1], tr_mint = [3], tr_to = [2], tr_authority = [4],
       tr_amount = 1000, tr_decimals = 6\<rparr>
      [[3] \<mapsto> \<lparr>mi_decimals = 6, mi_program = replicate 32 7, mi_transfer_fee_config = True\<rparr>]
      [[1] \<mapsto> \<lparr>ta_mint = [3], ta_owner = [4], ta_program = replicate 32 7, ta_amount = 1000\<rparr>,
       [2] \<mapsto> \<lparr>ta_mint = [3], ta_owner = [5], ta_program = replicate 32 7, ta_amount = 0\<rparr>]
    = Some [[1] \<mapsto> \<lparr>ta_mint = [3], ta_owner = [4], ta_program = replicate 32 7, ta_amount = 0\<rparr>,
       [2] \<mapsto> \<lparr>ta_mint = [3], ta_owner = [5], ta_program = replicate 32 7, ta_amount = 990\<rparr>]"
  by (simp add: demo_runtime_def demo_transfer_def checked_add_def fun_upd_twist)

text \<open>Both mints of a swap or a funding are plain once the checks of the program passed.\<close>

definition plain_mints :: "runtime \<Rightarrow> (pubkey \<Rightarrow> mint_account option) \<Rightarrow> pool_accounts \<Rightarrow> bool" where
  "plain_mints rt mints acc \<longleftrightarrow> plain_mint rt mints (ac_base_token_program acc) (ac_base_mint acc)
     \<and> plain_mint rt mints (ac_quote_token_program acc) (ac_quote_mint acc)"

lemma plain_mintsD:
  assumes "plain_mints rt mints acc"
  shows "plain_mint rt mints (ac_base_token_program acc) (ac_base_mint acc)"
    "plain_mint rt mints (ac_quote_token_program acc) (ac_quote_mint acc)"
  using assms by (simp_all add: plain_mints_def)

lemma loaded_plain:
  assumes "load_vault_side rt w acc pc maker = Ok ld"
    and "reject_unsupported_token_extensions rt (ld_base_mint ld) = Ok ()"
    and "reject_unsupported_token_extensions rt (ld_quote_mint ld) = Ok ()"
  shows "plain_mints rt (wd_mints w) acc"
  using load_vault_side_Ok(3,4,11-14)[OF assms(1)] assms(2,3)
  by (auto simp: plain_mints_def plain_mint_def reject_unsupported_token_extensions_def split: if_splits)

definition balance :: "(pubkey \<Rightarrow> token_account option) \<Rightarrow> pubkey \<Rightarrow> nat" where
  "balance tokens k = (case tokens k of None \<Rightarrow> 0 | Some t \<Rightarrow> unat (ta_amount t))"

lemma transfer_balances:
  assumes "exact_transfers rt" "plain_mint rt mints (tr_program t) (tr_mint t)"
    and "rt_transfer rt t mints tokens = Some tokens'" "tr_from t \<noteq> tr_to t"
  shows "balance tokens' (tr_from t) + unat (tr_amount t) = balance tokens (tr_from t)"
    and "balance tokens' (tr_to t) = balance tokens (tr_to t) + unat (tr_amount t)"
    and "k \<noteq> tr_from t \<Longrightarrow> k \<noteq> tr_to t \<Longrightarrow> tokens' k = tokens k"
proof -
  from assms obtain a b where ab: "tokens (tr_from t) = Some a" "tokens (tr_to t) = Some b"
    "unat (tr_amount t) \<le> unat (ta_amount a)" "unat (ta_amount b) + unat (tr_amount t) < 2 ^ 64"
    "tokens' = tokens(tr_from t \<mapsto> a\<lparr>ta_amount := ta_amount a - tr_amount t\<rparr>,
                      tr_to t \<mapsto> b\<lparr>ta_amount := ta_amount b + tr_amount t\<rparr>)"
    unfolding exact_transfers_def by blast
  show "balance tokens' (tr_from t) + unat (tr_amount t) = balance tokens (tr_from t)"
    using ab assms(4) by (simp add: balance_def unat_sub word_le_nat_alt)
  show "balance tokens' (tr_to t) = balance tokens (tr_to t) + unat (tr_amount t)"
    using ab assms(4) by (simp add: balance_def unat_add_lem[THEN iffD1])
  show "k \<noteq> tr_from t \<Longrightarrow> k \<noteq> tr_to t \<Longrightarrow> tokens' k = tokens k" using ab by simp
qed

text \<open>The two transfers of a swap, over four distinct accounts.\<close>

lemma two_transfers:
  assumes "exact_transfers rt" "rt_transfer rt t1 mints tk = Some tk1" "rt_transfer rt t2 mints tk1 = Some tk2"
    and plain: "plain_mint rt mints (tr_program t1) (tr_mint t1)" "plain_mint rt mints (tr_program t2) (tr_mint t2)"
    and "distinct [tr_from t1, tr_to t1, tr_from t2, tr_to t2]"
  shows "balance tk2 (tr_from t1) + unat (tr_amount t1) = balance tk (tr_from t1)"
    and "balance tk2 (tr_to t1) = balance tk (tr_to t1) + unat (tr_amount t1)"
    and "balance tk2 (tr_from t2) + unat (tr_amount t2) = balance tk (tr_from t2)"
    and "balance tk2 (tr_to t2) = balance tk (tr_to t2) + unat (tr_amount t2)"
    and "k \<notin> {tr_from t1, tr_to t1, tr_from t2, tr_to t2} \<Longrightarrow> tk2 k = tk k"
proof -
  note a = transfer_balances[OF assms(1) plain(1) assms(2)] and b = transfer_balances[OF assms(1) plain(2) assms(3)]
  have same1: "balance tk2 k = balance tk1 k" if "k \<in> {tr_from t1, tr_to t1}" for k
    using that b(3)[of k] assms(6) by (auto simp: balance_def)
  have same2: "balance tk1 k = balance tk k" if "k \<in> {tr_from t2, tr_to t2}" for k
    using that a(3)[of k] assms(6) by (auto simp: balance_def)
  show "balance tk2 (tr_from t1) + unat (tr_amount t1) = balance tk (tr_from t1)"
    "balance tk2 (tr_to t1) = balance tk (tr_to t1) + unat (tr_amount t1)"
    using a(1,2) same1 assms(6) by simp_all
  show "balance tk2 (tr_from t2) + unat (tr_amount t2) = balance tk (tr_from t2)"
    "balance tk2 (tr_to t2) = balance tk (tr_to t2) + unat (tr_amount t2)"
    using b(1,2) same2 assms(6) by simp_all
  show "k \<notin> {tr_from t1, tr_to t1, tr_from t2, tr_to t2} \<Longrightarrow> tk2 k = tk k"
    using a(3)[of k] b(3)[of k] assms(6) by simp
qed

lemma swap_accounts_distinct:
  assumes "load_vault_side rt w acc pc maker = Ok ld" "ac_user acc \<noteq> ac_vault_authority acc"
    and "ac_base_mint acc \<noteq> ac_quote_mint acc"
  shows "distinct [ac_user_base acc, ac_base_vault acc, ac_quote_vault acc, ac_user_quote acc]"
    "balance (wd_tokens w) (ac_base_vault acc) = unat (ta_amount (ld_base_vault ld))"
    "balance (wd_tokens w) (ac_quote_vault acc) = unat (ta_amount (ld_quote_vault ld))"
  using load_vault_side_Ok(5-8)[OF assms(1)] assms(2,3)
  by (auto simp: load_simps balance_def)

lemma swap_checks_Ok:
  assumes "swap_checks rt signers acc args now w = Ok (pc, qs, ld)"
  shows "ac_user acc \<in> set signers" "load_pool rt w (ac_pool_config acc) = Ok pc"
    "load_quote rt w (ac_pool_config acc) (ac_quote_state acc) = Ok qs"
    "load_vault_side rt w acc pc (pc_authority pc) = Ok ld"
    "0 < sw_amount_in args" "0 < sw_minimum_amount_out args"
    "qs_sequence qs = sw_expected_quote_sequence args" "qs_publish_slot qs \<le> now"
    "\<not> pc_paused pc" "\<not> qs_paused qs" "\<not> vs_paused (ld_vault ld)"
  using assms
  by (auto simp: swap_checks_def and_then_eq_Ok check_signer_def map_err_eq swap_args_validate_def
      assert_usable_for_swap_def assert_maker_owned_for_pool_def)

lemma swap_checks_plain:
  assumes "swap_checks rt signers acc args now w = Ok (pc, qs, ld)"
  shows "plain_mints rt (wd_mints w) acc"
  using assms loaded_plain by (auto simp: swap_checks_def and_then_eq_Ok map_err_eq)

text \<open>The steps of an accepted funding.\<close>

lemma fund_steps:
  assumes "fund_pool rt signers acc args w = Ok w'"
  obtains pc ld w1 w2 vs where "authorized_pool rt signers w (ac_user acc) (ac_pool_config acc) = Ok pc"
    and "load_vault_side rt w acc pc (ac_user acc) = Ok ld"
    and "0 < fa_base_amount args \<or> 0 < fa_quote_amount args"
    and "plain_mints rt (wd_mints w) acc" "wd_mints w1 = wd_mints w"
    and "(if 0 < fa_base_amount args
       then transfer_checked rt (base_transfer acc ld (ac_user_base acc) (ac_base_vault acc)
              (ac_user acc) (fa_base_amount args)) w else Ok w) = Ok w1"
    and "(if 0 < fa_quote_amount args
       then transfer_checked rt (quote_transfer acc ld (ac_user_quote acc) (ac_quote_vault acc)
              (ac_user acc) (fa_quote_amount args)) w1 else Ok w1) = Ok w2"
    and "apply_base_funding_to_target (ld_vault ld) (ta_amount (ld_base_vault ld)) (fa_base_amount args) = Ok vs"
    and "w' = w2\<lparr>wd_vaults := (wd_vaults w2)(ac_vault_state acc \<mapsto> vs)\<rparr>"
proof -
  obtain pc ld w1 w2 vs u1 u2 where *: "authorized_pool rt signers w (ac_user acc) (ac_pool_config acc) = Ok pc"
    "load_vault_side rt w acc pc (ac_user acc) = Ok ld" "0 < fa_base_amount args \<or> 0 < fa_quote_amount args"
    "reject_unsupported_token_extensions rt (ld_base_mint ld) = Ok u1"
    "reject_unsupported_token_extensions rt (ld_quote_mint ld) = Ok u2"
    and w1: "(if 0 < fa_base_amount args
       then transfer_checked rt (base_transfer acc ld (ac_user_base acc) (ac_base_vault acc)
              (ac_user acc) (fa_base_amount args)) w else Ok w) = Ok w1"
    and **: "(if 0 < fa_quote_amount args
       then transfer_checked rt (quote_transfer acc ld (ac_user_quote acc) (ac_quote_vault acc)
              (ac_user acc) (fa_quote_amount args)) w1 else Ok w1) = Ok w2"
    "apply_base_funding_to_target (ld_vault ld) (ta_amount (ld_base_vault ld)) (fa_base_amount args) = Ok vs"
    "w' = w2\<lparr>wd_vaults := (wd_vaults w2)(ac_vault_state acc \<mapsto> vs)\<rparr>"
    using assms unfolding fund_pool_def and_then_eq_Ok map_err_eq fund_args_validate_def require_eq by blast
  have "wd_mints w1 = wd_mints w" using w1 by (auto simp: transfer_checked_Ok split: if_splits)
  moreover have "plain_mints rt (wd_mints w) acc" using loaded_plain[OF *(2)] *(4,5) by simp
  ultimately show thesis using that[OF *(1-3) _ _ w1 **] by blast
qed

text \<open>Amounts of the two sides, in the direction of the swap.\<close>

definition account_in :: "pool_accounts \<Rightarrow> bool \<Rightarrow> pubkey" where
  "account_in acc b2q = (if b2q then ac_user_base acc else ac_user_quote acc)"

definition account_out :: "pool_accounts \<Rightarrow> bool \<Rightarrow> pubkey" where
  "account_out acc b2q = (if b2q then ac_user_quote acc else ac_user_base acc)"

definition swap_transfers ::
    "runtime \<Rightarrow> (pubkey \<Rightarrow> mint_account option) \<Rightarrow> pool_accounts \<Rightarrow> loaded \<Rightarrow> swap_args \<Rightarrow> u64 \<Rightarrow>
     (pubkey \<Rightarrow> token_account option) \<Rightarrow> (pubkey \<Rightarrow> token_account option) \<Rightarrow> bool" where
  "swap_transfers rt mints acc ld args out tokens tokens' \<longleftrightarrow>
    (if sw_base_to_quote args
       then \<exists>t1. rt_transfer rt (base_transfer acc ld (ac_user_base acc) (ac_base_vault acc)
              (ac_user acc) (sw_amount_in args)) mints tokens = Some t1
          \<and> rt_transfer rt (quote_transfer acc ld (ac_quote_vault acc) (ac_user_quote acc)
              (ac_vault_authority acc) out) mints t1 = Some tokens'
       else \<exists>t1. rt_transfer rt (quote_transfer acc ld (ac_user_quote acc) (ac_quote_vault acc)
              (ac_user acc) (sw_amount_in args)) mints tokens = Some t1
          \<and> rt_transfer rt (base_transfer acc ld (ac_base_vault acc) (ac_user_base acc)
              (ac_vault_authority acc) out) mints t1 = Some tokens')"

lemma sell_transfers:
  assumes "exact_transfers rt" "swap_transfers rt mints acc ld args out tk tk'" "sw_base_to_quote args"
    and "distinct [ac_user_base acc, ac_base_vault acc, ac_quote_vault acc, ac_user_quote acc]"
    and plain: "plain_mints rt mints acc"
  shows "balance tk' (ac_user_base acc) + unat (sw_amount_in args) = balance tk (ac_user_base acc)"
    "balance tk' (ac_base_vault acc) = balance tk (ac_base_vault acc) + unat (sw_amount_in args)"
    "balance tk' (ac_quote_vault acc) + unat out = balance tk (ac_quote_vault acc)"
    "balance tk' (ac_user_quote acc) = balance tk (ac_user_quote acc) + unat out"
    "k \<notin> {ac_user_base acc, ac_user_quote acc, ac_base_vault acc, ac_quote_vault acc} \<Longrightarrow> tk' k = tk k"
proof -
  obtain t1 where t: "rt_transfer rt (base_transfer acc ld (ac_user_base acc) (ac_base_vault acc)
              (ac_user acc) (sw_amount_in args)) mints tk = Some t1"
      "rt_transfer rt (quote_transfer acc ld (ac_quote_vault acc) (ac_user_quote acc)
              (ac_vault_authority acc) out) mints t1 = Some tk'"
    using assms(2,3) by (auto simp: swap_transfers_def)
  note two = two_transfers[OF assms(1) t, unfolded base_transfer_def quote_transfer_def, simplified,
    OF plain_mintsD[OF plain] assms(4)[simplified]]
  show "balance tk' (ac_user_base acc) + unat (sw_amount_in args) = balance tk (ac_user_base acc)"
    "balance tk' (ac_base_vault acc) = balance tk (ac_base_vault acc) + unat (sw_amount_in args)"
    "balance tk' (ac_quote_vault acc) + unat out = balance tk (ac_quote_vault acc)"
    "balance tk' (ac_user_quote acc) = balance tk (ac_user_quote acc) + unat out"
    using two(1-4) .
  show "k \<notin> {ac_user_base acc, ac_user_quote acc, ac_base_vault acc, ac_quote_vault acc} \<Longrightarrow> tk' k = tk k"
    using two(5)[of k] by simp
qed

lemma buy_transfers:
  assumes "exact_transfers rt" "swap_transfers rt mints acc ld args out tk tk'" "\<not> sw_base_to_quote args"
    and "distinct [ac_user_quote acc, ac_quote_vault acc, ac_base_vault acc, ac_user_base acc]"
    and plain: "plain_mints rt mints acc"
  shows "balance tk' (ac_user_quote acc) + unat (sw_amount_in args) = balance tk (ac_user_quote acc)"
    "balance tk' (ac_quote_vault acc) = balance tk (ac_quote_vault acc) + unat (sw_amount_in args)"
    "balance tk' (ac_base_vault acc) + unat out = balance tk (ac_base_vault acc)"
    "balance tk' (ac_user_base acc) = balance tk (ac_user_base acc) + unat out"
    "k \<notin> {ac_user_quote acc, ac_user_base acc, ac_quote_vault acc, ac_base_vault acc} \<Longrightarrow> tk' k = tk k"
proof -
  obtain t1 where t: "rt_transfer rt (quote_transfer acc ld (ac_user_quote acc) (ac_quote_vault acc)
              (ac_user acc) (sw_amount_in args)) mints tk = Some t1"
      "rt_transfer rt (base_transfer acc ld (ac_base_vault acc) (ac_user_base acc)
              (ac_vault_authority acc) out) mints t1 = Some tk'"
    using assms(2,3) by (auto simp: swap_transfers_def)
  note two = two_transfers[OF assms(1) t, unfolded base_transfer_def quote_transfer_def, simplified,
    OF plain_mintsD(2,1)[OF plain] assms(4)[simplified]]
  show "balance tk' (ac_user_quote acc) + unat (sw_amount_in args) = balance tk (ac_user_quote acc)"
    "balance tk' (ac_quote_vault acc) = balance tk (ac_quote_vault acc) + unat (sw_amount_in args)"
    "balance tk' (ac_base_vault acc) + unat out = balance tk (ac_base_vault acc)"
    "balance tk' (ac_user_base acc) = balance tk (ac_user_base acc) + unat out"
    using two(1-4) .
  show "k \<notin> {ac_user_quote acc, ac_user_base acc, ac_quote_vault acc, ac_base_vault acc} \<Longrightarrow> tk' k = tk k"
    using two(5)[of k] by simp
qed

lemma swap_settlement:
  assumes exact: "exact_transfers rt" and tr: "swap_transfers rt mints acc ld args out tk tokens"
    and plain: "plain_mints rt mints acc"
    and dist: "distinct [ac_user_base acc, ac_base_vault acc, ac_quote_vault acc, ac_user_quote acc]"
      "balance tk (ac_base_vault acc) = unat (ta_amount (ld_base_vault ld))"
      "balance tk (ac_quote_vault acc) = unat (ta_amount (ld_quote_vault ld))"
    and fill: "fill_amounts (swap_state pc qs ld now) (sw_amount_in args) net price
      (sw_base_to_quote args) out nb nq"
  shows "balance tokens (account_in acc (sw_base_to_quote args)) + unat (sw_amount_in args)
        = balance tk (account_in acc (sw_base_to_quote args))"
    "balance tokens (account_out acc (sw_base_to_quote args))
        = balance tk (account_out acc (sw_base_to_quote args)) + unat out"
    "balance tokens (ac_base_vault acc) = unat nb"
    "balance tokens (ac_quote_vault acc) = unat nq"
    "\<forall>k. k \<notin> {ac_user_base acc, ac_user_quote acc, ac_base_vault acc, ac_quote_vault acc}
          \<longrightarrow> tokens k = tk k"
proof -
  have *: "balance tokens (account_in acc b) + unat (sw_amount_in args) = balance tk (account_in acc b)
    \<and> balance tokens (account_out acc b) = balance tk (account_out acc b) + unat out
    \<and> balance tokens (ac_base_vault acc) = unat nb \<and> balance tokens (ac_quote_vault acc) = unat nq
    \<and> (\<forall>k. k \<notin> {ac_user_base acc, ac_user_quote acc, ac_base_vault acc, ac_quote_vault acc}
          \<longrightarrow> tokens k = tk k)" if b: "b = sw_base_to_quote args" for b
  proof (cases b)
    case True
    then have "sw_base_to_quote args" using b by simp
    note s = sell_transfers[OF exact tr this dist(1) plain]
    show ?thesis using s(1-4) s(5) fill dist(2,3) True b
      by (simp add: account_in_def account_out_def fill_amounts_def swap_state_def)
  next
    case False
    then have n: "\<not> sw_base_to_quote args" using b by simp
    have "distinct [ac_user_quote acc, ac_quote_vault acc, ac_base_vault acc, ac_user_base acc]"
      using dist(1) by auto
    note s = buy_transfers[OF exact tr n this plain]
    show ?thesis using s(1-4) s(5) fill dist(2,3) False b
      by (simp add: account_in_def account_out_def fill_amounts_def swap_state_def)
  qed
  from *[OF refl] show "balance tokens (account_in acc (sw_base_to_quote args)) + unat (sw_amount_in args)
        = balance tk (account_in acc (sw_base_to_quote args))"
    "balance tokens (account_out acc (sw_base_to_quote args))
        = balance tk (account_out acc (sw_base_to_quote args)) + unat out"
    "balance tokens (ac_base_vault acc) = unat nb"
    "balance tokens (ac_quote_vault acc) = unat nq"
    "\<forall>k. k \<notin> {ac_user_base acc, ac_user_quote acc, ac_base_vault acc, ac_quote_vault acc}
          \<longrightarrow> tokens k = tk k" by blast+
qed

text \<open>
  C1: on token programs whose transfers are exact except on mints with a transfer fee, an accepted
  \<open>swap_exact_in\<close> of a taker (other than the vault authority, on two different mints) takes
  exactly the input from the taker and pays exactly the reported output, which is at least the
  taker's minimum; afterwards the two vaults hold exactly the inventories the emitted event
  reports; no other token account, pool, quote, vault or curve account changes; and the quote used
  has the sequence number the taker named.  Mints with a fee are not excluded: that no swap moves
  one follows from the extension check of the handler.
\<close>

theorem swap_settles_exactly:
  assumes exact: "exact_transfers rt" and run: "swap_exact_in rt signers acc args now w = Ok w'"
    and taker: "ac_user acc \<noteq> ac_vault_authority acc" and mints: "ac_base_mint acc \<noteq> ac_quote_mint acc"
  shows "ac_user acc \<in> set signers \<and> (\<exists>ev. wd_events w' = wd_events w @ [ev]
    \<and> balance (wd_tokens w') (account_in acc (sw_base_to_quote args)) + unat (sw_amount_in args)
        = balance (wd_tokens w) (account_in acc (sw_base_to_quote args))
    \<and> balance (wd_tokens w') (account_out acc (sw_base_to_quote args))
        = balance (wd_tokens w) (account_out acc (sw_base_to_quote args)) + unat (ev_amount_out ev)
    \<and> balance (wd_tokens w') (ac_base_vault acc) = unat (ev_new_base_inventory ev)
    \<and> balance (wd_tokens w') (ac_quote_vault acc) = unat (ev_new_quote_inventory ev)
    \<and> sw_minimum_amount_out args \<le> ev_amount_out ev
    \<and> ev_amount_in ev = sw_amount_in args
    \<and> ev_quote_sequence ev = sw_expected_quote_sequence args
    \<and> (\<forall>k. k \<notin> {ac_user_base acc, ac_user_quote acc, ac_base_vault acc, ac_quote_vault acc}
          \<longrightarrow> wd_tokens w' k = wd_tokens w k)
    \<and> wd_pools w' = wd_pools w \<and> wd_quotes w' = wd_quotes w \<and> wd_vaults w' = wd_vaults w
    \<and> wd_curves w' = wd_curves w)"
proof -
  obtain pc qs ld q tokens where ck: "swap_checks rt signers acc args now w = Ok (pc, qs, ld)"
    and q: "reference_quote_exact_in (swap_state pc qs ld now) (swap_params pc qs)
        (sw_amount_in args) (sw_base_to_quote args) = Ok q"
    and min: "sw_minimum_amount_out args \<le> rq_amount_out q"
    and tr: "swap_transfers rt (wd_mints w) acc ld args (rq_amount_out q) (wd_tokens w) tokens"
    and w': "w' = w\<lparr>wd_tokens := tokens, wd_events := wd_events w @ [swap_event acc args qs now q]\<rparr>"
    using swap_Ok[OF run, folded swap_transfers_def] by - (elim exE conjE, rule that, assumption+)
  note facts = swap_checks_Ok[OF ck]
  note dist = swap_accounts_distinct[OF facts(4) taker mints]
  have "fill_amounts (swap_state pc qs ld now) (sw_amount_in args) (rq_amount_in_less_fee q)
      (rq_effective_price q) (sw_base_to_quote args) (rq_amount_out q) (rq_new_base_inventory q)
      (rq_new_quote_inventory q)"
    using swap_contractD[OF q] by (simp add: swap_contract_def)
  note settle = swap_settlement[OF exact tr swap_checks_plain[OF ck] dist this]
  show ?thesis
    unfolding w' using settle facts(1,7) min
    by (intro conjI exI[of _ "swap_event acc args qs now q"]) (simp_all add: swap_event_def)
qed

theorem swap_settles_exactly_witness:
  "balance (wd_tokens demo_swapped) (replicate 32 10) + 1000000 = 5000000
    \<and> balance (wd_tokens demo_swapped) (replicate 32 11) = 29976000000"
proof -
  have d: "ac_user taker_accounts \<noteq> ac_vault_authority taker_accounts"
    "ac_base_mint taker_accounts \<noteq> ac_quote_mint taker_accounts"
    by (simp_all add: demo_keys)
  have b: "balance (wd_tokens demo_world5) (replicate 32 10) = 5000000"
    "balance (wd_tokens demo_world5) (replicate 32 11) = 0"
    by (simp_all add: balance_def demo_worlds demo_keys)
  from swap_settles_exactly[OF demo_exact demo_swap_runs d] b show ?thesis
    by (auto simp: account_in_def account_out_def demo_swapped_def demo_worlds swap_event_def
        example_swap_def)
qed

end
