(* ===== verification/Program_Properties.thy ===== *)
theory Program_Properties imports Program_Settlement begin

text \<open>
  Properties of the program along a run: replay protection, authority, immutability, what a
  reachable world excludes.
\<close>

section \<open>Replay protection\<close>

locale replay_protected = account_kind rt get born upd
  for rt and get :: "world \<Rightarrow> pubkey \<Rightarrow> 'a option"
    and born :: "pubkey list \<Rightarrow> u64 \<Rightarrow> world \<Rightarrow> 'a \<Rightarrow> bool"
    and upd :: "pubkey list \<Rightarrow> u64 \<Rightarrow> world \<Rightarrow> 'a \<Rightarrow> 'a \<Rightarrow> bool" +
  fixes seq_of :: "'a \<Rightarrow> u64" and numbered :: "instruction \<Rightarrow> (pubkey \<times> u64) option"
  assumes upd_seq: "upd signers slot w a a' \<Longrightarrow> seq_of a \<le> seq_of a'"
    and numbered_exec: "numbered ix = Some (k, n) \<Longrightarrow> execute rt signers slot ix w = Ok w' \<Longrightarrow>
      \<exists>a a'. get w k = Some a \<and> seq_of a < n \<and> get w' k = Some a' \<and> seq_of a' = n"
begin

lemma no_replay:
  assumes "numbered ix = Some (k, n)" "execute rt signers slot ix w = Ok w'"
    and "(chain_step rt)\<^sup>*\<^sup>* \<lparr>ch_slot = slot, ch_world = w'\<rparr> c"
    and "numbered ix' = Some (k, m)" "m \<le> n"
  shows "\<not> is_ok (execute rt signers' slot' ix' (ch_world c))"
proof
  assume "is_ok (execute rt signers' slot' ix' (ch_world c))"
  then obtain w2 where w2: "execute rt signers' slot' ix' (ch_world c) = Ok w2"
    by (auto simp: is_ok_def split: sum.splits)
  obtain a where a: "get w' k = Some a" "seq_of a = n" using numbered_exec[OF assms(1,2)] by blast
  obtain b where b: "get (ch_world c) k = Some b" "seq_of b < m"
    using numbered_exec[OF assms(4) w2] by blast
  have "\<exists>b. get (ch_world c) k = Some b \<and> seq_of a \<le> seq_of b"
    using run_keeps[OF assms(3), of k a "\<lambda>a b. seq_of a \<le> seq_of b"] a(1) upd_seq by fastforce
  with a(2) b assms(5) show False by simp
qed

end

fun quote_number :: "instruction \<Rightarrow> (pubkey \<times> u64) option" where
  "quote_number (UpdateQuote acc args) = Some (up_quote_state acc, ua_sequence args)"
| "quote_number (UpdateQuoteV2 acc args) = Some (up_quote_state acc, u2_sequence args)"
| "quote_number _ = None"

fun curve_number :: "instruction \<Rightarrow> (pubkey \<times> u64) option" where
  "curve_number (StageCurve acc args) = Some (aa_target acc, sa_sequence args)"
| "curve_number (ActivateCurve acc args) = Some (aa_target acc, aa_sequence args)"
| "curve_number _ = None"

lemma quote_upd_mono:
  assumes "quote_upd signers slot w qs qs'"
  shows "qs_sequence qs \<le> qs_sequence qs'" "qs_publish_slot qs \<le> qs_publish_slot qs'"
    "qs_pool_config qs' = qs_pool_config qs" "qs_quote_authority qs' = qs_quote_authority qs"
    "qs_same_slot_order qs' = qs_same_slot_order qs"
  using assms by (auto simp: quote_upd_def apply_update_Ok)

lemma curve_step_seq: "curve_step m cs = Ok cs' \<Longrightarrow> cs_sequence cs < cs_sequence cs'"
  by (cases m) (auto simp: curve_step_def curve_stage_Ok curve_activate_Ok)

lemma curve_upd_mono: "curve_upd signers slot w cs cs' \<Longrightarrow> cs_sequence cs \<le> cs_sequence cs'"
  by (auto simp: curve_upd_def dest!: curve_step_seq)

interpretation quote_replay: replay_protected rt wd_quotes quote_born quote_upd qs_sequence quote_number for rt
proof
  fix ix k n signers slot w w'
  assume n: "quote_number ix = Some (k, n)" and ex: "execute rt signers slot ix w = Ok w'"
  show "\<exists>a a'. wd_quotes w k = Some a \<and> qs_sequence a < n \<and> wd_quotes w' k = Some a' \<and> qs_sequence a' = n"
  proof (cases ix)
    case (UpdateQuote acc args)
    with update_Ok[of rt signers acc args slot w w'] ex n show ?thesis
      by (auto simp: execute_simps load_simps apply_update_Ok)
  next
    case (UpdateQuoteV2 acc args)
    with update_v2_Ok[of rt signers acc args slot w w'] ex n show ?thesis
      by (auto simp: execute_simps load_simps apply_update_Ok to_legacy_args_def)
  qed (use n in auto)
qed (rule quote_upd_mono)

interpretation curve_replay: replay_protected rt wd_curves curve_born curve_upd cs_sequence curve_number for rt
proof
  fix ix k n signers slot w w'
  assume n: "curve_number ix = Some (k, n)" and ex: "execute rt signers slot ix w = Ok w'"
  show "\<exists>a a'. wd_curves w k = Some a \<and> cs_sequence a < n \<and> wd_curves w' k = Some a' \<and> cs_sequence a' = n"
    using n ex
    by (cases ix) (auto simp: execute_simps stage_Ok activate_Ok load_simps curve_stage_Ok curve_activate_Ok)
qed (rule curve_upd_mono)

text \<open>
  C11: once a quote update with sequence number \<open>n\<close> was accepted for a quote account, no update
  of that account (legacy or v2, by any signer, at any slot) with a number of at most \<open>n\<close> is
  accepted in any later state of the chain, whatever ran in between.
\<close>

theorem quote_replay_rejected:
  assumes "quote_number ix = Some (k, n)" "execute rt signers slot ix w = Ok w'"
    and "(chain_step rt)\<^sup>*\<^sup>* \<lparr>ch_slot = slot, ch_world = w'\<rparr> c"
    and "quote_number ix' = Some (k, m)" "m \<le> n"
  shows "\<not> is_ok (execute rt signers' slot' ix' (ch_world c))"
  using assms by (rule quote_replay.no_replay)

theorem quote_replay_rejected_witness:
  "\<not> is_ok (execute demo_runtime [demo_publisher] 150 demo_update demo_world5)"
proof -
  have "quote_number demo_update = Some (quote_key, 1)" by (simp add: demo_update_def)
  from quote_replay_rejected[OF this demo_step5 rtranclp.rtrancl_refl this] show ?thesis by simp
qed

text \<open>
  The same for the curve slot account: after an accepted \<open>stage\<close> or \<open>activate\<close> with
  sequence number \<open>n\<close>, no \<open>stage\<close> and no \<open>activate\<close> with a number of at most \<open>n\<close> is accepted
  later.
\<close>

lemma curve_replay_rejected:
  assumes "curve_number ix = Some (k, n)" "execute rt signers slot ix w = Ok w'"
    and "(chain_step rt)\<^sup>*\<^sup>* \<lparr>ch_slot = slot, ch_world = w'\<rparr> c"
    and "curve_number ix' = Some (k, m)" "m \<le> n"
  shows "\<not> is_ok (execute rt signers' slot' ix' (ch_world c))"
  using assms by (rule curve_replay.no_replay)

definition demo_curve_world :: world where
  "demo_curve_world = demo_world1\<lparr>wd_curves := [curve_key \<mapsto>
     \<lparr>cs_pool_config = pool_key, cs_authority = demo_maker, cs_bump = 255, cs_active_slot = 0,
      cs_pending_slot = 0, cs_padding = replicate 5 0, cs_pending_hash = replicate 32 0,
      cs_sequence = 0, cs_reserved = replicate 32 0\<rparr>]\<rparr>"

definition demo_stage :: instruction where
  "demo_stage = StageCurve (demo_authority curve_key)
     \<lparr>sa_slot = 3, sa_curve_hash = replicate 32 7, sa_sequence = 5\<rparr>"

definition demo_activate :: "u64 \<Rightarrow> instruction" where
  "demo_activate n = ActivateCurve (demo_authority curve_key)
     \<lparr>aa_slot = 3, aa_expected_hash = replicate 32 7, aa_sequence = n\<rparr>"

section \<open>Authority and histories\<close>

text \<open>
  C27: whatever instruction runs, an existing account of the program changes only if the right
  party signed: a pool or a vault account only with the pool's authority, a curve account only
  with its authority, a quote account only with its quote authority or the authority of its
  pool; and the change of a pool is only its pause flag.
\<close>

theorem accounts_change_only_by_authority:
  assumes "keys_wf ix" "execute rt signers slot ix w = Ok w'"
  shows "(wd_pools w k = Some pc \<longrightarrow> wd_pools w' k \<noteq> Some pc \<longrightarrow>
      pc_authority pc \<in> set signers \<and> (\<exists>flag. wd_pools w' k = Some (pc\<lparr>pc_paused := flag\<rparr>)))
    \<and> (wd_quotes w k = Some qs \<longrightarrow> wd_quotes w' k \<noteq> Some qs \<longrightarrow>
      qs_quote_authority qs \<in> set signers
      \<or> (\<exists>pc. wd_pools w (qs_pool_config qs) = Some pc \<and> pc_authority pc \<in> set signers))
    \<and> (wd_curves w k = Some cs \<longrightarrow> wd_curves w' k \<noteq> Some cs \<longrightarrow> cs_authority cs \<in> set signers)
    \<and> (wd_vaults w k = Some vs \<longrightarrow> wd_vaults w' k \<noteq> Some vs \<longrightarrow> vs_maker_authority vs \<in> set signers)"
proof (intro conjI[of "_ \<longrightarrow> _"] impI)
  assume "wd_pools w k = Some pc" "wd_pools w' k \<noteq> Some pc"
  then show "pc_authority pc \<in> set signers \<and> (\<exists>flag. wd_pools w' k = Some (pc\<lparr>pc_paused := flag\<rparr>))"
    using pool_kind.exec_change[OF assms, of k] by (auto simp: pool_upd_def)
next
  assume "wd_quotes w k = Some qs" "wd_quotes w' k \<noteq> Some qs"
  then have "quote_upd signers slot w qs (the (wd_quotes w' k))"
    using quote_kind.exec_change[OF assms, of k] by auto
  then show "qs_quote_authority qs \<in> set signers
      \<or> (\<exists>pc. wd_pools w (qs_pool_config qs) = Some pc \<and> pc_authority pc \<in> set signers)"
    unfolding quote_upd_def apply_update_Ok by blast
next
  assume "wd_curves w k = Some cs" "wd_curves w' k \<noteq> Some cs"
  then show "cs_authority cs \<in> set signers"
    using curve_kind.exec_change[OF assms, of k] by (auto simp: curve_upd_def)
next
  assume "wd_vaults w k = Some vs" "wd_vaults w' k \<noteq> Some vs"
  then show "vs_maker_authority vs \<in> set signers"
    using vault_kind.exec_change[OF assms, of k] by (auto simp: vault_upd_def)
qed

theorem accounts_change_only_by_authority_witness:
  "wd_quotes demo_world5 quote_key \<noteq> wd_quotes demo_world4 quote_key
    \<and> (qs_quote_authority demo_quote \<in> {demo_publisher}
      \<or> (\<exists>pc. wd_pools demo_world4 pool_key = Some pc \<and> pc_authority pc \<in> {demo_publisher}))"
proof -
  have wf: "keys_wf demo_update" by (simp add: demo_update_def)
  have q: "wd_quotes demo_world4 quote_key = Some demo_quote"
    "wd_quotes demo_world5 quote_key \<noteq> Some demo_quote"
    by (simp_all add: demo_worlds)
  have p: "qs_pool_config demo_quote = pool_key" by (simp add: demo_quote_def)
  from accounts_change_only_by_authority[OF wf demo_step5, of quote_key _ demo_quote] q p
  show ?thesis by simp
qed

text \<open>
  C28: along any run of the chain a pool keeps its authority, mints, token programs and compiled
  configuration; a quote account keeps its pool, authority and slot order while its sequence
  number and publish slot never fall; and a vault account keeps everything but its inventory
  target, which never falls.  No account disappears.
\<close>

theorem accounts_history:
  assumes "(chain_step rt)\<^sup>*\<^sup>* c c'"
  shows "(wd_pools (ch_world c) k = Some pc \<longrightarrow>
      (\<exists>flag. wd_pools (ch_world c') k = Some (pc\<lparr>pc_paused := flag\<rparr>)))
    \<and> (wd_quotes (ch_world c) k = Some qs \<longrightarrow> (\<exists>qs'. wd_quotes (ch_world c') k = Some qs'
        \<and> qs_pool_config qs' = qs_pool_config qs \<and> qs_quote_authority qs' = qs_quote_authority qs
        \<and> qs_same_slot_order qs' = qs_same_slot_order qs
        \<and> qs_sequence qs \<le> qs_sequence qs' \<and> qs_publish_slot qs \<le> qs_publish_slot qs'))
    \<and> (wd_vaults (ch_world c) k = Some vs \<longrightarrow> (\<exists>target. vs_target_base_inventory vs \<le> target
        \<and> wd_vaults (ch_world c') k = Some (vs\<lparr>vs_target_base_inventory := target\<rparr>)))"
proof (intro conjI impI)
  let ?R = "\<lambda>a b. \<exists>flag. b = a\<lparr>pc_paused := flag\<rparr>"
  assume pc: "wd_pools (ch_world c) k = Some pc"
  have "?R a a" for a by (rule exI[of _ "pc_paused a"]) simp
  moreover have "?R a c" if "?R a b" "?R b c" for a b c using that by force
  ultimately have "\<exists>b. wd_pools (ch_world c') k = Some b \<and> ?R pc b"
    by (intro pool_kind.run_keeps[OF assms pc, of ?R]) (unfold pool_upd_def, blast+)
  then show "\<exists>flag. wd_pools (ch_world c') k = Some (pc\<lparr>pc_paused := flag\<rparr>)" by blast
next
  let ?R = "\<lambda>a b. qs_pool_config b = qs_pool_config a \<and> qs_quote_authority b = qs_quote_authority a
        \<and> qs_same_slot_order b = qs_same_slot_order a
        \<and> qs_sequence a \<le> qs_sequence b \<and> qs_publish_slot a \<le> qs_publish_slot b"
  assume "wd_quotes (ch_world c) k = Some qs"
  then show "\<exists>qs'. wd_quotes (ch_world c') k = Some qs' \<and> ?R qs qs'"
    using quote_kind.run_keeps[OF assms, of k qs ?R] quote_upd_mono by fastforce
next
  let ?R = "\<lambda>a b. \<exists>target. vs_target_base_inventory a \<le> target \<and> b = a\<lparr>vs_target_base_inventory := target\<rparr>"
  assume vs: "wd_vaults (ch_world c) k = Some vs"
  have "?R a b" if "vault_upd signers slot w a b" for signers slot w a b
    using that by (auto simp: vault_upd_def dest!: funding_Ok)
  moreover have "?R a a" for a by (rule exI[of _ "vs_target_base_inventory a"]) simp
  moreover have "?R a c" if ab: "?R a b" and bc: "?R b c" for a b c
  proof -
    from ab bc obtain t1 t2 where "vs_target_base_inventory a \<le> t1" "t1 \<le> t2"
      "c = a\<lparr>vs_target_base_inventory := t2\<rparr>" by auto
    then show ?thesis by (intro exI[of _ t2]) simp
  qed
  ultimately have "\<exists>b. wd_vaults (ch_world c') k = Some b \<and> ?R vs b"
    by (intro vault_kind.run_keeps[OF assms vs, of ?R]) blast+
  then show "\<exists>target. vs_target_base_inventory vs \<le> target
        \<and> wd_vaults (ch_world c') k = Some (vs\<lparr>vs_target_base_inventory := target\<rparr>)" by blast
qed

theorem accounts_history_witness:
  "\<exists>qs'. wd_quotes demo_world5 quote_key = Some qs' \<and> qs_sequence demo_quote \<le> qs_sequence qs'
    \<and> qs_quote_authority qs' = demo_publisher"
proof -
  have "chain_step demo_runtime \<lparr>ch_slot = 93, ch_world = demo_world4\<rparr> \<lparr>ch_slot = 101, ch_world = demo_world5\<rparr>"
    using executed[of demo_update "\<lparr>ch_slot = 93, ch_world = demo_world4\<rparr>" 101] demo_step5
    by (simp add: demo_update_def)
  from accounts_history[OF r_into_rtranclp[of "chain_step demo_runtime", OF this], of quote_key _ demo_quote]
  show ?thesis by (simp add: demo_worlds)
qed

section \<open>Reachable worlds\<close>

text \<open>
  C9: every world the program can reach from the empty one satisfies the invariant: each pool
  holds a 448-byte layout whose parameters passed validation; each quote account belongs to an
  existing pool with the same slot order, stores a spread the pool's worst case admits, was not
  published in the future and has a positive price once it has a sequence number; each curve
  account has slots below 16 and points at its active slot when nothing is staged; each vault
  account is maker-owned, not paused, and its maker is its pool's authority.
\<close>

theorem reachable_world_wf:
  assumes "reachable rt c"
  shows "world_inv (ch_slot c) (ch_world c)"
  using assms by (rule reachable_world_inv)

theorem reachable_world_wf_witness: "world_inv 101 demo_world5"
  using reachable_world_wf[OF demo_reachable] by simp

text \<open>
  On a reachable world an accepted \<open>activate\<close> that changes the active slot activates
  exactly what was staged: the pending slot, below 16, with its non-zero hash.  The all-zero hash of an
  account with nothing staged is accepted too, but cannot change the active slot.
\<close>

lemma activation_needs_staged_curve:
  assumes "reachable rt c" "wd_curves (ch_world c) k = Some cs" "curve_activate cs args = Ok cs'"
    and "cs_active_slot cs' \<noteq> cs_active_slot cs"
  shows "cs_active_slot cs' = cs_pending_slot cs \<and> cs_active_slot cs' < MAX_CURVE_SLOTS
    \<and> aa_expected_hash args = cs_pending_hash cs \<and> cs_pending_hash cs \<noteq> replicate 32 0"
proof -
  have "curve_inv (ch_world c) cs"
    using reachable_world_inv[OF assms(1)] assms(2) by (simp add: world_inv_def)
  then show ?thesis using assms(3,4)
    by (auto simp: curve_inv_def curve_activate_Ok MAX_CURVE_SLOTS_def)
qed


definition demo_staged_world :: world where
  "demo_staged_world = demo_curve_world\<lparr>wd_curves := [curve_key \<mapsto>
     \<lparr>cs_pool_config = pool_key, cs_authority = demo_maker, cs_bump = 255, cs_active_slot = 0,
      cs_pending_slot = 3, cs_padding = replicate 5 0, cs_pending_hash = replicate 32 7,
      cs_sequence = 5, cs_reserved = replicate 32 0\<rparr>]\<rparr>"

lemma demo_curve_steps:
  "execute demo_runtime [demo_maker] 94 (InitializeCurve (demo_authority curve_key)) demo_world1 = Ok demo_curve_world"
  "execute demo_runtime [demo_maker] 95 demo_stage demo_curve_world = Ok demo_staged_world"
proof -
  have "check_unused demo_world1 curve_key = Ok ()"
    by (simp add: check_unused_def unused_def demo_worlds demo_keys)
  moreover have "check_found demo_runtime [CURVE_SLOT_STATE_SEED, pool_key] curve_key = Ok 255"
    by (simp add: check_found_def demo_runtime_def)
  ultimately show "execute demo_runtime [demo_maker] 94 (InitializeCurve (demo_authority curve_key)) demo_world1
      = Ok demo_curve_world"
    by (simp add: execute_simps initialize_curve_slot_state_def check_signer_def demo_authority_def)
      (simp add: demo_curve_world_def demo_worlds)
  have "load_curve demo_runtime demo_curve_world pool_key demo_maker curve_key
      = Ok (the (wd_curves demo_curve_world curve_key))"
    by (simp add: load_curve_def lookup_account_def ok_or_def check_seeds_def demo_runtime_def demo_curve_world_def)
  moreover have "wd_pools demo_curve_world = [pool_key \<mapsto> demo_pool]" by (simp add: demo_curve_world_def)
  ultimately show "execute demo_runtime [demo_maker] 95 demo_stage demo_curve_world = Ok demo_staged_world"
    by (simp add: execute_simps demo_stage_def stage_curve_slot_def load_curve_update_def demo_authority_def)
      (simp add: demo_staged_world_def demo_curve_world_def curve_stage_def validate_curve_slot_def MAX_CURVE_SLOTS_def)
qed

theorem curve_replay_rejected_witness:
  "\<not> is_ok (execute demo_runtime [demo_maker] 96 (demo_activate 5) demo_staged_world)"
proof -
  have n: "curve_number demo_stage = Some (curve_key, 5)" "curve_number (demo_activate 5) = Some (curve_key, 5)"
    by (simp_all add: demo_stage_def demo_activate_def demo_authority_def)
  from curve_replay_rejected[OF n(1) demo_curve_steps(2) rtranclp.rtrancl_refl n(2)] show ?thesis by simp
qed

lemma demo_staged_reachable: "reachable demo_runtime \<lparr>ch_slot = 95, ch_world = demo_staged_world\<rparr>"
proof -
  have "reachable demo_runtime \<lparr>ch_slot = 94, ch_world = demo_curve_world\<rparr>"
    by (rule step[OF demo_reachable1])
      (use executed[of "InitializeCurve (demo_authority curve_key)"
        "\<lparr>ch_slot = 90, ch_world = demo_world1\<rparr>" 94] demo_curve_steps(1) in simp)
  then show ?thesis
    by (rule step) (use executed[of demo_stage "\<lparr>ch_slot = 94, ch_world = demo_curve_world\<rparr>" 95]
        demo_curve_steps(2) in \<open>simp add: demo_stage_def\<close>)
qed

theorem activation_needs_staged_curve_witness:
  "\<exists>cs'. curve_activate (the (wd_curves demo_staged_world curve_key))
      \<lparr>aa_slot = 3, aa_expected_hash = replicate 32 7, aa_sequence = 6\<rparr> = Ok cs'
    \<and> cs_active_slot cs' = 3 \<and> cs_active_slot cs' < MAX_CURVE_SLOTS"
proof -
  let ?cs = "the (wd_curves demo_staged_world curve_key)"
  let ?cs' = "?cs\<lparr>cs_active_slot := 3, cs_pending_hash := replicate 32 0, cs_sequence := 6\<rparr>"
  have cs: "wd_curves (ch_world \<lparr>ch_slot = 95, ch_world = demo_staged_world\<rparr>) curve_key = Some ?cs"
    by (simp add: demo_staged_world_def)
  have act: "curve_activate ?cs \<lparr>aa_slot = 3, aa_expected_hash = replicate 32 7, aa_sequence = 6\<rparr> = Ok ?cs'"
    by (simp add: curve_activate_Ok demo_staged_world_def)
  have "cs_active_slot ?cs' \<noteq> cs_active_slot ?cs" by (simp add: demo_staged_world_def)
  from activation_needs_staged_curve[OF demo_staged_reachable cs act this] act show ?thesis by simp
qed


section \<open>Errors a swap cannot meet\<close>

lemma load_vault_side_error:
  assumes "load_vault_side rt w acc pc m = Err (Custom e)"
    and "\<forall>k vs. wd_vaults w k = Some vs \<longrightarrow> vault_inv w vs"
  shows "e \<in> {VaultStatePoolMismatch, VaultStateAuthorityMismatch, VaultMintMismatch,
    VaultTokenProgramMismatch, VaultAccountMismatch}"
proof -
  have v: "load_vault rt w p m k = Err (Custom e) \<Longrightarrow> e \<in> {VaultStatePoolMismatch, VaultStateAuthorityMismatch}" for p k
    using assms(2) by (auto simp: load_vault_def and_then_eq_Err lookup_account_def ok_or_eq check_seeds_def
        vault_inv_def)
  have m: "load_pool_mint w p k x = Err (Custom e) \<Longrightarrow> e = VaultMintMismatch" for p k x
    by (auto simp: load_pool_mint_def load_mint_def and_then_eq_Err lookup_account_def ok_or_eq)
  have t: "load_token w a b p k \<noteq> Err (Custom e)" for a b p k
    by (auto simp: load_token_def and_then_eq_Err lookup_account_def ok_or_eq)
  have g: "check_pool_token_program rt k x = Err (Custom e) \<Longrightarrow> e = VaultTokenProgramMismatch" for k x
    by (auto simp: check_pool_token_program_def check_token_interface_def and_then_eq_Err)
  from assms(1) show ?thesis
    unfolding load_vault_side_def and_then_eq_Err
    by (elim disjE exE conjE) (auto dest: v m g simp: t check_seeds_def)
qed

text \<open>The errors the setup of accounts rules out.\<close>

definition setup_errors :: "meta_amm_error set" where
  "setup_errors = {InvalidReferenceQuoteConfig, InvalidSameSlotUpdateOrder, QuoteStateOrderMismatch,
     FutureQuotePublishSlot, QuoteStatePaused, VaultPaused, UnsupportedCustodyModel,
     InvalidReferenceQuotePrice, InvalidReferenceQuoteSpread}"

lemma swap_checks_error:
  assumes err: "swap_checks rt signers acc args now w = Err (Custom e)"
    and inv: "world_inv now w"
  shows "e \<notin> setup_errors"
proof -
  note vaults = inv[unfolded world_inv_def, THEN conjunct2, THEN conjunct2, THEN conjunct2]
  have p: "load_pool rt w k \<noteq> Err (Custom x)" for k x
    by (auto simp: load_pool_def and_then_eq_Err lookup_account_def ok_or_eq check_seeds_def)
  have q: "load_quote rt w a k = Err (Custom x) \<Longrightarrow> x \<notin> setup_errors" for a k x
    by (auto simp: load_quote_def and_then_eq_Err lookup_account_def ok_or_eq check_seeds_def setup_errors_def)
  have c: "PoolConfigPaused \<notin> setup_errors" "UninitializedInventoryTarget \<notin> setup_errors"
    by (simp_all add: setup_errors_def)
  have v: "load_vault_side rt w acc pc m = Err (Custom e) \<Longrightarrow> e \<notin> setup_errors" for pc m
    using load_vault_side_error[OF _ vaults, of rt acc pc m e] by (auto simp: setup_errors_def)
  have a: "swap_args_validate args = Err x \<Longrightarrow> x \<notin> setup_errors" for x
    by (auto simp: swap_args_validate_def and_then_eq_Err setup_errors_def)
  have x: "reject_unsupported_token_extensions rt m = Err x \<Longrightarrow> x \<notin> setup_errors" for m x
    by (auto simp: reject_unsupported_token_extensions_def setup_errors_def split: if_splits)
  have o: "load_pool rt w k = Ok pc \<Longrightarrow> pool_same_slot_order pc \<noteq> Err x" for k pc x
    using inv by (auto simp: load_simps world_inv_def pool_inv_def pool_same_slot_order_def Let_def
        REFERENCE_QUOTE_POOL_CONFIG_SAME_SLOT_ORDER_OFFSET_def)
  have u: "assert_usable_for_swap qs k order s now = Err x \<Longrightarrow> x \<notin> setup_errors"
    if "load_pool rt w k = Ok pc" "load_quote rt w k j = Ok qs" "pool_same_slot_order pc = Ok order"
    for qs k j pc order s x
  proof -
    have "quote_inv now w qs" "wd_pools w k = Some pc" "qs_pool_config qs = k" "order = pc_layout pc ! 90"
      using that inv by (auto simp: load_simps world_inv_def pool_same_slot_order_Ok)
    then have "qs_publish_slot qs \<le> now" "qs_same_slot_order qs = order" "\<not> qs_paused qs"
      by (auto simp: quote_inv_def)
    then show "assert_usable_for_swap qs k order s now = Err x \<Longrightarrow> x \<notin> setup_errors"
      by (auto simp: assert_usable_for_swap_def and_then_eq_Err setup_errors_def)
  qed
  have m: "assert_maker_owned_for_pool (ld_vault ld) k a b c = Err x \<Longrightarrow> x \<notin> setup_errors"
    if "load_vault_side rt w acc pc m = Ok ld" for ld k a b c x pc m
    using load_vault_side_Ok(1)[OF that]
    by (auto simp: load_simps assert_maker_owned_for_pool_def and_then_eq_Err setup_errors_def)
  from err show ?thesis
    unfolding swap_checks_def and_then_eq_Err map_err_eq
    by (elim disjE exE conjE)
      (use p q v a x o u m c in \<open>auto simp: check_signer_def\<close>)
qed


lemma swap_params_ok:
  assumes "world_inv now w" "load_pool rt w k = Ok pc" "load_quote rt w k j = Ok qs"
  shows "config_params_ok (swap_params pc qs)"
proof -
  have "wd_pools w k = Some pc" "quote_inv now w qs" "qs_pool_config qs = k"
    using assms by (auto simp: load_simps world_inv_def)
  then have "config_params_ok (pool_params pc)"
    "spread_allowed (quote_base_half_spread_bps qs (base_half_spread_bps (pool_params pc))) pc"
    using assms(1) by (auto simp: world_inv_def pool_inv_def quote_inv_def)
  then show ?thesis
    by (simp add: swap_params_def Let_def spread_allowed_def config_params_with_spread)
qed

lemma swap_error_setup:
  assumes inv: "world_inv now w"
    and err: "swap_exact_in rt signers acc args now w = Err (Custom e)"
  shows "e \<notin> setup_errors"
proof -
  consider "swap_checks rt signers acc args now w = Err (Custom e)"
    | pc qs ld x where "swap_checks rt signers acc args now w = Ok (pc, qs, ld)"
      "reference_quote_exact_in (swap_state pc qs ld now) (swap_params pc qs)
        (sw_amount_in args) (sw_base_to_quote args) = Err x" "e = map_swap_math_error x"
    | "e = SlippageExceeded"
    using err
    by (cases "sw_base_to_quote args")
      (auto simp: swap_exact_in_def and_then_eq_Err map_err_eq transfer_checked_def map_ok_eq ok_or_eq)
  then show ?thesis
  proof cases
    case 1
    then show ?thesis using swap_checks_error inv by blast
  next
    case (2 pc qs ld x)
    note ok = swap_checks_Ok[OF 2(1)]
    have "vs_target_base_inventory (ld_vault ld) \<noteq> 0"
      using 2(1) by (auto simp: swap_checks_def and_then_eq_Ok)
    then have "x \<noteq> InvalidConfig"
      using swap_not_invalid[OF swap_params_ok[OF inv ok(2,3)], of "swap_state pc qs ld now"] 2(2)
      by (auto simp: swap_state_def)
    then show ?thesis using 2(3) by (cases x) (auto simp: map_swap_math_error_def setup_errors_def)
  qed (simp add: setup_errors_def)
qed

text \<open>
  C10: in every reachable world, and at any later slot, a refused swap is never refused for an
  invalid configuration, an invalid or mismatched slot order, a quote from the future, a paused
  quote or vault account or a foreign custody model: the checks at set-up and at each update
  make these errors of \<open>swap_exact_in\<close> unreachable.
\<close>

theorem swap_never_misconfigured:
  assumes "reachable rt c" "ch_slot c \<le> now"
    and "swap_exact_in rt signers acc args now (ch_world c) = Err (Custom e)"
  shows "e \<notin> {InvalidReferenceQuoteConfig, InvalidSameSlotUpdateOrder, QuoteStateOrderMismatch,
     FutureQuotePublishSlot, QuoteStatePaused, VaultPaused, UnsupportedCustodyModel,
     InvalidReferenceQuotePrice, InvalidReferenceQuoteSpread}"
  using swap_error_setup[OF world_inv_later[OF reachable_world_inv[OF assms(1)] assms(2)] assms(3)]
  unfolding setup_errors_def .

theorem swap_never_misconfigured_witness:
  "\<exists>e. swap_exact_in demo_runtime [demo_taker] taker_accounts (demo_swap_args\<lparr>sw_amount_in := 0\<rparr>) 105 demo_world5
      = Err (Custom e) \<and> e \<noteq> InvalidReferenceQuoteConfig"
proof -
  have run: "swap_exact_in demo_runtime [demo_taker] taker_accounts (demo_swap_args\<lparr>sw_amount_in := 0\<rparr>) 105
     (ch_world \<lparr>ch_slot = 101, ch_world = demo_world5\<rparr>) = Err (Custom InvalidSwapAmount)"
    by (simp add: swap_exact_in_def swap_checks_def check_signer_def demo_loaded_side swap_args_validate_def)
  from swap_never_misconfigured[OF demo_reachable _ run] run show ?thesis by simp
qed

text \<open>
  C36: a half spread published with \<open>update_reference_quote_v2\<close> is the one the next swap
  prices with (every other parameter coming from the pool), until another v2 update.
\<close>

theorem published_spread_is_used:
  assumes "reachable rt c" "execute rt signers slot (UpdateQuoteV2 acc args) (ch_world c) = Ok w'"
  shows "\<exists>pc qs'. wd_pools w' (up_pool_config acc) = Some pc \<and> wd_quotes w' (up_quote_state acc) = Some qs'
    \<and> swap_params pc qs' = (pool_params pc)\<lparr>base_half_spread_bps := u2_base_half_spread_bps args\<rparr>
    \<and> qs_mid_price_q64x64 qs' = u2_mid_price_q64x64 args \<and> qs_publish_slot qs' = u2_publish_slot args
    \<and> qs_sequence qs' = u2_sequence args"
proof -
  let ?v = "u2_base_half_spread_bps args"
  obtain pc qs q1 where ld: "load_update rt signers acc (ch_world c) = Ok (pc, qs)"
    and up: "apply_update qs (pc_authority pc) (up_quote_signer acc) (to_legacy_args args) slot = Ok q1"
    and w': "w' = (ch_world c)\<lparr>wd_quotes := (wd_quotes (ch_world c))(up_quote_state acc \<mapsto>
        set_base_half_spread_bps ?v q1)\<rparr>"
    using update_v2_Ok[of rt signers acc args slot "ch_world c" w'] assms(2) by (auto simp: execute_simps)
  have "quote_state_wf qs"
    using ld reachable_world_inv[OF assms(1)] by (auto simp: load_simps world_inv_def quote_inv_def)
  then have "quote_state_wf q1" by (simp add: apply_update_stored(2)[OF up])
  then show ?thesis using ld up w'
    by (auto simp: load_simps swap_params_def stored_spread apply_update_Ok to_legacy_args_def)
qed

theorem published_spread_is_used_witness:
  "\<exists>qs'. wd_quotes demo_world5 quote_key = Some qs' \<and> base_half_spread_bps (swap_params demo_pool qs') = 5"
proof -
  obtain acc args where u: "demo_update = UpdateQuoteV2 acc args" "up_quote_state acc = quote_key"
    "up_pool_config acc = pool_key" "u2_base_half_spread_bps args = 5"
    by (simp add: demo_update_def)
  have r: "reachable demo_runtime \<lparr>ch_slot = 93, ch_world = demo_world4\<rparr>" by (rule demo_reachable4)
  have "execute demo_runtime [demo_publisher] 101 (UpdateQuoteV2 acc args)
      (ch_world \<lparr>ch_slot = 93, ch_world = demo_world4\<rparr>) = Ok demo_world5"
    using demo_step5 u(1) by simp
  from published_spread_is_used[OF r this] u show ?thesis by auto
qed

section \<open>Funding\<close>

text \<open>
  C29: on token programs whose transfers are exact except on mints with a transfer fee, an accepted
  \<open>fund_pool\<close> (of a maker other than the vault authority, on two different mints) comes from the maker, moves at least one positive amount, and moves exactly the named amounts into the
  vaults; the inventory target becomes the whole base vault at the first base funding, grows by
  the amount at every later one, and stays when no base is added.
\<close>

theorem funding_moves_exactly:
  assumes exact: "exact_transfers rt" and run: "fund_pool rt signers acc args w = Ok w'"
    and maker: "ac_user acc \<noteq> ac_vault_authority acc" and mints: "ac_base_mint acc \<noteq> ac_quote_mint acc"
  shows "ac_user acc \<in> set signers \<and> 0 < unat (fa_base_amount args) + unat (fa_quote_amount args)
    \<and> balance (wd_tokens w') (ac_base_vault acc)
        = balance (wd_tokens w) (ac_base_vault acc) + unat (fa_base_amount args)
    \<and> balance (wd_tokens w') (ac_quote_vault acc)
        = balance (wd_tokens w) (ac_quote_vault acc) + unat (fa_quote_amount args)
    \<and> balance (wd_tokens w') (ac_user_base acc) + unat (fa_base_amount args)
        = balance (wd_tokens w) (ac_user_base acc)
    \<and> balance (wd_tokens w') (ac_user_quote acc) + unat (fa_quote_amount args)
        = balance (wd_tokens w) (ac_user_quote acc)
    \<and> (\<exists>vs vs'. wd_vaults w (ac_vault_state acc) = Some vs \<and> vs_maker_authority vs = ac_user acc
        \<and> wd_vaults w' (ac_vault_state acc) = Some vs'
        \<and> unat (vs_target_base_inventory vs')
            = (if fa_base_amount args = 0 then unat (vs_target_base_inventory vs)
               else if vs_target_base_inventory vs = 0 then balance (wd_tokens w') (ac_base_vault acc)
               else unat (vs_target_base_inventory vs) + unat (fa_base_amount args)))"
proof -
  obtain pc ld w1 w2 vs' where pc: "authorized_pool rt signers w (ac_user acc) (ac_pool_config acc) = Ok pc"
    and ld: "load_vault_side rt w acc pc (ac_user acc) = Ok ld"
    and pos: "0 < fa_base_amount args \<or> 0 < fa_quote_amount args"
    and m: "plain_mints rt (wd_mints w) acc" "wd_mints w1 = wd_mints w"
    and w1: "(if 0 < fa_base_amount args
       then transfer_checked rt (base_transfer acc ld (ac_user_base acc) (ac_base_vault acc)
              (ac_user acc) (fa_base_amount args)) w else Ok w) = Ok w1"
    and w2: "(if 0 < fa_quote_amount args
       then transfer_checked rt (quote_transfer acc ld (ac_user_quote acc) (ac_quote_vault acc)
              (ac_user acc) (fa_quote_amount args)) w1 else Ok w1) = Ok w2"
    and vs': "apply_base_funding_to_target (ld_vault ld) (ta_amount (ld_base_vault ld))
      (fa_base_amount args) = Ok vs'"
    and w': "w' = w2\<lparr>wd_vaults := (wd_vaults w2)(ac_vault_state acc \<mapsto> vs')\<rparr>"
    by (rule fund_steps[OF run])
  note plain = plain_mintsD[OF m(1)]
  note dist = swap_accounts_distinct[OF ld maker mints]
  have a: "balance (wd_tokens w1) (ac_user_base acc) + unat (fa_base_amount args) = balance (wd_tokens w) (ac_user_base acc)
    \<and> balance (wd_tokens w1) (ac_base_vault acc) = balance (wd_tokens w) (ac_base_vault acc) + unat (fa_base_amount args)
    \<and> (\<forall>k. k \<noteq> ac_user_base acc \<and> k \<noteq> ac_base_vault acc \<longrightarrow> wd_tokens w1 k = wd_tokens w k)"
    using w1 dist(1) transfer_balances[OF exact, of "wd_mints w" "base_transfer acc ld (ac_user_base acc) (ac_base_vault acc)
              (ac_user acc) (fa_base_amount args)" "wd_tokens w"] plain(1)
    by (auto simp: transfer_checked_Ok base_transfer_def word_gt_0 split: if_splits)
  have b: "balance (wd_tokens w2) (ac_user_quote acc) + unat (fa_quote_amount args) = balance (wd_tokens w1) (ac_user_quote acc)
    \<and> balance (wd_tokens w2) (ac_quote_vault acc) = balance (wd_tokens w1) (ac_quote_vault acc) + unat (fa_quote_amount args)
    \<and> (\<forall>k. k \<noteq> ac_user_quote acc \<and> k \<noteq> ac_quote_vault acc \<longrightarrow> wd_tokens w2 k = wd_tokens w1 k)"
    using w2 dist(1) transfer_balances[OF exact, of "wd_mints w" "quote_transfer acc ld (ac_user_quote acc) (ac_quote_vault acc)
              (ac_user acc) (fa_quote_amount args)" "wd_tokens w1"] plain(2)
    by (auto simp: m(2) transfer_checked_Ok quote_transfer_def word_gt_0 split: if_splits)
  have keep: "balance (wd_tokens w2) k = balance (wd_tokens w1) k" if "k \<in> {ac_user_base acc, ac_base_vault acc}" for k
    using that b dist(1) by (auto simp: balance_def)
  have keep': "balance (wd_tokens w1) k = balance (wd_tokens w) k" if "k \<in> {ac_user_quote acc, ac_quote_vault acc}" for k
    using that a dist(1) by (auto simp: balance_def)
  have tok: "wd_tokens w' = wd_tokens w2" by (simp add: w')
  have target: "unat (vs_target_base_inventory vs') = (if fa_base_amount args = 0 then unat (vs_target_base_inventory (ld_vault ld))
      else if vs_target_base_inventory (ld_vault ld) = 0 then unat (ta_amount (ld_base_vault ld)) + unat (fa_base_amount args)
      else unat (vs_target_base_inventory (ld_vault ld)) + unat (fa_base_amount args))"
    using vs' by (auto simp: apply_base_funding_to_target_def and_then_eq_Ok ok_or_eq checked_add_eq_Some
        split: if_splits)
  have bv: "balance (wd_tokens w') (ac_base_vault acc) = unat (ta_amount (ld_base_vault ld)) + unat (fa_base_amount args)"
    using a keep dist(2) by (simp add: tok)
  have "wd_vaults w (ac_vault_state acc) = Some (ld_vault ld)" "vs_maker_authority (ld_vault ld) = ac_user acc"
    using load_vault_side_Ok(1)[OF ld] by (simp_all add: load_simps)
  moreover have "wd_vaults w' (ac_vault_state acc) = Some vs'" by (simp add: w')
  moreover have "0 < unat (fa_base_amount args) + unat (fa_quote_amount args)"
    using pos by (auto simp: word_less_nat_alt)
  moreover have "ac_user acc \<in> set signers" using pc by (simp add: load_simps)
  ultimately show ?thesis using a b keep keep' target bv by (simp add: tok)
qed


theorem funding_moves_exactly_witness:
  "balance (wd_tokens demo_world4) base_vault_key = 1000000000
    \<and> balance (wd_tokens demo_world4) quote_vault_key = 30000000000000"
proof -
  let ?acc = "demo_accounts demo_maker (replicate 32 8) (replicate 32 9)"
  have run: "fund_pool demo_runtime [demo_maker] ?acc
      \<lparr>fa_base_amount = 1000000000, fa_quote_amount = 30000000000000\<rparr> demo_world3 = Ok demo_world4"
    using demo_step4 by (simp add: execute_simps demo_fund_def)
  have d: "ac_user ?acc \<noteq> ac_vault_authority ?acc" "ac_base_mint ?acc \<noteq> ac_quote_mint ?acc"
    by (simp_all add: demo_accounts_def demo_keys)
  have "balance (wd_tokens demo_world3) base_vault_key = 0" "balance (wd_tokens demo_world3) quote_vault_key = 0"
    by (simp_all add: balance_def demo_worlds demo_keys)
  with funding_moves_exactly[OF demo_exact run d] show ?thesis by (simp add: demo_accounts_def)
qed

end
