(* ===== verification/Market_Refinement.thy ===== *)
theory Market_Refinement imports Program_Properties begin
text \<open>
  What the program promises to makers and takers, as an abstract market: listings, one posted
  price per listing, and a log of trades.  The program refines it: every step of the chain is a
  step of the market under the abstraction \<open>market_of\<close>, so what every market keeps holds in every
  reachable state of the program.
\<close>

section \<open>The abstract market\<close>

record listing =
  li_authority :: pubkey
  li_params :: reference_quote_params
  li_paused :: bool

record posting =
  po_sequence :: u64
  po_publish_slot :: u64
  po_price :: u128

record market =
  mk_slot :: u64
  mk_listings :: "pubkey \<Rightarrow> listing option"
  mk_postings :: "pubkey \<Rightarrow> posting option"
  mk_trades :: "reference_swap_event list"

text \<open>
  A trade at a posted price: the price is younger than the listing's limit, and the taker gets at
  most the posted price adjusted by the spread the trade reports and the largest inventory skew.
\<close>

definition fair_trade :: "u64 \<Rightarrow> listing \<Rightarrow> posting \<Rightarrow> reference_swap_event \<Rightarrow> bool" where
  "fair_trade slot l q ev \<longleftrightarrow>
     ev_quote_sequence ev = po_sequence q \<and> ev_quote_publish_slot ev = po_publish_slot q
   \<and> ev_mid_price_q64x64 ev = po_price q
   \<and> po_publish_slot q \<le> slot \<and> unat slot - unat (po_publish_slot q) < unat (expire_slots (li_params l))
   \<and> ev_amount_in ev \<noteq> 0 \<and> ev_amount_out ev \<noteq> 0
   \<and> (if ev_base_to_quote ev
      then unat (ev_amount_out ev) * (10000 * 2 ^ 64)
        \<le> net_of_fee (ev_amount_in ev) (fee_bps (li_params l)) * (unat (po_price q)
           * nat (10000 - uint (ev_applied_spread_bps ev) + uint (max_inventory_skew_bps (li_params l))))
      else unat (ev_amount_out ev) * (unat (po_price q)
           * nat (10000 + uint (ev_applied_spread_bps ev) - uint (max_inventory_skew_bps (li_params l))) div 10000)
        \<le> net_of_fee (ev_amount_in ev) (fee_bps (li_params l)) * 2 ^ 64)"

inductive market_step :: "market \<Rightarrow> market \<Rightarrow> bool" where
  waited: "mk_slot m \<le> slot \<Longrightarrow> market_step m (m\<lparr>mk_slot := slot\<rparr>)"
| enlisted: "mk_slot m \<le> slot \<Longrightarrow> mk_listings m p = None \<Longrightarrow> \<not> li_paused l \<Longrightarrow> config_params_ok (li_params l) \<Longrightarrow>
    market_step m (m\<lparr>mk_slot := slot, mk_listings := (mk_listings m)(p \<mapsto> l)\<rparr>)"
| halted: "mk_slot m \<le> slot \<Longrightarrow> mk_listings m p = Some l \<Longrightarrow>
    market_step m (m\<lparr>mk_slot := slot, mk_listings := (mk_listings m)(p \<mapsto> l\<lparr>li_paused := flag\<rparr>)\<rparr>)"
| opened: "mk_slot m \<le> slot \<Longrightarrow> mk_listings m p = Some l \<Longrightarrow> mk_postings m p = None \<Longrightarrow>
    market_step m (m\<lparr>mk_slot := slot,
      mk_postings := (mk_postings m)(p \<mapsto> \<lparr>po_sequence = 0, po_publish_slot = 0, po_price = 0\<rparr>)\<rparr>)"
| posted: "mk_slot m \<le> slot \<Longrightarrow> mk_listings m p = Some l \<Longrightarrow> mk_postings m p = Some q \<Longrightarrow>
    po_sequence q < po_sequence q' \<Longrightarrow> po_publish_slot q \<le> po_publish_slot q' \<Longrightarrow>
    po_publish_slot q' \<le> slot \<Longrightarrow> 0 < po_price q' \<Longrightarrow>
    market_step m (m\<lparr>mk_slot := slot, mk_postings := (mk_postings m)(p \<mapsto> q')\<rparr>)"
| traded: "mk_slot m \<le> slot \<Longrightarrow> mk_listings m (ev_pool_config ev) = Some l \<Longrightarrow> \<not> li_paused l \<Longrightarrow>
    mk_postings m (ev_pool_config ev) = Some q \<Longrightarrow> fair_trade slot l q ev \<Longrightarrow>
    market_step m (m\<lparr>mk_slot := slot, mk_trades := mk_trades m @ [ev]\<rparr>)"

definition market_start :: "market \<Rightarrow> bool" where
  "market_start m \<longleftrightarrow> mk_listings m = Map.empty \<and> mk_postings m = Map.empty \<and> mk_trades m = []"

section \<open>Simulations\<close>

locale simulation =
  fixes cstart :: "'c \<Rightarrow> bool" and cstep :: "'c \<Rightarrow> 'c \<Rightarrow> bool" and cinv :: "'c \<Rightarrow> bool"
    and astart :: "'a \<Rightarrow> bool" and astep :: "'a \<Rightarrow> 'a \<Rightarrow> bool" and abs_of :: "'c \<Rightarrow> 'a"
  assumes start_sim: "cstart c \<Longrightarrow> cinv c \<and> astart (abs_of c)"
    and step_inv: "cinv c \<Longrightarrow> cstep c c' \<Longrightarrow> cinv c'"
    and step_sim: "cinv c \<Longrightarrow> cstep c c' \<Longrightarrow> astep (abs_of c) (abs_of c')"
begin

lemma run_sim:
  assumes "cstep\<^sup>*\<^sup>* c c'" "cinv c"
  shows "cinv c' \<and> astep\<^sup>*\<^sup>* (abs_of c) (abs_of c')"
  using assms
  by (induction rule: rtranclp_induct) (auto intro: step_inv dest: step_sim rtranclp.rtrancl_into_rtrancl)

text \<open>An invariant of the abstract system holds along every concrete run.\<close>

lemma transfer_invariant:
  assumes run: "cstart c" "cstep\<^sup>*\<^sup>* c c'"
    and P: "\<And>a. astart a \<Longrightarrow> P a" "\<And>a a'. P a \<Longrightarrow> astep a a' \<Longrightarrow> P a'"
  shows "P (abs_of c')"
proof -
  have "astep\<^sup>*\<^sup>* (abs_of c) (abs_of c')" using run_sim[OF run(2)] start_sim[OF run(1)] by blast
  then show ?thesis using start_sim[OF run(1)] P by (induction rule: rtranclp_induct) auto
qed

end

section \<open>The abstraction\<close>

definition quote_address :: "runtime \<Rightarrow> pubkey \<Rightarrow> pubkey" where
  "quote_address rt pool = fst (rt_find_address rt [QUOTE_STATE_SEED, pool])"

definition listing_of :: "pool_config \<Rightarrow> listing" where
  "listing_of pc = \<lparr>li_authority = pc_authority pc, li_params = pool_params pc, li_paused = pc_paused pc\<rparr>"

definition posting_of :: "quote_state \<Rightarrow> posting" where
  "posting_of qs = \<lparr>po_sequence = qs_sequence qs, po_publish_slot = qs_publish_slot qs,
     po_price = qs_mid_price_q64x64 qs\<rparr>"

definition postings :: "runtime \<Rightarrow> (pubkey \<Rightarrow> quote_state option) \<Rightarrow> pubkey \<Rightarrow> posting option" where
  "postings rt quotes pool = (case quotes (quote_address rt pool) of
     None \<Rightarrow> None
   | Some qs \<Rightarrow> if qs_pool_config qs = pool then Some (posting_of qs) else None)"

definition market_of :: "runtime \<Rightarrow> chain \<Rightarrow> market" where
  "market_of rt c = \<lparr>mk_slot = ch_slot c, mk_listings = map_option listing_of \<circ> wd_pools (ch_world c),
     mk_postings = postings rt (wd_quotes (ch_world c)), mk_trades = wd_events (ch_world c)\<rparr>"

text \<open>Every quote account lies at the address derived from its pool.\<close>

definition canonical :: "runtime \<Rightarrow> world \<Rightarrow> bool" where
  "canonical rt w \<longleftrightarrow> (\<forall>k qs. wd_quotes w k = Some qs \<longrightarrow> k = quote_address rt (qs_pool_config qs))"

definition chain_inv :: "runtime \<Rightarrow> chain \<Rightarrow> bool" where
  "chain_inv rt c \<longleftrightarrow> world_inv (ch_slot c) (ch_world c) \<and> canonical rt (ch_world c)"

lemma initialize_state_address:
  "initialize_reference_quote_state rt signers acc qa w = Ok w' \<Longrightarrow>
    aa_target acc = quote_address rt (aa_pool_config acc)"
  by (auto simp: initialize_reference_quote_state_def and_then_eq_Ok check_found_def quote_address_def)

lemma loaded_address:
  "load_update rt signers acc w = Ok (pc, qs) \<Longrightarrow> canonical rt w \<Longrightarrow>
    up_quote_state acc = quote_address rt (qs_pool_config qs)"
  unfolding canonical_def by (metis load_update_Ok load_quote_Ok)

text \<open>The instructions that write a quote account, and what they write.\<close>

lemma quote_write_cases:
  assumes ex: "execute rt signers slot ix w = Ok w'" and can: "canonical rt w"
  obtains (none) "wd_quotes w' = wd_quotes w"
  | (opened) pc qs where "wd_pools w (qs_pool_config qs) = Some pc"
      and "wd_quotes w (quote_address rt (qs_pool_config qs)) = None"
      and "posting_of qs = \<lparr>po_sequence = 0, po_publish_slot = 0, po_price = 0\<rparr>"
      and "w' = w\<lparr>wd_quotes := (wd_quotes w)(quote_address rt (qs_pool_config qs) \<mapsto> qs)\<rparr>"
  | (posted) pc qs qs' where "wd_pools w (qs_pool_config qs) = Some pc"
      and "wd_quotes w (quote_address rt (qs_pool_config qs)) = Some qs"
      and "qs_pool_config qs' = qs_pool_config qs" and "qs_sequence qs < qs_sequence qs'"
      and "qs_publish_slot qs \<le> qs_publish_slot qs'" and "qs_publish_slot qs' \<le> slot"
      and "0 < qs_mid_price_q64x64 qs'"
      and "w' = w\<lparr>wd_quotes := (wd_quotes w)(quote_address rt (qs_pool_config qs) \<mapsto> qs')\<rparr>"
proof (cases ix)
  case (InitializeQuoteState acc qa)
  then have ex': "initialize_reference_quote_state rt signers acc qa w = Ok w'" using ex by (simp add: execute_simps)
  let ?new = "\<lambda>pc bump order. set_base_half_spread_bps (base_half_spread_bps (pool_params pc))
      \<lparr>qs_pool_config = aa_pool_config acc, qs_quote_authority = qa, qs_bump = bump,
       qs_paused = False, qs_same_slot_order = order, qs_padding = replicate 5 0,
       qs_mid_price_q64x64 = 0, qs_publish_slot = 0, qs_sequence = 0, qs_last_update_slot = 0\<rparr>"
  obtain pc bump order where "authorized_pool rt signers w (aa_authority acc) (aa_pool_config acc) = Ok pc"
    and "unused w (aa_target acc)"
    and "w' = w\<lparr>wd_quotes := (wd_quotes w)(aa_target acc \<mapsto> ?new pc bump order)\<rparr>"
    using initialize_state_Ok[OF ex'] by blast
  with initialize_state_address[OF ex'] show thesis
    by (intro opened[of "?new pc bump order" pc]) (simp_all add: load_simps unused_def posting_of_def)
next
  case (UpdateQuote acc args)
  with update_Ok[of rt signers acc args slot w w'] ex obtain pc qs qs' where
    "load_update rt signers acc w = Ok (pc, qs)"
    and "apply_update qs (pc_authority pc) (up_quote_signer acc) args slot = Ok qs'"
    and "w' = w\<lparr>wd_quotes := (wd_quotes w)(up_quote_state acc \<mapsto> qs')\<rparr>"
    by (auto simp: execute_simps)
  moreover from this(1) can have "up_quote_state acc = quote_address rt (qs_pool_config qs)"
    by (rule loaded_address)
  ultimately show thesis by (intro posted[of qs pc qs']) (auto simp: load_simps apply_update_Ok)
next
  case (UpdateQuoteV2 acc args)
  with update_v2_Ok[of rt signers acc args slot w w'] ex obtain pc qs qs' where
    "load_update rt signers acc w = Ok (pc, qs)"
    and "apply_update qs (pc_authority pc) (up_quote_signer acc) (to_legacy_args args) slot = Ok qs'"
    and "w' = w\<lparr>wd_quotes := (wd_quotes w)(up_quote_state acc \<mapsto>
        set_base_half_spread_bps (u2_base_half_spread_bps args) qs')\<rparr>"
    by (auto simp: execute_simps)
  moreover from this(1) can have "up_quote_state acc = quote_address rt (qs_pool_config qs)"
    by (rule loaded_address)
  ultimately show thesis
    by (intro posted[of qs pc "set_base_half_spread_bps (u2_base_half_spread_bps args) qs'"])
      (auto simp: load_simps apply_update_Ok)
qed (use exec_frame(2)[OF ex] none in auto)

lemma canonical_write:
  assumes "canonical rt w"
  shows "canonical rt (w\<lparr>wd_quotes := (wd_quotes w)(quote_address rt (qs_pool_config qs) \<mapsto> qs)\<rparr>)"
  using assms by (simp add: canonical_def)

lemma exec_canonical:
  assumes "execute rt signers slot ix w = Ok w'" "canonical rt w"
  shows "canonical rt w'"
proof (rule quote_write_cases[OF assms])
  assume "wd_quotes w' = wd_quotes w"
  with assms(2) show ?thesis by (simp add: canonical_def)
next
  fix pc qs qs'
  assume "qs_pool_config qs' = qs_pool_config qs"
    "w' = w\<lparr>wd_quotes := (wd_quotes w)(quote_address rt (qs_pool_config qs) \<mapsto> qs')\<rparr>"
  with canonical_write[OF assms(2), of qs'] show ?thesis by simp
qed (use canonical_write[OF assms(2)] in blast)

lemma postings_write:
  assumes old: "\<And>old. quotes (quote_address rt (qs_pool_config qs)) = Some old \<Longrightarrow> qs_pool_config old = qs_pool_config qs"
  shows "postings rt (quotes(quote_address rt (qs_pool_config qs) \<mapsto> qs))
    = (postings rt quotes)(qs_pool_config qs \<mapsto> posting_of qs)"
proof
  let ?a = "quote_address rt (qs_pool_config qs)"
  fix p
  consider "p = qs_pool_config qs" | "p \<noteq> qs_pool_config qs" "quote_address rt p = ?a"
    | "p \<noteq> qs_pool_config qs" "quote_address rt p \<noteq> ?a" by blast
  then show "postings rt (quotes(?a \<mapsto> qs)) p = ((postings rt quotes)(qs_pool_config qs \<mapsto> posting_of qs)) p"
  proof cases
    case 1
    then show ?thesis by (simp add: postings_def)
  next
    case 2
    have "postings rt quotes p = None"
    proof (cases "quotes ?a")
      case (Some old)
      with 2 assms[OF Some] show ?thesis by (simp add: postings_def)
    qed (simp add: postings_def 2)
    with 2 show ?thesis by (simp add: postings_def)
  next
    case 3
    then show ?thesis by (simp add: postings_def)
  qed
qed

section \<open>The refinement\<close>

lemma market_of_simps [simp]:
  "mk_slot (market_of rt c) = ch_slot c" "mk_trades (market_of rt c) = wd_events (ch_world c)"
  "mk_listings (market_of rt c) p = map_option listing_of (wd_pools (ch_world c) p)"
  "mk_postings (market_of rt c) = postings rt (wd_quotes (ch_world c))"
  by (simp_all add: market_of_def)

definition same_market :: "world \<Rightarrow> world \<Rightarrow> bool" where
  "same_market w w' \<longleftrightarrow> wd_pools w' = wd_pools w \<and> wd_quotes w' = wd_quotes w \<and> wd_events w' = wd_events w"

lemma same_market_waits:
  assumes "ch_slot c \<le> slot" "same_market (ch_world c) w'"
  shows "market_step (market_of rt c) (market_of rt \<lparr>ch_slot = slot, ch_world = w'\<rparr>)"
proof -
  have "market_of rt \<lparr>ch_slot = slot, ch_world = w'\<rparr> = (market_of rt c)\<lparr>mk_slot := slot\<rparr>"
    using assms(2) by (simp add: market_of_def same_market_def)
  moreover have "market_step (market_of rt c) ((market_of rt c)\<lparr>mk_slot := slot\<rparr>)"
    using assms(1) by (intro waited) simp
  ultimately show ?thesis by simp
qed

lemma exec_same_market:
  assumes "execute rt signers slot ix w = Ok w'"
  shows "case ix of InitializePool _ _ \<Rightarrow> True | PausePool _ _ \<Rightarrow> True | InitializeQuoteState _ _ \<Rightarrow> True
    | UpdateQuote _ _ \<Rightarrow> True | UpdateQuoteV2 _ _ \<Rightarrow> True | Swap _ _ \<Rightarrow> True | _ \<Rightarrow> same_market w w'"
  using assms
  by (cases ix; fastforce simp: execute_simps stage_Ok activate_Ok same_market_def
      dest!: initialize_curve_Ok initialize_vaults_Ok fund_Ok dest: same_but_tokensD)

lemma listings_write:
  "(map_option listing_of \<circ> (pools(k \<mapsto> pc))) = (map_option listing_of \<circ> pools)(k \<mapsto> listing_of pc)"
  by auto

lemma initialize_pool_enlists:
  assumes "ch_slot c \<le> slot" "keys_wf (InitializePool acc args)"
    and "initialize_reference_quote_pool rt signers acc args (ch_world c) = Ok w'"
  shows "market_step (market_of rt c) (market_of rt \<lparr>ch_slot = slot, ch_world = w'\<rparr>)"
proof -
  obtain pc where un: "unused (ch_world c) (ia_pool_config acc)" and born: "pool_born signers slot (ch_world c) pc"
    and w': "w' = (ch_world c)\<lparr>wd_pools := (wd_pools (ch_world c))(ia_pool_config acc \<mapsto> pc)\<rparr>"
    using initialize_pool_born[OF assms(3,2)] by blast
  have "market_step (market_of rt c) ((market_of rt c)\<lparr>mk_slot := slot,
      mk_listings := (mk_listings (market_of rt c))(ia_pool_config acc \<mapsto> listing_of pc)\<rparr>)"
    using assms(1) un born
    by (intro enlisted) (simp_all add: unused_def listing_of_def pool_born_def pool_inv_def)
  then show ?thesis by (simp add: market_of_def w' listings_write)
qed

lemma pause_halts:
  assumes "ch_slot c \<le> slot" "pause_pool rt signers acc flag (ch_world c) = Ok w'"
  shows "market_step (market_of rt c) (market_of rt \<lparr>ch_slot = slot, ch_world = w'\<rparr>)"
proof -
  obtain pc where pc: "wd_pools (ch_world c) (aa_pool_config acc) = Some pc"
    and w': "w' = (ch_world c)\<lparr>wd_pools := (wd_pools (ch_world c))(aa_pool_config acc \<mapsto> pc\<lparr>pc_paused := flag\<rparr>)\<rparr>"
    using assms(2) by (auto simp: pause_Ok load_simps)
  have "market_step (market_of rt c) ((market_of rt c)\<lparr>mk_slot := slot,
      mk_listings := (mk_listings (market_of rt c))(aa_pool_config acc \<mapsto> (listing_of pc)\<lparr>li_paused := flag\<rparr>)\<rparr>)"
    using assms(1) pc by (intro halted) simp_all
  moreover have "(listing_of pc)\<lparr>li_paused := flag\<rparr> = listing_of (pc\<lparr>pc_paused := flag\<rparr>)"
    by (simp add: listing_of_def)
  ultimately show ?thesis by (simp add: market_of_def w' listings_write)
qed

lemma quote_write_steps:
  assumes "ch_slot c \<le> slot" "execute rt signers slot ix (ch_world c) = Ok w'" "canonical rt (ch_world c)"
    and same: "wd_pools w' = wd_pools (ch_world c)" "wd_events w' = wd_events (ch_world c)"
  shows "market_step (market_of rt c) (market_of rt \<lparr>ch_slot = slot, ch_world = w'\<rparr>)"
proof (rule quote_write_cases[OF assms(2,3)])
  assume "wd_quotes w' = wd_quotes (ch_world c)"
  then show ?thesis using same assms(1) by (intro same_market_waits) (simp_all add: same_market_def)
next
  fix pc and qs :: quote_state
  let ?a = "quote_address rt (qs_pool_config qs)"
  assume pc: "wd_pools (ch_world c) (qs_pool_config qs) = Some pc" and none: "wd_quotes (ch_world c) ?a = None"
    and q: "posting_of qs = \<lparr>po_sequence = 0, po_publish_slot = 0, po_price = 0\<rparr>"
    and w': "w' = (ch_world c)\<lparr>wd_quotes := (wd_quotes (ch_world c))(?a \<mapsto> qs)\<rparr>"
  have "market_step (market_of rt c) ((market_of rt c)\<lparr>mk_slot := slot,
      mk_postings := (mk_postings (market_of rt c))(qs_pool_config qs \<mapsto> posting_of qs)\<rparr>)"
    unfolding q using assms(1) pc none by (intro opened[of _ _ _ "listing_of pc"]) (simp_all add: postings_def)
  moreover have "postings rt ((wd_quotes (ch_world c))(?a \<mapsto> qs))
      = (postings rt (wd_quotes (ch_world c)))(qs_pool_config qs \<mapsto> posting_of qs)"
    by (rule postings_write) (simp add: none)
  ultimately show ?thesis by (simp add: market_of_def w')
next
  fix pc and qs qs' :: quote_state
  let ?a = "quote_address rt (qs_pool_config qs)"
  assume pc: "wd_pools (ch_world c) (qs_pool_config qs) = Some pc" and qs: "wd_quotes (ch_world c) ?a = Some qs"
    and pool: "qs_pool_config qs' = qs_pool_config qs"
    and up: "qs_sequence qs < qs_sequence qs'" "qs_publish_slot qs \<le> qs_publish_slot qs'"
      "qs_publish_slot qs' \<le> slot" "0 < qs_mid_price_q64x64 qs'"
    and w': "w' = (ch_world c)\<lparr>wd_quotes := (wd_quotes (ch_world c))(?a \<mapsto> qs')\<rparr>"
  have "market_step (market_of rt c) ((market_of rt c)\<lparr>mk_slot := slot,
      mk_postings := (mk_postings (market_of rt c))(qs_pool_config qs \<mapsto> posting_of qs')\<rparr>)"
    using assms(1) pc qs up
    by (intro posted[of _ _ _ "listing_of pc" "posting_of qs"]) (simp_all add: postings_def posting_of_def)
  moreover have "postings rt ((wd_quotes (ch_world c))(?a \<mapsto> qs'))
      = (postings rt (wd_quotes (ch_world c)))(qs_pool_config qs \<mapsto> posting_of qs')"
    using postings_write[of "wd_quotes (ch_world c)" rt qs'] qs pool by simp
  ultimately show ?thesis by (simp add: market_of_def w')
qed

lemma swap_params_keeps [simp]:
  "fee_bps (swap_params pc qs) = fee_bps (pool_params pc)"
  "expire_slots (swap_params pc qs) = expire_slots (pool_params pc)"
  "max_inventory_skew_bps (swap_params pc qs) = max_inventory_skew_bps (pool_params pc)"
  by (simp_all add: swap_params_def Let_def)

lemma swap_is_fair:
  assumes ck: "swap_checks rt signers acc args now w = Ok (pc, qs, ld)"
    and q: "reference_quote_exact_in (swap_state pc qs ld now) (swap_params pc qs)
        (sw_amount_in args) (sw_base_to_quote args) = Ok q"
  shows "fair_trade now (listing_of pc) (posting_of qs) (swap_event acc args qs now q)"
proof -
  let ?s = "swap_state pc qs ld now" and ?p = "swap_params pc qs"
  let ?cap = "uint (max_inventory_skew_bps (pool_params pc))" and ?sp = "uint (rq_applied_spread_bps q)"
  have mid: "raw (mid_price ?s) = qs_mid_price_q64x64 qs" by (simp add: swap_state_def)
  note facts = swap_checks_Ok[OF ck]
  note c = swap_contractD[OF q]
  have age: "unat now - unat (qs_publish_slot qs) < unat (expire_slots (pool_params pc))"
    using c by (simp add: swap_contract_def swap_open_def quote_age_def swap_state_def)
  have amounts: "sw_amount_in args \<noteq> 0" "rq_amount_out q \<noteq> 0"
    using c by (simp_all add: swap_contract_def swap_open_def fill_amounts_def)
  note price = swap_price_bounded[OF q, unfolded mid swap_params_keeps]
  then have cap: "- ?cap \<le> current_skew ?s ?p" "current_skew ?s ?p \<le> ?cap" by linarith+
  have sell: "unat (rq_amount_out q) * (10000 * 2 ^ 64)
      \<le> net_of_fee (sw_amount_in args) (fee_bps (pool_params pc))
        * (unat (qs_mid_price_q64x64 qs) * nat (10000 - ?sp + ?cap))" if "sw_base_to_quote args"
  proof -
    have "nat (10000 - ?sp - current_skew ?s ?p) \<le> nat (10000 - ?sp + ?cap)" using cap by simp
    then show ?thesis using price that by (meson conjunct1 le_trans mult_le_mono2)
  qed
  have buy: "unat (rq_amount_out q) * (unat (qs_mid_price_q64x64 qs) * nat (10000 + ?sp - ?cap) div 10000)
      \<le> net_of_fee (sw_amount_in args) (fee_bps (pool_params pc)) * 2 ^ 64" if "\<not> sw_base_to_quote args"
  proof -
    have "nat (10000 + ?sp - ?cap) \<le> nat (10000 + ?sp - current_skew ?s ?p)" using cap by simp
    then have "unat (rq_amount_out q) * (unat (qs_mid_price_q64x64 qs) * nat (10000 + ?sp - ?cap) div 10000)
      \<le> unat (rq_amount_out q) * (unat (qs_mid_price_q64x64 qs) * nat (10000 + ?sp - current_skew ?s ?p) div 10000)"
      by (intro mult_le_mono2 div_le_mono)
    also have "\<dots> \<le> net_of_fee (sw_amount_in args) (fee_bps (pool_params pc)) * 2 ^ 64" using price that by simp
    finally show ?thesis .
  qed
  show ?thesis
    using facts(8) age amounts sell buy
    by (simp add: fair_trade_def swap_event_def posting_of_def listing_of_def)
qed

lemma swap_trades:
  assumes "ch_slot c \<le> slot" "canonical rt (ch_world c)"
    and "swap_exact_in rt signers acc args slot (ch_world c) = Ok w'"
  shows "market_step (market_of rt c) (market_of rt \<lparr>ch_slot = slot, ch_world = w'\<rparr>)"
proof -
  let ?w = "ch_world c"
  obtain pc qs ld q tokens where ck: "swap_checks rt signers acc args slot ?w = Ok (pc, qs, ld)"
    and q: "reference_quote_exact_in (swap_state pc qs ld slot) (swap_params pc qs)
        (sw_amount_in args) (sw_base_to_quote args) = Ok q"
    and w': "w' = ?w\<lparr>wd_tokens := tokens, wd_events := wd_events ?w @ [swap_event acc args qs slot q]\<rparr>"
    using swap_Ok[OF assms(3)] by - (elim exE conjE, rule that, assumption+)
  let ?ev = "swap_event acc args qs slot q"
  note facts = swap_checks_Ok[OF ck]
  have pool: "ev_pool_config ?ev = ac_pool_config acc" by (simp add: swap_event_def)
  have pc: "wd_pools ?w (ac_pool_config acc) = Some pc" using facts(2) by (simp add: load_pool_Ok)
  have qs: "wd_quotes ?w (ac_quote_state acc) = Some qs" "qs_pool_config qs = ac_pool_config acc"
    using facts(3) by (simp_all add: load_quote_Ok)
  then have "ac_quote_state acc = quote_address rt (ac_pool_config acc)"
    using assms(2) unfolding canonical_def by metis
  then have post: "postings rt (wd_quotes ?w) (ac_pool_config acc) = Some (posting_of qs)"
    using qs by (simp add: postings_def)
  have "market_step (market_of rt c) ((market_of rt c)\<lparr>mk_slot := slot, mk_trades := mk_trades (market_of rt c) @ [?ev]\<rparr>)"
    using assms(1) pc post facts(9) swap_is_fair[OF ck q]
    by (intro traded[of _ _ _ "listing_of pc" "posting_of qs"]) (simp_all add: pool, simp add: listing_of_def)
  then show ?thesis by (simp add: market_of_def w')
qed

lemma chain_step_market:
  assumes inv: "chain_inv rt c" and step: "chain_step rt c c'"
  shows "market_step (market_of rt c) (market_of rt c')"
  using step
proof (cases rule: chain_step.cases)
  case (executed ix slot signers w')
  have can: "canonical rt (ch_world c)" using inv by (simp add: chain_inv_def)
  note ex = executed(4) and le = executed(3)
  show ?thesis unfolding executed(1)
  proof (cases ix)
    case (InitializePool acc args)
    then show "market_step (market_of rt c) (market_of rt \<lparr>ch_slot = slot, ch_world = w'\<rparr>)"
      using executed(2) ex by (intro initialize_pool_enlists[OF le]) (simp_all add: execute_simps)
  next
    case (PausePool acc flag)
    then show "market_step (market_of rt c) (market_of rt \<lparr>ch_slot = slot, ch_world = w'\<rparr>)"
      using ex by (intro pause_halts[OF le]) (simp add: execute_simps)
  next
    case (Swap acc args)
    then show "market_step (market_of rt c) (market_of rt \<lparr>ch_slot = slot, ch_world = w'\<rparr>)"
      using ex by (intro swap_trades[OF le can]) (simp add: execute_simps)
  next
    case (InitializeQuoteState acc qa)
    with ex exec_frame(1)[OF ex] show "market_step (market_of rt c) (market_of rt \<lparr>ch_slot = slot, ch_world = w'\<rparr>)"
      by (intro quote_write_steps[OF le ex can]) (auto simp: execute_simps dest!: initialize_state_Ok)
  next
    case (UpdateQuote acc args)
    with ex exec_frame(1)[OF ex] show "market_step (market_of rt c) (market_of rt \<lparr>ch_slot = slot, ch_world = w'\<rparr>)"
      by (intro quote_write_steps[OF le ex can]) (auto simp: execute_simps dest!: update_Ok)
  next
    case (UpdateQuoteV2 acc args)
    with ex exec_frame(1)[OF ex] show "market_step (market_of rt c) (market_of rt \<lparr>ch_slot = slot, ch_world = w'\<rparr>)"
      by (intro quote_write_steps[OF le ex can]) (auto simp: execute_simps dest!: update_v2_Ok)
  qed (use exec_same_market[OF ex] in \<open>auto intro: same_market_waits[OF le]\<close>)
qed (auto intro!: same_market_waits simp: same_market_def)

lemma chain_step_inv: "chain_inv rt c \<Longrightarrow> chain_step rt c c' \<Longrightarrow> chain_inv rt c'"
  unfolding chain_inv_def
proof (elim conjE)
  assume "world_inv (ch_slot c) (ch_world c)" and can: "canonical rt (ch_world c)" and step: "chain_step rt c c'"
  moreover from step can have "canonical rt (ch_world c')"
    by (cases rule: chain_step.cases) (auto dest: exec_canonical simp: canonical_def)
  ultimately show "world_inv (ch_slot c') (ch_world c') \<and> canonical rt (ch_world c')"
    using step_world_inv by blast
qed

lemma chain_start:
  "ch_world c = empty_world \<Longrightarrow> chain_inv rt c \<and> market_start (market_of rt c)"
  by (auto simp: chain_inv_def world_inv_def canonical_def market_start_def market_of_def postings_def empty_world_def)

interpretation program_market: simulation "\<lambda>c. ch_world c = empty_world" "chain_step rt" "chain_inv rt"
    market_start market_step "market_of rt" for rt
  by unfold_locales (simp_all add: chain_start chain_step_inv chain_step_market)

section \<open>Along every run\<close>

text \<open>The trades of a pool, in order, and the number of the price now posted for it.\<close>

definition trade_numbers :: "market \<Rightarrow> pubkey \<Rightarrow> u64 list" where
  "trade_numbers m p = map ev_quote_sequence (filter (\<lambda>ev. ev_pool_config ev = p) (mk_trades m))"

definition log_in_order :: "market \<Rightarrow> bool" where
  "log_in_order m \<longleftrightarrow> (\<forall>p. sorted (trade_numbers m p)
     \<and> (\<forall>n \<in> set (trade_numbers m p). \<exists>q. mk_postings m p = Some q \<and> n \<le> po_sequence q))"

lemma log_in_order_start: "market_start m \<Longrightarrow> log_in_order m"
  by (simp add: log_in_order_def trade_numbers_def market_start_def)

lemma log_in_order_step:
  assumes "log_in_order m" "market_step m m'"
  shows "log_in_order m'"
  using assms(2)
proof cases
  case (opened slot p l)
  then show ?thesis using assms(1) by (force simp: log_in_order_def trade_numbers_def)
next
  case (posted slot p l q q')
  then show ?thesis using assms(1) by (force simp: log_in_order_def trade_numbers_def)
next
  case (traded slot ev l q)
  then have "trade_numbers m' p = trade_numbers m p @ (if p = ev_pool_config ev then [po_sequence q] else [])" for p
    by (auto simp: trade_numbers_def fair_trade_def)
  with traded assms(1) show ?thesis by (fastforce simp: log_in_order_def sorted_append)
qed (use assms(1) in \<open>auto simp: log_in_order_def trade_numbers_def\<close>)

lemma reachable_run: "reachable rt c \<Longrightarrow> \<exists>c0. ch_world c0 = empty_world \<and> (chain_step rt)\<^sup>*\<^sup>* c0 c"
  by (induction rule: reachable.induct) (auto intro: rtranclp.rtrancl_into_rtrancl)

lemma demo_swap_step:
  "chain_step demo_runtime \<lparr>ch_slot = 101, ch_world = demo_world5\<rparr> \<lparr>ch_slot = 105, ch_world = demo_swapped\<rparr>"
proof -
  have "execute demo_runtime [demo_taker] 105 (Swap taker_accounts demo_swap_args) demo_world5 = Ok demo_swapped"
    using demo_swap_runs by (simp add: execute_simps)
  then show ?thesis
    using executed[of "Swap taker_accounts demo_swap_args" "\<lparr>ch_slot = 101, ch_world = demo_world5\<rparr>" 105] by simp
qed

text \<open>
  C8: the program refines the market: from every reachable state each step of the chain is a step
  of the abstract market, in which a pool is listed once, only its pause flag changes, posted
  prices are positive and rise in number and publish slot, and a trade needs a listing that is not
  paused, a posted price that has not expired, and gives the taker no more than that price allows.
\<close>

theorem program_refines_market:
  assumes "reachable rt c" "chain_step rt c c'"
  shows "market_step (market_of rt c) (market_of rt c')"
proof -
  obtain c0 where "ch_world c0 = empty_world" "(chain_step rt)\<^sup>*\<^sup>* c0 c"
    using reachable_run[OF assms(1)] by blast
  then show ?thesis
    using program_market.run_sim program_market.start_sim program_market.step_sim assms(2) by blast
qed

theorem program_refines_market_witness:
  "market_step (market_of demo_runtime \<lparr>ch_slot = 101, ch_world = demo_world5\<rparr>)
    (market_of demo_runtime \<lparr>ch_slot = 105, ch_world = demo_swapped\<rparr>)"
  by (rule program_refines_market[OF demo_reachable demo_swap_step])

text \<open>
  C15: in every reachable world the swaps of a pool were made at posted prices in the order of
  their sequence numbers: the numbers in the event log of a pool never fall, and none exceeds that
  of the quote now stored at the pool's quote address.
\<close>

theorem swaps_follow_quotes:
  assumes "reachable rt c"
  shows "sorted (map ev_quote_sequence (filter (\<lambda>ev. ev_pool_config ev = p) (wd_events (ch_world c))))
    \<and> (\<forall>ev \<in> set (wd_events (ch_world c)). \<exists>qs.
        wd_quotes (ch_world c) (quote_address rt (ev_pool_config ev)) = Some qs
      \<and> qs_pool_config qs = ev_pool_config ev \<and> ev_quote_sequence ev \<le> qs_sequence qs)"
proof -
  obtain c0 where run: "ch_world c0 = empty_world" "(chain_step rt)\<^sup>*\<^sup>* c0 c"
    using reachable_run[OF assms] by blast
  have inv: "log_in_order (market_of rt c)"
    by (rule program_market.transfer_invariant[OF run log_in_order_start log_in_order_step])
  have "\<exists>qs. wd_quotes (ch_world c) (quote_address rt (ev_pool_config ev)) = Some qs
      \<and> qs_pool_config qs = ev_pool_config ev \<and> ev_quote_sequence ev \<le> qs_sequence qs"
    if "ev \<in> set (wd_events (ch_world c))" for ev
  proof -
    have "ev_quote_sequence ev \<in> set (trade_numbers (market_of rt c) (ev_pool_config ev))"
      using that by (auto simp: trade_numbers_def)
    then obtain q where "postings rt (wd_quotes (ch_world c)) (ev_pool_config ev) = Some q"
      "ev_quote_sequence ev \<le> po_sequence q"
      using inv by (auto simp: log_in_order_def)
    then show ?thesis by (auto simp: postings_def posting_of_def split: option.splits if_splits)
  qed
  moreover have "sorted (trade_numbers (market_of rt c) p)" using inv by (simp add: log_in_order_def)
  ultimately show ?thesis by (simp add: trade_numbers_def)
qed

theorem swaps_follow_quotes_witness:
  "\<exists>qs. wd_quotes demo_swapped (quote_address demo_runtime pool_key) = Some qs
     \<and> qs_pool_config qs = pool_key \<and> 1 \<le> qs_sequence qs"
proof -
  let ?ev = "swap_event taker_accounts demo_swap_args demo_published 105 example_swap"
  have "reachable demo_runtime \<lparr>ch_slot = 105, ch_world = demo_swapped\<rparr>"
    using demo_reachable demo_swap_step by (rule step)
  note followed = conjunct2[OF swaps_follow_quotes[OF this]]
  have "?ev \<in> set (wd_events (ch_world \<lparr>ch_slot = 105, ch_world = demo_swapped\<rparr>))" by (simp add: demo_swapped_def)
  moreover have "ev_pool_config ?ev = pool_key" "ev_quote_sequence ?ev = 1"
    by (simp_all add: swap_event_def demo_published_def)
  ultimately show ?thesis using followed by fastforce
qed

end
