(* ===== verification/Program_Creation.thy ===== *)
theory Program_Creation imports Program_Demo begin

text \<open>
  Creating a pool and keeping it alive: what \<open>initialize_reference_quote_pool\<close> does on every input
  once its accounts are in order, and that a publisher can always refresh a quote.
\<close>

section \<open>Creating a pool\<close>

text \<open>The accounts and signatures that \<open>initialize_reference_quote_pool\<close> asks for.\<close>

definition pool_ready ::
    "runtime \<Rightarrow> pubkey list \<Rightarrow> initialize_pool_accounts \<Rightarrow> world \<Rightarrow> mint_account \<Rightarrow> mint_account \<Rightarrow> u8 \<Rightarrow> bool" where
  "pool_ready rt signers acc w base_mint quote_mint bump \<longleftrightarrow>
     ia_payer acc \<in> set signers \<and> ia_authority acc \<in> set signers
   \<and> wd_mints w (ia_base_mint acc) = Some base_mint \<and> mi_program base_mint = ia_base_token_program acc
   \<and> wd_mints w (ia_quote_mint acc) = Some quote_mint \<and> mi_program quote_mint = ia_quote_token_program acc
   \<and> {ia_base_token_program acc, ia_quote_token_program acc} \<subseteq> {rt_token_program rt, rt_token_2022_program rt}
   \<and> rt_find_address rt (pool_seeds (ia_authority acc) (ia_base_mint acc) (ia_quote_mint acc))
       = (ia_pool_config acc, bump)
   \<and> unused w (ia_pool_config acc)
   \<and> is_ok (reject_unsupported_token_extensions rt base_mint)
   \<and> is_ok (reject_unsupported_token_extensions rt quote_mint)"

definition pool_input ::
    "initialize_pool_accounts \<Rightarrow> initialize_pool_args \<Rightarrow> strategy_config \<Rightarrow> mint_account \<Rightarrow> mint_account \<Rightarrow> config_input" where
  "pool_input acc args strategy base_mint quote_mint =
    \<lparr>in_strategy = strategy,
     in_token_pair = \<lparr>tp_base_mint = ia_base_mint acc, tp_quote_mint = ia_quote_mint acc,
       tp_base_token_program = ia_base_token_program acc, tp_quote_token_program = ia_quote_token_program acc,
       tp_base_decimals = mi_decimals base_mint, tp_quote_decimals = mi_decimals quote_mint\<rparr>,
     in_account_budget = args_to_account_budget (ip_account_budget args)\<rparr>"

lemma reject_is_ok: "is_ok (reject_unsupported_token_extensions rt m) \<Longrightarrow>
    reject_unsupported_token_extensions rt m = Ok ()"
  by (simp add: reject_unsupported_token_extensions_def split: if_splits)

lemma initialize_ready:
  assumes "pool_ready rt signers acc w bm qm bump"
  shows "initialize_reference_quote_pool rt signers acc args w =
    and_then (custom (args_strategy_config args)) (\<lambda>strategy.
    and_then (ok_or Panic (compile_pool_config_account (pool_input acc args strategy bm qm) bump False)) (\<lambda>compiled.
    and_then (map_err (\<lambda>_. Custom InvalidReferenceQuoteConfig) compiled) (\<lambda>layout.
    and_then (ok_or Panic (layout_to_bytes layout)) (\<lambda>bytes.
    Ok (w\<lparr>wd_pools := (wd_pools w)(ia_pool_config acc \<mapsto>
      \<lparr>pc_authority = ia_authority acc, pc_base_mint = ia_base_mint acc,
       pc_quote_mint = ia_quote_mint acc, pc_base_token_program = ia_base_token_program acc,
       pc_quote_token_program = ia_quote_token_program acc, pc_bump = bump, pc_paused = False,
       pc_layout = bytes\<rparr>)\<rparr>)))))"
proof -
  note r = assms[unfolded pool_ready_def]
  have mints: "load_mint w (ia_base_token_program acc) (ia_base_mint acc) = Ok bm"
    "load_mint w (ia_quote_token_program acc) (ia_quote_mint acc) = Ok qm"
    using r by (simp_all add: load_mint_Ok)
  have programs: "check_token_interface rt (ia_base_token_program acc) = Ok ()"
    "check_token_interface rt (ia_quote_token_program acc) = Ok ()"
    using r by (auto simp: check_token_interface_def)
  have ext: "reject_unsupported_token_extensions rt bm = Ok ()" "reject_unsupported_token_extensions rt qm = Ok ()"
    using r by (blast intro: reject_is_ok)+
  show ?thesis
    using r by (simp add: initialize_reference_quote_pool_def check_signer_def mints programs ext check_found_def
        check_unused_def pool_input_def Let_def)
qed

lemma refused_compiles: "\<not> input_ok input \<Longrightarrow> \<exists>e. compile_pool_config_account input bump flag = Some (Err e)"
  using compile_Ok[of input] by (cases "compile_reference_quote_config input")
    (auto simp: compile_pool_config_account_def)

text \<open>
  C14: once the accounts are in order, creating a pool does exactly what the configuration compiler
  decides: a slot order other than 0 and 1 and a configuration outside the documented bounds are
  refused with their errors, nothing panics, and otherwise the new pool, unpaused and under the
  authority's key, prices with exactly the parameters of the instruction, in their slot order.
\<close>

theorem pool_creation_exact:
  assumes "pool_ready rt signers acc w bm qm bump" "keys_wf (InitializePool acc args)"
  shows "case args_strategy_config args of
      Err e \<Rightarrow> e = InvalidSameSlotUpdateOrder \<and> 1 < ea_same_slot_order (ip_quote_update_envelope args)
        \<and> initialize_reference_quote_pool rt signers acc args w = Err (Custom e)
    | Ok strategy \<Rightarrow> if input_ok (pool_input acc args strategy bm qm)
        then \<exists>pc. initialize_reference_quote_pool rt signers acc args w
              = Ok (w\<lparr>wd_pools := (wd_pools w)(ia_pool_config acc \<mapsto> pc)\<rparr>)
            \<and> pc_authority pc = ia_authority acc \<and> \<not> pc_paused pc
            \<and> pool_params pc = args_to_params (ip_params args)
            \<and> pool_same_slot_order pc = Ok (ea_same_slot_order (ip_quote_update_envelope args))
        else initialize_reference_quote_pool rt signers acc args w = Err (Custom InvalidReferenceQuoteConfig)"
proof (cases "args_strategy_config args")
  case (Inl e)
  then have e: "e = InvalidSameSlotUpdateOrder" and "ea_same_slot_order (ip_quote_update_envelope args) \<noteq> 0"
    "ea_same_slot_order (ip_quote_update_envelope args) \<noteq> 1"
    by (auto simp: args_strategy_config_def args_to_envelope_def and_then_def split: if_splits sum.splits)
  then have "unat (ea_same_slot_order (ip_quote_update_envelope args)) \<noteq> 0"
    "unat (ea_same_slot_order (ip_quote_update_envelope args)) \<noteq> 1"
    by (simp_all only: word_unat_eq_iff unat_0 unat_1 not_False_eq_True)
  then have "1 < ea_same_slot_order (ip_quote_update_envelope args)"
    by (simp add: word_less_nat_alt)
  with Inl e show ?thesis by (simp add: initialize_ready[OF assms(1)])
next
  case (Inr strategy)
  let ?in = "pool_input acc args strategy bm qm"
  have params: "st_params (in_strategy ?in) = args_to_params (ip_params args)"
    and order: "same_slot_update_order_to_u8 (same_slot_order (st_quote_update_envelope (in_strategy ?in)))
      = ea_same_slot_order (ip_quote_update_envelope args)"
    using Inr by (auto simp: args_strategy_config_def args_to_envelope_def and_then_eq_Ok pool_input_def
        same_slot_update_order_to_u8_def split: if_splits)
  show ?thesis
  proof (cases "input_ok ?in")
    case False
    then obtain e where "compile_pool_config_account ?in bump False = Some (Err e)"
      using refused_compiles by blast
    with Inr False show ?thesis by (simp add: initialize_ready[OF assms(1)] ok_or_def)
  next
    case True
    have "pair_wf (in_token_pair ?in)" using assms(2) by (simp add: pair_wf_def pool_input_def)
    from compiled_account_bytes[OF True this, of bump False] obtain a bs where
      c: "compile_pool_config_account ?in bump False = Some (Ok a)" "layout_to_bytes a = Some bs"
      and bs: "params_from_pool_config_bytes bs = Some (st_params (in_strategy ?in))"
        "bs ! REFERENCE_QUOTE_POOL_CONFIG_SAME_SLOT_ORDER_OFFSET
          = same_slot_update_order_to_u8 (same_slot_order (st_quote_update_envelope (in_strategy ?in)))" by blast
    let ?pc = "\<lparr>pc_authority = ia_authority acc, pc_base_mint = ia_base_mint acc,
       pc_quote_mint = ia_quote_mint acc, pc_base_token_program = ia_base_token_program acc,
       pc_quote_token_program = ia_quote_token_program acc, pc_bump = bump, pc_paused = False,
       pc_layout = bs\<rparr>"
    have "pool_same_slot_order ?pc = Ok (ea_same_slot_order (ip_quote_update_envelope args))"
      "pool_params ?pc = args_to_params (ip_params args)"
      using bs order by (auto simp: pool_same_slot_order_def pool_params_def params same_slot_update_order_to_u8_def
          Let_def split: same_slot_update_order.splits)
    moreover have "initialize_reference_quote_pool rt signers acc args w
        = Ok (w\<lparr>wd_pools := (wd_pools w)(ia_pool_config acc \<mapsto> ?pc)\<rparr>)"
      using Inr c by (simp add: initialize_ready[OF assms(1)] ok_or_def)
    ultimately show ?thesis using Inr True by (auto intro!: exI[of _ ?pc])
  qed
qed

theorem pool_creation_exact_witness:
  "\<exists>pc. initialize_reference_quote_pool demo_runtime [demo_maker]
      \<lparr>ia_payer = demo_maker, ia_authority = demo_maker, ia_base_mint = demo_base_mint,
       ia_quote_mint = demo_quote_mint, ia_base_token_program = demo_program,
       ia_quote_token_program = demo_program, ia_pool_config = pool_key\<rparr> demo_pool_args demo_world0
      = Ok (demo_world0\<lparr>wd_pools := [pool_key \<mapsto> pc]\<rparr>)
    \<and> pool_params pc = args_to_params (ip_params demo_pool_args)"
proof -
  let ?acc = "\<lparr>ia_payer = demo_maker, ia_authority = demo_maker, ia_base_mint = demo_base_mint,
       ia_quote_mint = demo_quote_mint, ia_base_token_program = demo_program,
       ia_quote_token_program = demo_program, ia_pool_config = pool_key\<rparr>"
  let ?m = "\<lambda>d. \<lparr>mi_decimals = d, mi_program = demo_program, mi_transfer_fee_config = False\<rparr>"
  have ready: "pool_ready demo_runtime [demo_maker] ?acc demo_world0 (?m 9) (?m 6) 255"
    by (simp add: pool_ready_def unused_def reject_unsupported_token_extensions_def pool_seeds_def)
      (simp add: demo_runtime_def demo_worlds demo_keys)
  have wf: "keys_wf (InitializePool ?acc demo_pool_args)" by (simp add: is_pubkey_def demo_keys)
  have strategy: "args_strategy_config demo_pool_args
      = Ok \<lparr>st_params = example_params, st_quote_update_envelope = example_envelope\<rparr>" by (rule demo_args)
  have ok: "input_ok (pool_input ?acc demo_pool_args \<lparr>st_params = example_params,
      st_quote_update_envelope = example_envelope\<rparr> (?m 9) (?m 6))"
    using example_input_ok by (simp add: example_input_def input_ok_def example_pair_def pool_input_def demo_args)
  have "wd_pools demo_world0 = Map.empty" by (simp add: demo_world0_def empty_world_def)
  with pool_creation_exact[OF ready wf] show ?thesis unfolding strategy by (auto simp: ok)
qed

section \<open>A publisher is never locked out\<close>

text \<open>
  What \<open>find_program_address\<close> guarantees: the address it returns is the one that
  \<open>create_program_address\<close> makes of the seeds and the bump.
\<close>

definition derivation_consistent :: "runtime \<Rightarrow> bool" where
  "derivation_consistent rt \<longleftrightarrow> (\<forall>seeds. seeds \<noteq> [] \<longrightarrow> rt_create_address rt (seeds @ [[snd (rt_find_address rt seeds)]])
     = Some (fst (rt_find_address rt seeds)))"

lemma create_found:
  "derivation_consistent rt \<Longrightarrow> seeds \<noteq> [] \<Longrightarrow> rt_find_address rt seeds = (k, b) \<Longrightarrow>
    rt_create_address rt (seeds @ [[b]]) = Some k"
  unfolding derivation_consistent_def by (metis fst_conv snd_conv)

text \<open>Pools and quotes lie at their derived addresses, with the bumps they store.\<close>

definition derived :: "runtime \<Rightarrow> world \<Rightarrow> bool" where
  "derived rt w \<longleftrightarrow>
     (\<forall>k pc. wd_pools w k = Some pc \<longrightarrow>
        rt_find_address rt (pool_seeds (pc_authority pc) (pc_base_mint pc) (pc_quote_mint pc)) = (k, pc_bump pc))
   \<and> (\<forall>k qs. wd_quotes w k = Some qs \<longrightarrow>
        rt_find_address rt [QUOTE_STATE_SEED, qs_pool_config qs] = (k, qs_bump qs))"

lemma derived_pool:
  "derived rt w \<Longrightarrow> rt_find_address rt (pool_seeds (pc_authority pc) (pc_base_mint pc) (pc_quote_mint pc)) = (k, pc_bump pc) \<Longrightarrow>
    derived rt (w\<lparr>wd_pools := (wd_pools w)(k \<mapsto> pc)\<rparr>)"
  by (simp add: derived_def)

lemma derived_quote:
  "derived rt w \<Longrightarrow> rt_find_address rt [QUOTE_STATE_SEED, qs_pool_config qs] = (k, qs_bump qs) \<Longrightarrow>
    derived rt (w\<lparr>wd_quotes := (wd_quotes w)(k \<mapsto> qs)\<rparr>)"
  by (simp add: derived_def)

lemma derived_same: "derived rt w \<Longrightarrow> wd_pools w' = wd_pools w \<Longrightarrow> wd_quotes w' = wd_quotes w \<Longrightarrow> derived rt w'"
  by (simp add: derived_def)

lemma initialize_state_found:
  assumes "initialize_reference_quote_state rt signers acc qa w = Ok w'"
  obtains qs where "rt_find_address rt [QUOTE_STATE_SEED, qs_pool_config qs] = (aa_target acc, qs_bump qs)"
    and "w' = w\<lparr>wd_quotes := (wd_quotes w)(aa_target acc \<mapsto> qs)\<rparr>"
proof -
  let ?found = "rt_find_address rt [QUOTE_STATE_SEED, aa_pool_config acc]"
  from assms obtain pc order where "fst ?found = aa_target acc"
    and "w' = w\<lparr>wd_quotes := (wd_quotes w)(aa_target acc \<mapsto>
      set_base_half_spread_bps (base_half_spread_bps (pool_params pc))
      \<lparr>qs_pool_config = aa_pool_config acc, qs_quote_authority = qa, qs_bump = snd ?found,
       qs_paused = False, qs_same_slot_order = order, qs_padding = replicate 5 0,
       qs_mid_price_q64x64 = 0, qs_publish_slot = 0, qs_sequence = 0, qs_last_update_slot = 0\<rparr>)\<rparr>"
      (is "_ = w\<lparr>wd_quotes := _(_ \<mapsto> ?qs)\<rparr>")
    by (auto simp: initialize_reference_quote_state_def and_then_eq_Ok check_found_def Let_def)
  then show thesis by (intro that[of ?qs]) (simp_all add: prod_eq_iff)
qed

lemma update_derived:
  assumes "derived rt w" "load_update rt signers acc w = Ok (pc, qs)"
    and "qs_pool_config qs' = qs_pool_config qs" "qs_bump qs' = qs_bump qs"
  shows "derived rt (w\<lparr>wd_quotes := (wd_quotes w)(up_quote_state acc \<mapsto> qs')\<rparr>)"
proof -
  have "wd_quotes w (up_quote_state acc) = Some qs" using assms(2) by (simp add: load_simps)
  then have "rt_find_address rt [QUOTE_STATE_SEED, qs_pool_config qs] = (up_quote_state acc, qs_bump qs)"
    using assms(1) unfolding derived_def by blast
  then show ?thesis by (intro derived_quote[OF assms(1)]) (simp add: assms(3,4))
qed

lemma exec_derived:
  assumes ex: "execute rt signers slot ix w = Ok w'" and inv: "derived rt w"
  shows "derived rt w'"
proof (cases ix)
  case (InitializePool acc args)
  with ex initialize_pool_Ok(2)[of rt signers acc args w w'] show ?thesis
    by (auto simp: execute_simps intro!: derived_pool[OF inv])
next
  case (PausePool acc flag)
  with ex obtain pc where pc: "wd_pools w (aa_pool_config acc) = Some pc"
    and w': "w' = w\<lparr>wd_pools := (wd_pools w)(aa_pool_config acc \<mapsto> pc\<lparr>pc_paused := flag\<rparr>)\<rparr>"
    by (auto simp: execute_simps pause_Ok load_simps)
  from pc inv have "rt_find_address rt (pool_seeds (pc_authority pc) (pc_base_mint pc) (pc_quote_mint pc))
      = (aa_pool_config acc, pc_bump pc)" unfolding derived_def by blast
  then show ?thesis unfolding w' by (intro derived_pool[OF inv]) simp
next
  case (InitializeQuoteState acc qa)
  with ex have "initialize_reference_quote_state rt signers acc qa w = Ok w'" by (simp add: execute_simps)
  then obtain qs where "rt_find_address rt [QUOTE_STATE_SEED, qs_pool_config qs] = (aa_target acc, qs_bump qs)"
    and "w' = w\<lparr>wd_quotes := (wd_quotes w)(aa_target acc \<mapsto> qs)\<rparr>" by (rule initialize_state_found)
  then show ?thesis using derived_quote[OF inv] by simp
next
  case (UpdateQuote acc args)
  with ex obtain pc qs qs' where "load_update rt signers acc w = Ok (pc, qs)"
    and "apply_update qs (pc_authority pc) (up_quote_signer acc) args slot = Ok qs'"
    and "w' = w\<lparr>wd_quotes := (wd_quotes w)(up_quote_state acc \<mapsto> qs')\<rparr>"
    using update_Ok[of rt signers acc args slot w w'] by (auto simp: execute_simps)
  with update_derived[OF inv] show ?thesis by (simp add: apply_update_keeps)
next
  case (UpdateQuoteV2 acc args)
  with ex obtain pc qs qs' where "load_update rt signers acc w = Ok (pc, qs)"
    and "apply_update qs (pc_authority pc) (up_quote_signer acc) (to_legacy_args args) slot = Ok qs'"
    and "w' = w\<lparr>wd_quotes := (wd_quotes w)(up_quote_state acc \<mapsto>
        set_base_half_spread_bps (u2_base_half_spread_bps args) qs')\<rparr>"
    using update_v2_Ok[of rt signers acc args slot w w'] by (auto simp: execute_simps)
  with update_derived[OF inv] show ?thesis by (simp add: apply_update_keeps)
qed (use exec_frame(1,2)[OF ex] derived_same[OF inv] in auto)

lemma reachable_derived: "reachable rt c \<Longrightarrow> derived rt (ch_world c)"
proof (induction rule: reachable.induct)
  case (start c)
  then show ?case by (simp add: derived_def empty_world_def)
next
  case (step c c')
  from step(2) show ?case
  proof (cases rule: chain_step.cases)
    case (executed ix slot signers w')
    with exec_derived[OF executed(4) step.IH] show ?thesis by simp
  next
    case environment
    then show ?thesis using derived_same[OF step.IH] by simp
  qed (use step.IH in simp)
qed

text \<open>
  C13: on a runtime whose address derivation is consistent, the holder of a pool's authority or of
  its quote authority can refresh the quote in every reachable state, whatever happened before and
  whether or not the pool is paused: any positive price with a larger sequence number, published in
  the current slot, is accepted, becomes the stored quote, and is of age zero to a swap in that
  slot.
\<close>

theorem publisher_never_locked_out:
  assumes "derivation_consistent rt" "reachable rt c" "ch_slot c \<le> slot"
    and pool: "wd_pools (ch_world c) p = Some pc" and quote: "wd_quotes (ch_world c) q = Some qs" "qs_pool_config qs = p"
    and who: "signer \<in> set signers" "signer = pc_authority pc \<or> signer = qs_quote_authority qs"
    and what: "0 < price" "qs_sequence qs < sequence"
  shows "\<exists>qs'. execute rt signers slot (UpdateQuote \<lparr>up_quote_signer = signer, up_pool_config = p, up_quote_state = q\<rparr>
        \<lparr>ua_mid_price_q64x64 = price, ua_publish_slot = slot, ua_sequence = sequence\<rparr>) (ch_world c)
      = Ok ((ch_world c)\<lparr>wd_quotes := (wd_quotes (ch_world c))(q \<mapsto> qs')\<rparr>)
    \<and> qs_mid_price_q64x64 qs' = price \<and> qs_sequence qs' = sequence
    \<and> (\<forall>ld. quote_age (swap_state pc qs' ld slot) = 0)"
proof -
  let ?w = "ch_world c"
  let ?acc = "\<lparr>up_quote_signer = signer, up_pool_config = p, up_quote_state = q\<rparr>"
  let ?args = "\<lparr>ua_mid_price_q64x64 = price, ua_publish_slot = slot, ua_sequence = sequence\<rparr>"
  let ?new = "qs\<lparr>qs_mid_price_q64x64 := price, qs_publish_slot := slot, qs_sequence := sequence, qs_last_update_slot := slot\<rparr>"
  note found = reachable_derived[OF assms(2), unfolded derived_def]
  have "rt_create_address rt (pool_seeds (pc_authority pc) (pc_base_mint pc) (pc_quote_mint pc) @ [[pc_bump pc]]) = Some p"
    using found pool assms(1) create_found[of rt "pool_seeds (pc_authority pc) (pc_base_mint pc) (pc_quote_mint pc)"]
    by (simp add: pool_seeds_def)
  moreover have "rt_create_address rt ([QUOTE_STATE_SEED, p] @ [[qs_bump qs]]) = Some q"
    using found quote assms(1) create_found[of rt "[QUOTE_STATE_SEED, p]"] by blast
  ultimately have ld: "load_update rt signers ?acc ?w = Ok (pc, qs)"
    using pool quote who(1) by (simp add: load_simps)
  note inv = reachable_world_inv[OF assms(2), unfolded world_inv_def]
  have "pool_inv pc" "quote_inv (ch_slot c) ?w qs" using inv pool quote by blast+
  then have order: "pool_same_slot_order pc = Ok (qs_same_slot_order qs)" and old: "qs_publish_slot qs \<le> slot"
    using pool quote(2) assms(3) by (auto simp: quote_inv_def pool_inv_def pool_same_slot_order_Ok)
  have "apply_update qs (pc_authority pc) signer ?args slot = Ok ?new"
    using who(2) what old by (simp add: apply_update_Ok)
  with ld order have "update_reference_quote rt signers ?acc ?args slot ?w
      = Ok (?w\<lparr>wd_quotes := (wd_quotes ?w)(q \<mapsto> ?new)\<rparr>)"
    by (simp add: update_reference_quote_def)
  then show ?thesis
    by (intro exI[of _ ?new]) (simp add: execute_simps quote_age_def swap_state_def)
qed

theorem publisher_never_locked_out_witness:
  "\<exists>qs'. execute demo_runtime [demo_publisher] 120
      (UpdateQuote \<lparr>up_quote_signer = demo_publisher, up_pool_config = pool_key, up_quote_state = quote_key\<rparr>
        \<lparr>ua_mid_price_q64x64 = 7, ua_publish_slot = 120, ua_sequence = 2\<rparr>) demo_world5
      = Ok (demo_world5\<lparr>wd_quotes := [quote_key \<mapsto> qs']\<rparr>) \<and> qs_sequence qs' = 2"
proof -
  have c: "derivation_consistent demo_runtime"
    by (simp add: derivation_consistent_def demo_runtime_def demo_key_def)
  have w: "wd_pools demo_world5 pool_key = Some demo_pool" "wd_quotes demo_world5 quote_key = Some demo_published"
    "wd_quotes demo_world5 = [quote_key \<mapsto> demo_published]"
    "qs_pool_config demo_published = pool_key" "qs_quote_authority demo_published = demo_publisher"
    "qs_sequence demo_published = 1"
    by (simp_all add: demo_world5_def demo_published_def demo_quote_def)
  show ?thesis
    using publisher_never_locked_out[OF c demo_reachable, of 120 pool_key demo_pool quote_key demo_published
        demo_publisher "[demo_publisher]" 7 2] w
    by auto
qed

end
