(* ===== verification/Program_Ledger.thy ===== *)
theory Program_Ledger imports Program_Settlement begin

text \<open>
  The custody of the vaults along any sequence of transactions: no vault is shared, none is owned
  by a signer, and what a vault holds is what was funded and paid in less what was paid out.
\<close>

section \<open>Ledgers\<close>

text \<open>
  A run of labelled steps, and the contract of a ledger: every step changes the amount booked
  under a key by the flow its label names.
\<close>

primrec steps :: "('e \<Rightarrow> 'w \<Rightarrow> 'w \<Rightarrow> bool) \<Rightarrow> 'e list \<Rightarrow> 'w \<Rightarrow> 'w \<Rightarrow> bool" where
  "steps step [] w w' \<longleftrightarrow> w' = w"
| "steps step (e # es) w w' \<longleftrightarrow> (\<exists>w1. step e w w1 \<and> steps step es w1 w')"

locale ledger =
  fixes inv :: "'w \<Rightarrow> bool" and step :: "'e \<Rightarrow> 'w \<Rightarrow> 'w \<Rightarrow> bool"
    and amount :: "'w \<Rightarrow> 'k \<Rightarrow> int" and flow :: "'k \<Rightarrow> 'e \<Rightarrow> int"
  assumes step_inv: "inv w \<Longrightarrow> step e w w' \<Longrightarrow> inv w'"
    and step_amount: "inv w \<Longrightarrow> step e w w' \<Longrightarrow> amount w' k = amount w k + flow k e"
begin

lemma run_amount:
  "steps step es w w' \<Longrightarrow> inv w \<Longrightarrow> inv w' \<and> amount w' k = amount w k + sum_list (map (flow k) es)"
proof (induction es arbitrary: w)
  case (Cons e es)
  then obtain w1 where e: "step e w w1" and es: "steps step es w1 w'" by auto
  have "inv w1" by (rule step_inv[OF Cons.prems(2) e])
  from Cons.IH[OF es this] step_amount[OF Cons.prems(2) e, of k] show ?case by simp
qed simp

end

section \<open>Transactions and what they move\<close>

record transaction =
  tx_signers :: "pubkey list"
  tx_slot :: u64
  tx_instruction :: instruction

text \<open>An accepted transaction, with the events it emitted.\<close>

record receipt =
  rc_transaction :: transaction
  rc_events :: "reference_swap_event list"

definition run_transaction :: "runtime \<Rightarrow> transaction \<Rightarrow> world \<Rightarrow> program_error + world" where
  "run_transaction rt tx w = execute rt (tx_signers tx) (tx_slot tx) (tx_instruction tx) w"

fun run_transactions :: "runtime \<Rightarrow> transaction list \<Rightarrow> world \<Rightarrow> receipt list \<times> world" where
  "run_transactions rt [] w = ([], w)"
| "run_transactions rt (tx # txs) w =
    (case run_transaction rt tx w of
       Err _ \<Rightarrow> run_transactions rt txs w
     | Ok w1 \<Rightarrow> (let (log, w') = run_transactions rt txs w1
                in (\<lparr>rc_transaction = tx, rc_events = drop (length (wd_events w)) (wd_events w1)\<rparr> # log, w')))"

definition paid_out :: "receipt \<Rightarrow> int" where
  "paid_out rc = sum_list (map (\<lambda>ev. int (unat (ev_amount_out ev))) (rc_events rc))"

definition base_flow :: "pubkey \<Rightarrow> receipt \<Rightarrow> int" where
  "base_flow k rc = (case tx_instruction (rc_transaction rc) of
     Fund acc args \<Rightarrow> if ac_vault_state acc = k then int (unat (fa_base_amount args)) else 0
   | Swap acc args \<Rightarrow> if ac_vault_state acc \<noteq> k then 0
       else if sw_base_to_quote args then int (unat (sw_amount_in args)) else - paid_out rc
   | _ \<Rightarrow> 0)"

definition quote_flow :: "pubkey \<Rightarrow> receipt \<Rightarrow> int" where
  "quote_flow k rc = (case tx_instruction (rc_transaction rc) of
     Fund acc args \<Rightarrow> if ac_vault_state acc = k then int (unat (fa_quote_amount args)) else 0
   | Swap acc args \<Rightarrow> if ac_vault_state acc \<noteq> k then 0
       else if sw_base_to_quote args then - paid_out rc else int (unat (sw_amount_in args))
   | _ \<Rightarrow> 0)"

section \<open>Custody\<close>

text \<open>The derived address that owns a pool's vaults.  No one can sign for it.\<close>

definition vault_owner :: "runtime \<Rightarrow> pubkey \<Rightarrow> pubkey" where
  "vault_owner rt pool = fst (rt_find_address rt [VAULT_AUTHORITY_SEED, pool])"

definition no_owner_signs :: "runtime \<Rightarrow> pubkey list \<Rightarrow> bool" where
  "no_owner_signs rt signers \<longleftrightarrow> (\<forall>pool. vault_owner rt pool \<notin> set signers)"

definition vault_accounts_of :: "vault_state \<Rightarrow> pubkey set" where
  "vault_accounts_of vs = {vs_base_vault vs, vs_quote_vault vs}"

definition owned_by :: "(pubkey \<Rightarrow> token_account option) \<Rightarrow> pubkey \<Rightarrow> pubkey \<Rightarrow> bool" where
  "owned_by tokens k owner \<longleftrightarrow> map_option ta_owner (tokens k) = Some owner"

definition in_custody :: "runtime \<Rightarrow> world \<Rightarrow> vault_state \<Rightarrow> bool" where
  "in_custody rt w vs \<longleftrightarrow> vs_base_vault vs \<noteq> vs_quote_vault vs
     \<and> (\<forall>k \<in> vault_accounts_of vs. owned_by (wd_tokens w) k (vault_owner rt (vs_pool_config vs)))"

definition custody_inv :: "runtime \<Rightarrow> world \<Rightarrow> bool" where
  "custody_inv rt w \<longleftrightarrow> (\<forall>k vs. wd_vaults w k = Some vs \<longrightarrow> in_custody rt w vs)
     \<and> (\<forall>k k' vs vs'. wd_vaults w k = Some vs \<longrightarrow> wd_vaults w k' = Some vs' \<longrightarrow> k \<noteq> k' \<longrightarrow>
          vault_accounts_of vs \<inter> vault_accounts_of vs' = {})"

lemma custodyD:
  assumes "custody_inv rt w" "wd_vaults w k = Some vs"
  shows "vs_base_vault vs \<noteq> vs_quote_vault vs"
    "owned_by (wd_tokens w) (vs_base_vault vs) (vault_owner rt (vs_pool_config vs))"
    "owned_by (wd_tokens w) (vs_quote_vault vs) (vault_owner rt (vs_pool_config vs))"
    "wd_vaults w k' = Some vs' \<Longrightarrow> k \<noteq> k' \<Longrightarrow> vault_accounts_of vs \<inter> vault_accounts_of vs' = {}"
  using assms by (auto simp: custody_inv_def in_custody_def vault_accounts_of_def)

text \<open>Owners never change, so custody only depends on the vault accounts themselves.\<close>

definition owners_kept :: "world \<Rightarrow> world \<Rightarrow> bool" where
  "owners_kept w w' \<longleftrightarrow> (\<forall>k owner. owned_by (wd_tokens w) k owner \<longrightarrow> owned_by (wd_tokens w') k owner)"

definition same_vaults :: "world \<Rightarrow> world \<Rightarrow> bool" where
  "same_vaults w w' \<longleftrightarrow> (\<forall>k. map_option (\<lambda>vs. (vs_pool_config vs, vs_base_vault vs, vs_quote_vault vs)) (wd_vaults w' k)
     = map_option (\<lambda>vs. (vs_pool_config vs, vs_base_vault vs, vs_quote_vault vs)) (wd_vaults w k))"

lemma same_vaultsD:
  assumes "same_vaults w w'" "wd_vaults w' k = Some vs'"
  obtains vs where "wd_vaults w k = Some vs" "vs_pool_config vs' = vs_pool_config vs"
    "vs_base_vault vs' = vs_base_vault vs" "vs_quote_vault vs' = vs_quote_vault vs"
  using assms unfolding same_vaults_def by (metis (mono_tags, lifting) map_option_eq_Some prod.inject)

lemma custody_kept:
  assumes "custody_inv rt w" "owners_kept w w'" "same_vaults w w'"
  shows "custody_inv rt w'"
  unfolding custody_inv_def
proof (intro conjI allI impI)
  fix k vs' assume "wd_vaults w' k = Some vs'"
  then obtain vs where "wd_vaults w k = Some vs" "vs_pool_config vs' = vs_pool_config vs"
    "vs_base_vault vs' = vs_base_vault vs" "vs_quote_vault vs' = vs_quote_vault vs"
    by (rule same_vaultsD[OF assms(3)])
  with custodyD(1-3)[OF assms(1) this(1)] assms(2) show "in_custody rt w' vs'"
    by (simp add: in_custody_def vault_accounts_of_def owners_kept_def)
next
  fix k1 k2 vs1 vs2 assume v: "wd_vaults w' k1 = Some vs1" "wd_vaults w' k2 = Some vs2" and ne: "k1 \<noteq> k2"
  obtain u1 where "wd_vaults w k1 = Some u1" "vault_accounts_of vs1 = vault_accounts_of u1"
    using same_vaultsD[OF assms(3) v(1)] by (metis vault_accounts_of_def)
  moreover obtain u2 where "wd_vaults w k2 = Some u2" "vault_accounts_of vs2 = vault_accounts_of u2"
    using same_vaultsD[OF assms(3) v(2)] by (metis vault_accounts_of_def)
  ultimately show "vault_accounts_of vs1 \<inter> vault_accounts_of vs2 = {}"
    using custodyD(4)[OF assms(1)] ne by metis
qed

text \<open>What a vault holds, by the key of its vault state.\<close>

definition base_held :: "world \<Rightarrow> pubkey \<Rightarrow> int" where
  "base_held w k = (case wd_vaults w k of None \<Rightarrow> 0 | Some vs \<Rightarrow> int (balance (wd_tokens w) (vs_base_vault vs)))"

definition quote_held :: "world \<Rightarrow> pubkey \<Rightarrow> int" where
  "quote_held w k = (case wd_vaults w k of None \<Rightarrow> 0 | Some vs \<Rightarrow> int (balance (wd_tokens w) (vs_quote_vault vs)))"

section \<open>What one transfer does\<close>

lemma transfer_effect:
  assumes "exact_transfers rt" "plain_mint rt mints (tr_program t) (tr_mint t)"
    and "rt_transfer rt t mints tokens = Some tokens'" "tr_from t \<noteq> tr_to t"
  shows "int (balance tokens' k) = int (balance tokens k) + (if k = tr_to t then int (unat (tr_amount t)) else 0)
      - (if k = tr_from t then int (unat (tr_amount t)) else 0)"
    and "owned_by tokens k owner \<Longrightarrow> owned_by tokens' k owner"
proof -
  note b = transfer_balances[OF assms]
  show "int (balance tokens' k) = int (balance tokens k) + (if k = tr_to t then int (unat (tr_amount t)) else 0)
      - (if k = tr_from t then int (unat (tr_amount t)) else 0)"
  proof -
    consider "k = tr_from t" | "k = tr_to t" | "k \<noteq> tr_from t" "k \<noteq> tr_to t" by blast
    then show ?thesis
    proof cases
      case 1
      have "int (balance tokens' (tr_from t)) = int (balance tokens (tr_from t)) - int (unat (tr_amount t))"
        using b(1) by linarith
      with 1 assms(4) show ?thesis by (simp)
    next
      case 2
      with b(2) assms(4) show ?thesis by simp
    next
      case 3
      with b(3)[of k] show ?thesis by (simp add: balance_def)
    qed
  qed
  show "owned_by tokens k owner \<Longrightarrow> owned_by tokens' k owner"
    using assms unfolding exact_transfers_def owned_by_def by fastforce
qed

lemma swap_effect:
  assumes exact: "exact_transfers rt" and t: "rt_transfer rt t1 mints tk = Some tk1" "rt_transfer rt t2 mints tk1 = Some tk2"
    and plain: "plain_mint rt mints (tr_program t1) (tr_mint t1)" "plain_mint rt mints (tr_program t2) (tr_mint t2)"
    and d: "tr_to t1 \<noteq> tr_from t2" "{tr_from t1, tr_to t2} \<inter> {tr_to t1, tr_from t2} = {}"
  shows "int (balance tk2 (tr_to t1)) = int (balance tk (tr_to t1)) + int (unat (tr_amount t1))"
    and "int (balance tk2 (tr_from t2)) = int (balance tk (tr_from t2)) - int (unat (tr_amount t2))"
    and "k \<notin> {tr_from t1, tr_to t1, tr_from t2, tr_to t2} \<Longrightarrow> balance tk2 k = balance tk k"
    and "owned_by tk k owner \<Longrightarrow> owned_by tk2 k owner"
proof -
  have ne: "tr_from t1 \<noteq> tr_to t1" "tr_from t2 \<noteq> tr_to t2" using d(2) by auto
  note e1 = transfer_effect[OF exact plain(1) t(1) ne(1)] and e2 = transfer_effect[OF exact plain(2) t(2) ne(2)]
  show "int (balance tk2 (tr_to t1)) = int (balance tk (tr_to t1)) + int (unat (tr_amount t1))"
    using e1(1)[of "tr_to t1"] e2(1)[of "tr_to t1"] d ne by simp
  show "int (balance tk2 (tr_from t2)) = int (balance tk (tr_from t2)) - int (unat (tr_amount t2))"
    using e1(1)[of "tr_from t2"] e2(1)[of "tr_from t2"] d ne by simp
  show "k \<notin> {tr_from t1, tr_to t1, tr_from t2, tr_to t2} \<Longrightarrow> balance tk2 k = balance tk k"
    using e1(1)[of k] e2(1)[of k] by simp
  show "owned_by tk k owner \<Longrightarrow> owned_by tk2 k owner" by (rule e2(2)[OF e1(2)])
qed

text \<open>
  The transfer between a user's account and a vault: no signer owns a vault, so of all vaults
  only the one named is touched.
\<close>

lemma user_not_vault:
  assumes "custody_inv rt w" "no_owner_signs rt signers" "wd_vaults w k = Some vs"
    and "load_token w mint user program key = Ok t" "user \<in> set signers"
  shows "key \<notin> vault_accounts_of vs"
  using custodyD(2,3)[OF assms(1,3)] assms(2,4,5)
  by (auto simp: load_simps vault_accounts_of_def owned_by_def no_owner_signs_def)

lemma vault_side_accounts:
  assumes ld: "load_vault_side rt w acc pc maker = Ok ld" and inv: "custody_inv rt w"
    and un: "no_owner_signs rt signers" "ac_user acc \<in> set signers"
  shows "ac_base_vault acc \<noteq> ac_quote_vault acc"
    "{ac_user_base acc, ac_user_quote acc} \<inter> {ac_base_vault acc, ac_quote_vault acc} = {}"
    "wd_vaults w (ac_vault_state acc) = Some (ld_vault ld)"
    "\<And>k vs. wd_vaults w k = Some vs \<Longrightarrow> k \<noteq> ac_vault_state acc \<Longrightarrow>
      vault_accounts_of vs \<inter> {ac_user_base acc, ac_user_quote acc, ac_base_vault acc, ac_quote_vault acc} = {}"
proof -
  note l = load_vault_side_Ok[OF ld]
  show v: "wd_vaults w (ac_vault_state acc) = Some (ld_vault ld)" using l(1) by (simp add: load_simps)
  note c = custodyD[OF inv v]
  have ks: "vault_accounts_of (ld_vault ld) = {ac_base_vault acc, ac_quote_vault acc}"
    using l(9,10) by (simp add: vault_accounts_of_def)
  have user: "{ac_user_base acc, ac_user_quote acc} \<inter> vault_accounts_of vs = {}" if "wd_vaults w k = Some vs" for k vs
    using user_not_vault[OF inv un(1) that _ un(2)] l(5,6) by blast
  show "ac_base_vault acc \<noteq> ac_quote_vault acc" using c(1) l(9,10) by simp
  show "{ac_user_base acc, ac_user_quote acc} \<inter> {ac_base_vault acc, ac_quote_vault acc} = {}"
    using user[OF v] ks by simp
  show "vault_accounts_of vs \<inter> {ac_user_base acc, ac_user_quote acc, ac_base_vault acc, ac_quote_vault acc} = {}"
    if "wd_vaults w k = Some vs" "k \<noteq> ac_vault_state acc" for k vs
    using user[OF that(1)] c(4)[OF that(1)] that(2) ks by blast
qed

section \<open>What each instruction does to the vaults\<close>

text \<open>The frame and the flows of one accepted transaction.\<close>

definition booked :: "runtime \<Rightarrow> receipt \<Rightarrow> world \<Rightarrow> world \<Rightarrow> bool" where
  "booked rt rc w w' \<longleftrightarrow> custody_inv rt w'
     \<and> (\<forall>k. base_held w' k = base_held w k + base_flow k rc \<and> quote_held w' k = quote_held w k + quote_flow k rc)"

text \<open>
  An instruction that moves tokens between a user and one vault: it keeps custody, and books its
  two flows under that vault.
\<close>

lemma side_booked:
  assumes inv: "custody_inv rt w" and un: "no_owner_signs rt signers" "ac_user acc \<in> set signers"
    and ld: "load_vault_side rt w acc pc maker = Ok ld"
    and vaults: "same_vaults w w'"
    and owners: "\<And>k owner. owned_by (wd_tokens w) k owner \<Longrightarrow> owned_by (wd_tokens w') k owner"
    and frame: "\<And>k. k \<notin> {ac_user_base acc, ac_user_quote acc, ac_base_vault acc, ac_quote_vault acc} \<Longrightarrow>
        balance (wd_tokens w') k = balance (wd_tokens w) k"
    and moved: "int (balance (wd_tokens w') (ac_base_vault acc)) = int (balance (wd_tokens w) (ac_base_vault acc)) + fb"
      "int (balance (wd_tokens w') (ac_quote_vault acc)) = int (balance (wd_tokens w) (ac_quote_vault acc)) + fq"
    and flows: "\<And>k. base_flow k rc = (if ac_vault_state acc = k then fb else 0)"
      "\<And>k. quote_flow k rc = (if ac_vault_state acc = k then fq else 0)"
  shows "booked rt rc w w'"
proof -
  note acc = vault_side_accounts[OF ld inv un]
  have "base_held w' k = base_held w k + base_flow k rc \<and> quote_held w' k = quote_held w k + quote_flow k rc" for k
  proof (cases "wd_vaults w' k")
    case None
    then have "wd_vaults w k = None" using vaults[unfolded same_vaults_def, rule_format, of k] by simp
    moreover from this have "k \<noteq> ac_vault_state acc" using acc(3) by auto
    ultimately show ?thesis using None flows by (simp add: base_held_def quote_held_def)
  next
    case (Some vs')
    then obtain vs where vs: "wd_vaults w k = Some vs" and same: "vs_base_vault vs' = vs_base_vault vs"
      "vs_quote_vault vs' = vs_quote_vault vs"
      using same_vaultsD[OF vaults Some] by metis
    show ?thesis
    proof (cases "k = ac_vault_state acc")
      case True
      then show ?thesis using acc(3) vs same Some moved flows load_vault_side_Ok(9,10)[OF ld]
        by (simp add: base_held_def quote_held_def)
    next
      case False
      have "balance (wd_tokens w') k' = balance (wd_tokens w) k'" if "k' \<in> vault_accounts_of vs" for k'
        using acc(4)[OF vs False] that by (intro frame) blast
      then show ?thesis using vs same Some False flows
        by (simp add: base_held_def quote_held_def vault_accounts_of_def)
    qed
  qed
  moreover have "custody_inv rt w'"
    by (rule custody_kept[OF inv _ vaults]) (simp add: owners_kept_def owners)
  ultimately show ?thesis by (simp add: booked_def)
qed

lemma swap_booked:
  assumes exact: "exact_transfers rt" and inv: "custody_inv rt w" and un: "no_owner_signs rt signers"
    and run: "swap_exact_in rt signers acc args now w = Ok w'"
    and rc: "tx_instruction (rc_transaction rc) = Swap acc args" "rc_events rc = drop (length (wd_events w)) (wd_events w')"
  shows "booked rt rc w w'"
proof -
  obtain pc qs ld q tokens where ck: "swap_checks rt signers acc args now w = Ok (pc, qs, ld)"
    and tr: "swap_transfers rt (wd_mints w) acc ld args (rq_amount_out q) (wd_tokens w) tokens"
    and w': "w' = w\<lparr>wd_tokens := tokens, wd_events := wd_events w @ [swap_event acc args qs now q]\<rparr>"
    using swap_Ok[OF run, folded swap_transfers_def] by - (elim exE conjE, rule that, assumption+)
  note facts = swap_checks_Ok[OF ck] and plain = plain_mintsD[OF swap_checks_plain[OF ck]]
  note acc = vault_side_accounts[OF facts(4) inv un facts(1)]
  let ?in = "int (unat (sw_amount_in args))" and ?out = "int (unat (rq_amount_out q))"
  have paid: "paid_out rc = ?out" by (simp add: paid_out_def rc(2) w' swap_event_def)
  show ?thesis
  proof (cases "sw_base_to_quote args")
    case True
    with tr obtain t1 where t: "rt_transfer rt (base_transfer acc ld (ac_user_base acc) (ac_base_vault acc)
              (ac_user acc) (sw_amount_in args)) (wd_mints w) (wd_tokens w) = Some t1"
      "rt_transfer rt (quote_transfer acc ld (ac_quote_vault acc) (ac_user_quote acc)
              (ac_vault_authority acc) (rq_amount_out q)) (wd_mints w) t1 = Some tokens"
      by (auto simp: swap_transfers_def)
    note e = swap_effect[OF exact t, unfolded base_transfer_def quote_transfer_def, simplified, OF plain]
    show ?thesis
      by (rule side_booked[OF inv un facts(1) facts(4), where fb = ?in and fq = "- ?out"])
        (use e acc(1,2) True in \<open>simp_all add: w' same_vaults_def base_flow_def quote_flow_def rc(1) paid\<close>)
  next
    case False
    with tr obtain t1 where t: "rt_transfer rt (quote_transfer acc ld (ac_user_quote acc) (ac_quote_vault acc)
              (ac_user acc) (sw_amount_in args)) (wd_mints w) (wd_tokens w) = Some t1"
      "rt_transfer rt (base_transfer acc ld (ac_base_vault acc) (ac_user_base acc)
              (ac_vault_authority acc) (rq_amount_out q)) (wd_mints w) t1 = Some tokens"
      by (auto simp: swap_transfers_def)
    note e = swap_effect[OF exact t, unfolded base_transfer_def quote_transfer_def, simplified, OF plain(2,1)]
    show ?thesis
      by (rule side_booked[OF inv un facts(1) facts(4), where fb = "- ?out" and fq = ?in])
        (use e acc(1,2) False in \<open>auto simp: w' same_vaults_def base_flow_def quote_flow_def rc(1) paid\<close>)
  qed
qed

text \<open>The two transfers of a funding, each made only when its amount is positive.\<close>

lemma fund_transfer_effect:
  assumes exact: "exact_transfers rt" and ne: "tr_from t \<noteq> tr_to t"
    and plain: "plain_mint rt (wd_mints w) (tr_program t) (tr_mint t)"
    and step: "(if 0 < tr_amount t then transfer_checked rt t w else Ok w) = Ok w1"
  shows "int (balance (wd_tokens w1) k) = int (balance (wd_tokens w) k)
      + (if k = tr_to t then int (unat (tr_amount t)) else 0)
      - (if k = tr_from t then int (unat (tr_amount t)) else 0)"
    and "owned_by (wd_tokens w) k owner \<Longrightarrow> owned_by (wd_tokens w1) k owner"
    and "same_but_tokens w w1"
proof -
  have *: "int (balance (wd_tokens w1) k) = int (balance (wd_tokens w) k)
      + (if k = tr_to t then int (unat (tr_amount t)) else 0)
      - (if k = tr_from t then int (unat (tr_amount t)) else 0)
    \<and> (owned_by (wd_tokens w) k owner \<longrightarrow> owned_by (wd_tokens w1) k owner)"
  proof (cases "0 < tr_amount t")
    case True
    with step obtain tokens where tokens: "rt_transfer rt t (wd_mints w) (wd_tokens w) = Some tokens"
      and w1: "w1 = w\<lparr>wd_tokens := tokens\<rparr>" by (auto simp: transfer_checked_Ok)
    then show ?thesis
      using transfer_effect(1)[OF exact plain tokens ne, of k] transfer_effect(2)[OF exact plain tokens ne, of k owner] by simp
  next
    case False
    then have "tr_amount t = 0" "w1 = w" using step by (simp_all add: word_gt_0)
    then show ?thesis by simp
  qed
  show "int (balance (wd_tokens w1) k) = int (balance (wd_tokens w) k)
      + (if k = tr_to t then int (unat (tr_amount t)) else 0)
      - (if k = tr_from t then int (unat (tr_amount t)) else 0)" by (rule conjunct1[OF *])
  show "owned_by (wd_tokens w) k owner \<Longrightarrow> owned_by (wd_tokens w1) k owner"
    by (rule mp[OF conjunct2[OF *]])
  show "same_but_tokens w w1" using step by (auto split: if_splits dest: transfer_frame)
qed

lemma fund_booked:
  assumes exact: "exact_transfers rt" and inv: "custody_inv rt w" and un: "no_owner_signs rt signers"
    and run: "fund_pool rt signers acc args w = Ok w'" and rc: "tx_instruction (rc_transaction rc) = Fund acc args"
  shows "booked rt rc w w'"
proof -
  obtain pc ld w1 w2 vs where pc: "authorized_pool rt signers w (ac_user acc) (ac_pool_config acc) = Ok pc"
    and ld: "load_vault_side rt w acc pc (ac_user acc) = Ok ld"
    and mints: "plain_mints rt (wd_mints w) acc" "wd_mints w1 = wd_mints w"
    and w1: "(if 0 < fa_base_amount args
       then transfer_checked rt (base_transfer acc ld (ac_user_base acc) (ac_base_vault acc)
              (ac_user acc) (fa_base_amount args)) w else Ok w) = Ok w1"
    and w2: "(if 0 < fa_quote_amount args
       then transfer_checked rt (quote_transfer acc ld (ac_user_quote acc) (ac_quote_vault acc)
              (ac_user acc) (fa_quote_amount args)) w1 else Ok w1) = Ok w2"
    and vs: "apply_base_funding_to_target (ld_vault ld) (ta_amount (ld_base_vault ld)) (fa_base_amount args) = Ok vs"
    and w': "w' = w2\<lparr>wd_vaults := (wd_vaults w2)(ac_vault_state acc \<mapsto> vs)\<rparr>"
    by (rule fund_steps[OF run])
  have user: "ac_user acc \<in> set signers" using pc by (simp add: load_simps)
  note acc = vault_side_accounts[OF ld inv un user]
  have ne: "ac_user_base acc \<noteq> ac_base_vault acc" "ac_user_quote acc \<noteq> ac_quote_vault acc" using acc(2) by auto
  have plain: "plain_mint rt (wd_mints w) (ac_base_token_program acc) (ac_base_mint acc)"
    "plain_mint rt (wd_mints w1) (ac_quote_token_program acc) (ac_quote_mint acc)"
    using plain_mintsD[OF mints(1)] by (simp_all add: mints(2))
  note e1 = fund_transfer_effect[OF exact, of "base_transfer acc ld (ac_user_base acc) (ac_base_vault acc)
    (ac_user acc) (fa_base_amount args)", unfolded base_transfer_def, simplified, OF ne(1) plain(1) w1[unfolded base_transfer_def]]
  note e2 = fund_transfer_effect[OF exact, of "quote_transfer acc ld (ac_user_quote acc) (ac_quote_vault acc)
    (ac_user acc) (fa_quote_amount args)", unfolded quote_transfer_def, simplified, OF ne(2) plain(2) w2[unfolded quote_transfer_def]]
  have "wd_vaults w2 = wd_vaults w" using e1(3) e2(3) by (auto dest!: same_but_tokensD)
  moreover have "vs_pool_config vs = vs_pool_config (ld_vault ld)" "vs_base_vault vs = vs_base_vault (ld_vault ld)"
    "vs_quote_vault vs = vs_quote_vault (ld_vault ld)"
    using vs by (auto simp: apply_base_funding_to_target_def and_then_eq_Ok split: if_splits)
  ultimately have same: "same_vaults w w'" using acc(3) by (simp add: same_vaults_def w')
  have b: "int (balance (wd_tokens w') k) = int (balance (wd_tokens w) k)
      + (if k = ac_base_vault acc then int (unat (fa_base_amount args)) else 0)
      - (if k = ac_user_base acc then int (unat (fa_base_amount args)) else 0)
      + (if k = ac_quote_vault acc then int (unat (fa_quote_amount args)) else 0)
      - (if k = ac_user_quote acc then int (unat (fa_quote_amount args)) else 0)" for k
    using e1(1)[of k] e2(1)[of k] by (simp add: w')
  have distinct: "ac_base_vault acc \<noteq> ac_user_base acc" "ac_base_vault acc \<noteq> ac_user_quote acc"
    "ac_quote_vault acc \<noteq> ac_user_base acc" "ac_quote_vault acc \<noteq> ac_user_quote acc" using acc(2) by auto
  show ?thesis
  proof (rule side_booked[OF inv un user ld same, where fb = "int (unat (fa_base_amount args))"
          and fq = "int (unat (fa_quote_amount args))"])
    show "owned_by (wd_tokens w) k owner \<Longrightarrow> owned_by (wd_tokens w') k owner" for k owner
      using e1(2) e2(2) by (simp add: w')
    show "k \<notin> {ac_user_base acc, ac_user_quote acc, ac_base_vault acc, ac_quote_vault acc} \<Longrightarrow>
        balance (wd_tokens w') k = balance (wd_tokens w) k" for k
      using b[of k] by simp
  qed (use b[of "ac_base_vault acc"] b[of "ac_quote_vault acc"] distinct acc(1) in
      \<open>simp_all add: base_flow_def quote_flow_def rc\<close>)
qed

text \<open>Two fresh, empty token accounts of the derived owner.\<close>

lemma initialize_vaults_tokens:
  assumes "initialize_maker_vaults rt signers acc w = Ok w'"
  obtains vs tb tq where "unused w (va_vault_state acc)"
    and "vs_pool_config vs = va_pool_config acc" "vs_base_vault vs = va_base_vault acc"
    and "vs_quote_vault vs = va_quote_vault acc" "va_base_vault acc \<noteq> va_quote_vault acc"
    and "wd_tokens w (va_base_vault acc) = None" "wd_tokens w (va_quote_vault acc) = None"
    and "ta_owner tb = vault_owner rt (va_pool_config acc)" "ta_owner tq = vault_owner rt (va_pool_config acc)"
    and "ta_amount tb = 0" "ta_amount tq = 0"
    and "w' = w\<lparr>wd_vaults := (wd_vaults w)(va_vault_state acc \<mapsto> vs),
      wd_tokens := (wd_tokens w)(va_base_vault acc \<mapsto> tb, va_quote_vault acc \<mapsto> tq)\<rparr>"
proof -
  obtain pc ab bump u w2 where "authorized_pool rt signers w (va_authority acc) (va_pool_config acc) = Ok pc"
    and owner: "check_found rt [VAULT_AUTHORITY_SEED, va_pool_config acc] (va_vault_authority acc) = Ok ab"
    and un: "check_unused w (va_vault_state acc) = Ok u"
    and w2: "init_token (va_base_vault acc) (va_base_mint acc) (va_vault_authority acc)
      (va_base_token_program acc) (w\<lparr>wd_vaults := (wd_vaults w)(va_vault_state acc \<mapsto>
        \<lparr>vs_pool_config = va_pool_config acc, vs_maker_authority = pc_authority pc,
       vs_base_vault = va_base_vault acc, vs_quote_vault = va_quote_vault acc,
       vs_base_mint = va_base_mint acc, vs_quote_mint = va_quote_mint acc,
       vs_vault_authority_bump = ab, vs_bump = bump,
       vs_custody_model = CUSTODY_MODEL_MAKER_OWNED, vs_paused = False,
       vs_padding = replicate 4 0, vs_target_base_inventory = 0, vs_reserved = replicate 32 0\<rparr>)\<rparr>) = Ok w2"
    (is "init_token _ _ _ _ (w\<lparr>wd_vaults := (wd_vaults w)(_ \<mapsto> ?vs)\<rparr>) = _")
    and w3: "init_token (va_quote_vault acc) (va_quote_mint acc) (va_vault_authority acc)
      (va_quote_token_program acc) w2 = Ok w'"
    using assms
    unfolding initialize_maker_vaults_def Let_def and_then_eq_Ok
    by - (elim exE conjE, rule that, assumption+, simp)
  have o: "va_vault_authority acc = vault_owner rt (va_pool_config acc)"
    using owner by (auto simp: check_found_def and_then_eq_Ok vault_owner_def)
  let ?tok = "\<lambda>mint prog. \<lparr>ta_mint = mint, ta_owner = va_vault_authority acc, ta_program = prog, ta_amount = 0\<rparr>"
  from w2 have b: "wd_tokens w (va_base_vault acc) = None"
    and w2': "w2 = w\<lparr>wd_vaults := (wd_vaults w)(va_vault_state acc \<mapsto> ?vs),
      wd_tokens := (wd_tokens w)(va_base_vault acc \<mapsto> ?tok (va_base_mint acc) (va_base_token_program acc))\<rparr>"
    by (auto simp: init_token_def and_then_eq_Ok check_unused_def unused_def)
  from w3 have q: "wd_tokens w2 (va_quote_vault acc) = None"
    and w': "w' = w2\<lparr>wd_tokens := (wd_tokens w2)(va_quote_vault acc \<mapsto> ?tok (va_quote_mint acc) (va_quote_token_program acc))\<rparr>"
    by (auto simp: init_token_def and_then_eq_Ok check_unused_def unused_def)
  have ne: "va_base_vault acc \<noteq> va_quote_vault acc" "wd_tokens w (va_quote_vault acc) = None"
    using q by (auto simp: w2' split: if_splits)
  show thesis
    by (rule that[of ?vs "?tok (va_base_mint acc) (va_base_token_program acc)"
          "?tok (va_quote_mint acc) (va_quote_token_program acc)"])
      (use un b ne o in \<open>simp_all add: check_unused_def w' w2'\<close>)
qed

lemma initialize_vaults_booked:
  assumes inv: "custody_inv rt w" and run: "initialize_maker_vaults rt signers acc w = Ok w'"
    and rc: "tx_instruction (rc_transaction rc) = InitializeVaults acc"
  shows "booked rt rc w w'"
proof -
  obtain vs tb tq where un: "unused w (va_vault_state acc)" and vs: "vs_pool_config vs = va_pool_config acc"
    "vs_base_vault vs = va_base_vault acc" "vs_quote_vault vs = va_quote_vault acc"
    and ne: "va_base_vault acc \<noteq> va_quote_vault acc"
    and none: "wd_tokens w (va_base_vault acc) = None" "wd_tokens w (va_quote_vault acc) = None"
    and own: "ta_owner tb = vault_owner rt (va_pool_config acc)" "ta_owner tq = vault_owner rt (va_pool_config acc)"
    and zero: "ta_amount tb = 0" "ta_amount tq = 0"
    and w': "w' = w\<lparr>wd_vaults := (wd_vaults w)(va_vault_state acc \<mapsto> vs),
      wd_tokens := (wd_tokens w)(va_base_vault acc \<mapsto> tb, va_quote_vault acc \<mapsto> tq)\<rparr>"
    by (rule initialize_vaults_tokens[OF run])
  have new: "vault_accounts_of vs = {va_base_vault acc, va_quote_vault acc}" by (simp add: vault_accounts_of_def vs)
  have old: "vault_accounts_of vs0 \<inter> {va_base_vault acc, va_quote_vault acc} = {}"
    if "wd_vaults w k = Some vs0" for k vs0
    using custodyD(2,3)[OF inv that] none by (auto simp: vault_accounts_of_def owned_by_def)
  have tok: "wd_tokens w' k = wd_tokens w k" if "k \<notin> {va_base_vault acc, va_quote_vault acc}" for k
    using that by (simp add: w')
  have "in_custody rt w' vs0" if "wd_vaults w' k = Some vs0" for k vs0
  proof (cases "k = va_vault_state acc")
    case True
    with that show ?thesis using vs ne own
      by (auto simp: w' in_custody_def vault_accounts_of_def owned_by_def)
  next
    case False
    with that have k: "wd_vaults w k = Some vs0" by (simp add: w')
    have "wd_tokens w' k' = wd_tokens w k'" if "k' \<in> vault_accounts_of vs0" for k'
      using old[OF k] that by (intro tok) blast
    with custodyD(1-3)[OF inv k] show ?thesis
      by (simp add: in_custody_def owned_by_def vault_accounts_of_def)
  qed
  moreover have "vault_accounts_of v1 \<inter> vault_accounts_of v2 = {}"
    if "wd_vaults w' k1 = Some v1" "wd_vaults w' k2 = Some v2" "k1 \<noteq> k2" for k1 k2 v1 v2
    using that old[of k1 v1] old[of k2 v2] custodyD(4)[OF inv, of k1 v1 k2 v2] new
    by (auto simp: w' split: if_splits)
  ultimately have "custody_inv rt w'" unfolding custody_inv_def by blast
  moreover have "base_held w' k = base_held w k \<and> quote_held w' k = quote_held w k" for k
  proof (cases "k = va_vault_state acc")
    case True
    then show ?thesis using un vs zero ne
      by (simp add: w' base_held_def quote_held_def unused_def balance_def)
  next
    case False
    show ?thesis
    proof (cases "wd_vaults w k")
      case (Some vs0)
      have "wd_tokens w' k' = wd_tokens w k'" if "k' \<in> vault_accounts_of vs0" for k'
        using old[OF Some] that by (intro tok) blast
      moreover have "wd_vaults w' k = Some vs0" using Some False by (simp add: w')
      ultimately show ?thesis using Some
        by (simp add: base_held_def quote_held_def balance_def vault_accounts_of_def)
    qed (use False in \<open>simp add: w' base_held_def quote_held_def\<close>)
  qed
  ultimately show ?thesis by (simp add: booked_def base_flow_def quote_flow_def rc)
qed

text \<open>Every other instruction leaves vaults and tokens alone.\<close>

lemma other_frame:
  assumes "execute rt signers slot ix w = Ok w'"
  shows "case ix of InitializeVaults _ \<Rightarrow> True | Fund _ _ \<Rightarrow> True | Swap _ _ \<Rightarrow> True
    | _ \<Rightarrow> wd_vaults w' = wd_vaults w \<and> wd_tokens w' = wd_tokens w"
  using assms
  by (cases ix; fastforce simp: execute_simps stage_Ok activate_Ok pause_Ok
      dest!: initialize_pool_Ok(2) initialize_state_Ok update_Ok update_v2_Ok initialize_curve_Ok)

lemma untouched_booked:
  assumes "custody_inv rt w" "wd_vaults w' = wd_vaults w" "wd_tokens w' = wd_tokens w"
    and "\<And>k. base_flow k rc = 0" "\<And>k. quote_flow k rc = 0"
  shows "booked rt rc w w'"
proof -
  have "custody_inv rt w'"
    by (rule custody_kept[OF assms(1)]) (simp_all add: owners_kept_def same_vaults_def assms(2,3))
  then show ?thesis using assms(2-5) by (simp add: booked_def base_held_def quote_held_def split: option.split)
qed

lemma transaction_booked:
  assumes exact: "exact_transfers rt" and inv: "custody_inv rt w" and un: "no_owner_signs rt (tx_signers tx)"
    and run: "run_transaction rt tx w = Ok w'"
    and rc: "rc_transaction rc = tx" "rc_events rc = drop (length (wd_events w)) (wd_events w')"
  shows "booked rt rc w w'"
proof -
  note ex = run[unfolded run_transaction_def]
  show ?thesis
  proof (cases "tx_instruction tx")
    case (InitializeVaults acc)
    with ex rc show ?thesis by (intro initialize_vaults_booked[OF inv]) (simp_all add: execute_simps)
  next
    case (Fund acc args)
    with ex rc show ?thesis by (intro fund_booked[OF exact inv un]) (simp_all add: execute_simps)
  next
    case (Swap acc args)
    with ex rc show ?thesis by (intro swap_booked[OF exact inv un]) (simp_all add: execute_simps)
  qed (use other_frame[OF ex] in \<open>auto intro!: untouched_booked[OF inv] simp: base_flow_def quote_flow_def rc(1)\<close>)
qed

section \<open>The ledgers of the vaults\<close>

definition receipt_step :: "runtime \<Rightarrow> receipt \<Rightarrow> world \<Rightarrow> world \<Rightarrow> bool" where
  "receipt_step rt rc w w' \<longleftrightarrow> no_owner_signs rt (tx_signers (rc_transaction rc))
     \<and> run_transaction rt (rc_transaction rc) w = Ok w'
     \<and> rc_events rc = drop (length (wd_events w)) (wd_events w')"

definition safe_world :: "runtime \<Rightarrow> world \<Rightarrow> bool" where
  "safe_world rt w \<longleftrightarrow> exact_transfers rt \<and> custody_inv rt w"

lemma receipt_booked: "safe_world rt w \<Longrightarrow> receipt_step rt rc w w' \<Longrightarrow> booked rt rc w w'"
  unfolding safe_world_def receipt_step_def by (elim conjE, rule transaction_booked) simp_all

lemma receipt_ledgers:
  assumes "safe_world rt w" "receipt_step rt rc w w'"
  shows "safe_world rt w'" "base_held w' k = base_held w k + base_flow k rc"
    "quote_held w' k = quote_held w k + quote_flow k rc"
  using receipt_booked[OF assms] assms(1) by (simp_all add: booked_def safe_world_def)

interpretation base_ledger: ledger "safe_world rt" "receipt_step rt" base_held base_flow for rt
  by unfold_locales (fact receipt_ledgers)+

interpretation quote_ledger: ledger "safe_world rt" "receipt_step rt" quote_held quote_flow for rt
  by unfold_locales (fact receipt_ledgers)+

lemma run_receipts:
  "run_transactions rt txs w = (log, w') \<Longrightarrow> \<forall>tx \<in> set txs. no_owner_signs rt (tx_signers tx) \<Longrightarrow>
    steps (receipt_step rt) log w w'"
proof (induction txs arbitrary: w log)
  case (Cons tx txs)
  show ?case
  proof (cases "run_transaction rt tx w")
    case (Inl e)
    with Cons show ?thesis by simp
  next
    case (Inr w1)
    then obtain log1 where "run_transactions rt txs w1 = (log1, w')"
      and log: "log = \<lparr>rc_transaction = tx, rc_events = drop (length (wd_events w)) (wd_events w1)\<rparr> # log1"
      using Cons.prems(1) by (auto simp: Let_def split: prod.splits)
    then have "steps (receipt_step rt) log1 w1 w'" using Cons by simp
    moreover have "receipt_step rt (hd log) w w1" using Inr Cons.prems(2) by (simp add: receipt_step_def log)
    ultimately show ?thesis by (auto simp: log)
  qed
qed simp

text \<open>
  C3: on token programs whose transfers are exact except on mints with a transfer fee, and with no
  signer a vault's derived owner:
  after any sequence of transactions of any users, accepted or refused, on a chain with no vaults
  to begin with, each vault holds exactly the amounts funded into it and paid in by takers, less
  the outputs the swap events report; so no sequence of swaps pays out more than was put in.
\<close>

theorem vaults_balance_their_ledgers:
  assumes "exact_transfers rt" and "wd_vaults w = Map.empty"
    and "\<forall>tx \<in> set txs. no_owner_signs rt (tx_signers tx)"
    and "run_transactions rt txs w = (log, w')" and "wd_vaults w' k = Some vs"
  shows "int (balance (wd_tokens w') (vs_base_vault vs)) = (\<Sum>rc\<leftarrow>log. base_flow k rc)
    \<and> int (balance (wd_tokens w') (vs_quote_vault vs)) = (\<Sum>rc\<leftarrow>log. quote_flow k rc)"
proof -
  have run: "steps (receipt_step rt) log w w'" by (rule run_receipts[OF assms(4,3)])
  have safe: "safe_world rt w" using assms(1,2) by (simp add: safe_world_def custody_inv_def)
  show ?thesis
    using base_ledger.run_amount[OF run safe, of k] quote_ledger.run_amount[OF run safe, of k] assms(2,5)
    by (simp add: base_held_def quote_held_def)
qed

definition demo_transactions :: "transaction list" where
  "demo_transactions =
    [\<lparr>tx_signers = [demo_maker], tx_slot = 90, tx_instruction = demo_initialize_pool\<rparr>,
     \<lparr>tx_signers = [demo_maker], tx_slot = 91, tx_instruction = InitializeQuoteState (demo_authority quote_key) demo_publisher\<rparr>,
     \<lparr>tx_signers = [demo_maker], tx_slot = 92, tx_instruction = demo_vaults\<rparr>,
     \<lparr>tx_signers = [demo_maker], tx_slot = 93, tx_instruction = demo_fund\<rparr>,
     \<lparr>tx_signers = [demo_publisher], tx_slot = 101, tx_instruction = demo_update\<rparr>,
     \<lparr>tx_signers = [demo_taker], tx_slot = 105, tx_instruction = Swap taker_accounts demo_swap_args\<rparr>]"

lemma demo_transactions_run:
  "\<exists>log. run_transactions demo_runtime demo_transactions demo_world0 = (log, demo_swapped)
     \<and> map (base_flow vault_key) log = [0, 0, 0, 1000000000, 0, 1000000]
     \<and> map (quote_flow vault_key) log = [0, 0, 0, 30000000000000, 0, - 29976000000]"
proof -
  have sw: "execute demo_runtime [demo_taker] 105 (Swap taker_accounts demo_swap_args) demo_world5 = Ok demo_swapped"
    using demo_swap_runs by (simp add: execute_simps)
  have ev: "drop (length (wd_events demo_world5)) (wd_events demo_swapped)
    = [swap_event taker_accounts demo_swap_args demo_published 105 example_swap]"
    by (simp add: demo_swapped_def demo_worlds)
  show ?thesis
    unfolding demo_transactions_def
    by (simp add: run_transaction_def demo_step1 demo_step2 demo_step3 demo_step4 demo_step5 sw ev Let_def
        base_flow_def quote_flow_def paid_out_def)
      (simp add: demo_initialize_pool_def demo_vaults_def demo_fund_def demo_update_def demo_accounts_def
        swap_event_def example_swap_def)
qed

theorem vaults_balance_their_ledgers_witness:
  "int (balance (wd_tokens demo_swapped) base_vault_key) = 1000000000 + 1000000
    \<and> int (balance (wd_tokens demo_swapped) quote_vault_key) = 30000000000000 - 29976000000"
proof -
  obtain log where run: "run_transactions demo_runtime demo_transactions demo_world0 = (log, demo_swapped)"
    and flows: "map (base_flow vault_key) log = [0, 0, 0, 1000000000, 0, 1000000]"
      "map (quote_flow vault_key) log = [0, 0, 0, 30000000000000, 0, - 29976000000]"
    using demo_transactions_run by - (elim exE conjE, rule that)
  let ?vs = "demo_vault\<lparr>vs_target_base_inventory := 1000000000\<rparr>"
  have none: "wd_vaults demo_world0 = Map.empty" by (simp add: demo_world0_def empty_world_def)
  have "vault_owner demo_runtime p \<notin> {demo_maker, demo_publisher, demo_taker}" for p
    by (simp add: vault_owner_def demo_runtime_def demo_keys)
  then have signers: "\<forall>tx \<in> set demo_transactions. no_owner_signs demo_runtime (tx_signers tx)"
    by (simp add: demo_transactions_def no_owner_signs_def)
  have vs: "wd_vaults demo_swapped vault_key = Some ?vs" by (simp add: demo_swapped_def demo_worlds)
  have keys: "vs_base_vault ?vs = base_vault_key" "vs_quote_vault ?vs = quote_vault_key"
    by (simp_all add: demo_vault_def)
  from vaults_balance_their_ledgers[OF demo_exact none signers run vs] flows
  show ?thesis unfolding keys by simp
qed

end
