(* ===== verification/Sim_Core.thy ===== *)
theory Sim_Core imports Config Piecewise Cpmm begin

text \<open>
  The core of the simulator, \<open>crates/meta_amm_sim/src/lib.rs\<close>: flow events, market slots,
  reports, the deterministic random number generator, and the simulations of the constant
  product pool, of the piecewise book and of one slot of the reference quote.

  Counters are \<open>u64\<close>; they count elements of a \<open>Vec\<close>, of which there are fewer than \<open>2 ^ 63\<close>,
  so the increments written \<open>+= 1\<close> in the code never overflow.
\<close>

section \<open>Data\<close>

datatype side = BaseToQuote | QuoteToBase

record flow_event =
  fe_slot :: u64
  fe_side :: side
  fe_amount_in :: u64
  fe_fair_price :: q64x64

record flow_order =
  fo_side :: side
  fo_amount_in :: u64

record market_slot =
  ms_slot :: u64
  ms_fair_price :: q64x64
  ms_flow :: "flow_order option"

record quote_update_policy =
  qp_maker_update_period_slots :: u64
  qp_landing_latency_slots :: u64
  qp_update_success_probability_bps :: u16
  qp_failure_seed :: u128
  qp_same_slot_order :: same_slot_update_order

definition policy_instant :: "u64 \<Rightarrow> quote_update_policy" where
  "policy_instant period =
    \<lparr>qp_maker_update_period_slots = period, qp_landing_latency_slots = 0,
     qp_update_success_probability_bps = 10000, qp_failure_seed = 0,
     qp_same_slot_order = UpdateBeforeSwap\<rparr>"

record scenario_assumptions =
  sc_name :: string
  sc_flow_model :: string
  sc_landing_model :: string
  sc_path_count :: u32

record cpmm_scenario =
  cs_assumptions :: scenario_assumptions
  cs_initial_reserves :: cpmm_reserves
  cs_fee_bps :: u16

record sim_report =
  sr_assumptions :: scenario_assumptions
  sr_trades_attempted :: u64
  sr_trades_filled :: u64
  sr_trades_rejected :: u64
  sr_fees_quote_atoms :: u128
  sr_taker_edge_quote_atoms :: int
  sr_final_reserves :: cpmm_reserves

text \<open>\<open>(filled * 10_000) / attempted\<close> with overflow checks on: \<^const>\<open>None\<close> is the panic.\<close>

definition fill_rate_bps :: "u64 \<Rightarrow> u64 \<Rightarrow> u16 option" where
  "fill_rate_bps filled attempted =
    (if attempted = 0 then Some 0
     else map_option (\<lambda>x. ucast (x div attempted)) (checked_mul filled 10000))"

record reference_quote_scenario =
  rs_assumptions :: scenario_assumptions
  rs_initial_base_inventory :: u64
  rs_initial_quote_inventory :: u64
  rs_target_base_inventory :: u64
  rs_initial_mid_price :: q64x64
  rs_quote_update_policy :: quote_update_policy
  rs_params :: reference_quote_params

record piecewise_prop_scenario =
  ps_assumptions :: scenario_assumptions
  ps_bid_side :: piecewise_book_side
  ps_ask_side :: piecewise_book_side
  ps_post_fill_policy :: post_fill_policy

record piecewise_prop_report =
  pr_assumptions :: scenario_assumptions
  pr_trades_attempted :: u64
  pr_trades_filled :: u64
  pr_trades_rejected :: u64
  pr_post_fills_applied :: u64
  pr_taker_edge_quote_atoms :: int
  pr_max_segments_crossed :: u8
  pr_final_bid_side :: piecewise_book_side
  pr_final_ask_side :: piecewise_book_side

record reference_quote_report =
  rr_assumptions :: scenario_assumptions
  rr_trades_attempted :: u64
  rr_trades_filled :: u64
  rr_rejected_stale :: u64
  rr_rejected_protected :: u64
  rr_rejected_inventory :: u64
  rr_rejected_other :: u64
  rr_quote_updates_sent :: u64
  rr_quote_updates_landed :: u64
  rr_quote_updates_dropped :: u64
  rr_max_quote_age_slots :: u64
  rr_fresh_fills :: u64
  rr_aging_fills :: u64
  rr_protected_fills :: u64
  rr_fees_quote_atoms :: u128
  rr_taker_edge_quote_atoms :: int
  rr_final_base_inventory :: u64
  rr_final_quote_inventory :: u64
  rr_max_abs_inventory_imbalance_bps :: u16

definition rejected_total :: "reference_quote_report \<Rightarrow> u64" where
  "rejected_total r = saturating_add (saturating_add (saturating_add (rr_rejected_stale r)
     (rr_rejected_protected r)) (rr_rejected_inventory r)) (rr_rejected_other r)"

record pending_quote_update =
  pu_publish_slot :: u64
  pu_landing_slot :: u64
  pu_mid_price :: q64x64

section \<open>Random numbers\<close>

definition rng_new :: "u128 \<Rightarrow> u128" where
  "rng_new seed = max seed 1"

definition rng_next_u64 :: "u128 \<Rightarrow> u64 \<times> u128" where
  "rng_next_u64 state =
    (let s1 = state * 0xda942042e4dd58b5d1b54a32d192ed03 + 0x9e3779b97f4a7c15f39cc0605cedc835;
         s2 = s1 XOR drop_bit 29 s1;
         s3 = s2 XOR push_bit 37 s2;
         s4 = s3 XOR drop_bit 43 s3
     in (ucast (drop_bit 64 s4), s4))"

definition rng_next_bps :: "u128 \<Rightarrow> u16 \<times> u128" where
  "rng_next_bps state = (let (v, state) = rng_next_u64 state in (ucast (v mod 10000), state))"

definition rng_next_bool :: "u128 \<Rightarrow> bool \<times> u128" where
  "rng_next_bool state = (let (v, state) = rng_next_u64 state in (v AND 1 = 0, state))"

section \<open>Fees, edges and imbalances\<close>

definition fee_in_quote_atoms :: "flow_event \<Rightarrow> u64 \<Rightarrow> math_error + u128" where
  "fee_in_quote_atoms event amount_in_less_fee =
    (let fee_atoms = saturating_sub (fe_amount_in event) amount_in_less_fee
     in case fe_side event of
          BaseToQuote \<Rightarrow> map_ok as_u128 (mul_amount_floor (fe_fair_price event) fee_atoms)
        | QuoteToBase \<Rightarrow> Ok (as_u128 fee_atoms))"

definition taker_edge_quote_atoms :: "flow_event \<Rightarrow> u64 \<Rightarrow> math_error + int" where
  "taker_edge_quote_atoms event amount_out =
    (case fe_side event of
       BaseToQuote \<Rightarrow>
         and_then (mul_amount_floor (fe_fair_price event) (fe_amount_in event)) (\<lambda>fair_quote_out.
         Ok (saturate_i128 (uint amount_out - uint fair_quote_out)))
     | QuoteToBase \<Rightarrow>
         and_then (div_amount_floor (fe_fair_price event) (fe_amount_in event)) (\<lambda>fair_base_out.
         let base_edge = saturate_i128 (uint amount_out - uint fair_base_out)
         in and_then (mul_amount_floor (fe_fair_price event) (word_of_int \<bar>base_edge\<bar>)) (\<lambda>edge_abs_quote.
         Ok (if 0 \<le> base_edge then uint edge_abs_quote else - uint edge_abs_quote))))"

definition inventory_imbalance_abs_bps :: "u64 \<Rightarrow> u64 \<Rightarrow> u16" where
  "inventory_imbalance_abs_bps base_inv target =
    (if target = 0 then - 1
     else let delta = uint base_inv - uint target;
              bps = (\<bar>delta\<bar> * 10000) div uint target
          in word_of_int (min bps 65535))"

section \<open>The constant-product simulation\<close>

definition cpmm_event ::
    "cpmm_scenario \<Rightarrow> flow_event \<Rightarrow> cpmm_reserves \<times> sim_report \<Rightarrow> math_error + cpmm_reserves \<times> sim_report" where
  "cpmm_event scenario event st =
    (let (reserves, report) = st
     in case cpmm_quote_exact_in reserves (fe_amount_in event) (fe_side event = BaseToQuote) (cs_fee_bps scenario) of
       Ok q \<Rightarrow>
         and_then (fee_in_quote_atoms event (cq_amount_in_less_fee q)) (\<lambda>fee.
         and_then (taker_edge_quote_atoms event (cq_amount_out q)) (\<lambda>edge.
         Ok (\<lparr>base = cq_new_base q, quote = cq_new_quote q\<rparr>,
             report\<lparr>sr_trades_filled := sr_trades_filled report + 1,
                    sr_fees_quote_atoms := saturating_add (sr_fees_quote_atoms report) fee,
                    sr_taker_edge_quote_atoms := saturate_i128 (sr_taker_edge_quote_atoms report + edge)\<rparr>)))
     | Err e \<Rightarrow>
         if e = InvalidAmount \<or> e = EmptyLiquidity
         then Ok (reserves, report\<lparr>sr_trades_rejected := sr_trades_rejected report + 1\<rparr>)
         else Err e)"

fun cpmm_events ::
    "cpmm_scenario \<Rightarrow> flow_event list \<Rightarrow> cpmm_reserves \<times> sim_report \<Rightarrow> math_error + cpmm_reserves \<times> sim_report" where
  "cpmm_events scenario [] st = Ok st"
| "cpmm_events scenario (event # events) st =
     and_then (cpmm_event scenario event st) (cpmm_events scenario events)"

definition simulate_cpmm :: "cpmm_scenario \<Rightarrow> flow_event list \<Rightarrow> math_error + sim_report" where
  "simulate_cpmm scenario events =
    map_ok (\<lambda>(reserves, report). report\<lparr>sr_final_reserves := reserves\<rparr>)
      (cpmm_events scenario events (cs_initial_reserves scenario,
        \<lparr>sr_assumptions = cs_assumptions scenario, sr_trades_attempted = of_nat (length events),
         sr_trades_filled = 0, sr_trades_rejected = 0, sr_fees_quote_atoms = 0,
         sr_taker_edge_quote_atoms = 0, sr_final_reserves = cs_initial_reserves scenario\<rparr>))"

section \<open>The piecewise simulation\<close>

text \<open>
  A refused trade may have consumed its side, which stays consumed.
\<close>

definition filled_report :: "flow_event \<Rightarrow> piecewise_quote \<Rightarrow> piecewise_prop_report \<Rightarrow> math_error + piecewise_prop_report" where
  "filled_report event q report =
    map_ok (\<lambda>edge. report\<lparr>pr_trades_filled := pr_trades_filled report + 1,
        pr_max_segments_crossed := max (pr_max_segments_crossed report) (pq_segments_crossed q),
        pr_taker_edge_quote_atoms := saturate_i128 (pr_taker_edge_quote_atoms report + edge)\<rparr>)
      (taker_edge_quote_atoms event (pq_amount_out q))"

definition piecewise_event ::
    "post_fill_policy \<Rightarrow> flow_event
      \<Rightarrow> piecewise_book_side \<times> piecewise_book_side \<times> piecewise_prop_report
      \<Rightarrow> math_error + piecewise_book_side \<times> piecewise_book_side \<times> piecewise_prop_report" where
  "piecewise_event policy event st =
    (let (bid, ask, report) = st
     in case fe_side event of
       BaseToQuote \<Rightarrow>
         (let (bid, r) = sell_base_for_quote bid (fe_amount_in event)
          in case r of
            Ok q \<Rightarrow>
              and_then (filled_report event q report) (\<lambda>report.
              let (ask, post) = apply_post_fill_to_side ask (fe_amount_in event) policy (pq_segments_crossed q)
              in and_then post (\<lambda>_.
              Ok (bid, ask, report\<lparr>pr_post_fills_applied := pr_post_fills_applied report + 1\<rparr>)))
          | Err e \<Rightarrow>
              if e = InvalidAmount
              then Ok (bid, ask, report\<lparr>pr_trades_rejected := pr_trades_rejected report + 1\<rparr>)
              else Err e)
     | QuoteToBase \<Rightarrow>
         (let (ask, r) = buy_base_with_quote ask (fe_amount_in event)
          in case r of
            Ok q \<Rightarrow>
              and_then (filled_report event q report) (\<lambda>report.
              let (bid, post) = apply_post_fill_to_side bid (pq_amount_out q) policy (pq_segments_crossed q)
              in and_then post (\<lambda>_.
              Ok (bid, ask, report\<lparr>pr_post_fills_applied := pr_post_fills_applied report + 1\<rparr>)))
          | Err e \<Rightarrow>
              if e = InvalidAmount
              then Ok (bid, ask, report\<lparr>pr_trades_rejected := pr_trades_rejected report + 1\<rparr>)
              else Err e))"

fun piecewise_events ::
    "post_fill_policy \<Rightarrow> flow_event list
      \<Rightarrow> piecewise_book_side \<times> piecewise_book_side \<times> piecewise_prop_report
      \<Rightarrow> math_error + piecewise_book_side \<times> piecewise_book_side \<times> piecewise_prop_report" where
  "piecewise_events policy [] st = Ok st"
| "piecewise_events policy (event # events) st =
     and_then (piecewise_event policy event st) (piecewise_events policy events)"

definition simulate_piecewise_prop ::
    "piecewise_prop_scenario \<Rightarrow> flow_event list \<Rightarrow> math_error + piecewise_prop_report" where
  "simulate_piecewise_prop scenario events =
    and_then (side_validate (ps_bid_side scenario)) (\<lambda>_.
    and_then (side_validate (ps_ask_side scenario)) (\<lambda>_.
    map_ok (\<lambda>(bid, ask, report). report\<lparr>pr_final_bid_side := bid, pr_final_ask_side := ask\<rparr>)
      (piecewise_events (ps_post_fill_policy scenario) events (ps_bid_side scenario, ps_ask_side scenario,
        \<lparr>pr_assumptions = ps_assumptions scenario, pr_trades_attempted = of_nat (length events),
         pr_trades_filled = 0, pr_trades_rejected = 0, pr_post_fills_applied = 0,
         pr_taker_edge_quote_atoms = 0, pr_max_segments_crossed = 0,
         pr_final_bid_side = ps_bid_side scenario, pr_final_ask_side = ps_ask_side scenario\<rparr>))))"

end
