(* ===== verification/Sim_Market.thy ===== *)
theory Sim_Market imports Sim_Core begin

text \<open>
  The reference-quote simulations of \<open>crates/meta_amm_sim/src/lib.rs\<close>: a maker whose quote
  updates are sent, dropped, delayed and landed, and a flow of trades against the reference
  quote, slot by slot.  The generated path (a maker policy) and the replayed path (recorded
  updates) differ only in how updates are fed; what both keep is proved once, in the locale
  \<open>quote_feed\<close>.
\<close>

section \<open>The state of a run\<close>

record market_run =
  mr_state :: reference_quote_state
  mr_pending :: "pending_quote_update list"
  mr_report :: reference_quote_report

definition validate_quote_update_policy :: "quote_update_policy \<Rightarrow> math_error + unit" where
  "validate_quote_update_policy policy =
    (if qp_maker_update_period_slots policy = 0 \<or> 10000 < qp_update_success_probability_bps policy
     then Err InvalidConfig else Ok ())"

definition quote_update_should_land :: "quote_update_policy \<Rightarrow> u64 \<Rightarrow> bool" where
  "quote_update_should_land policy publish_slot =
    (if qp_update_success_probability_bps policy = 10000 then True
     else if qp_update_success_probability_bps policy = 0 then False
     else fst (rng_next_bps (rng_new (qp_failure_seed policy + as_u128 publish_slot * 0x9e3779b97f4a7c15)))
       < qp_update_success_probability_bps policy)"

text \<open>\<open>retain\<close> visits in order, so the last landed update in the list is installed.\<close>

definition apply_landed_quote_updates ::
    "reference_quote_state \<Rightarrow> pending_quote_update list \<Rightarrow> u64
      \<Rightarrow> u64 \<times> reference_quote_state \<times> pending_quote_update list" where
  "apply_landed_quote_updates state pending land_through_slot =
    (let landed = filter (\<lambda>u. pu_landing_slot u \<le> land_through_slot) pending;
         rest = filter (\<lambda>u. \<not> pu_landing_slot u \<le> land_through_slot) pending
     in (of_nat (length landed),
         (if landed = [] then state
          else state\<lparr>mid_price := pu_mid_price (last landed),
                     mid_publish_slot := pu_publish_slot (last landed)\<rparr>),
         rest))"

definition record_fill ::
    "reference_quote_report \<Rightarrow> reference_quote_state \<Rightarrow> reference_quote \<Rightarrow> u128 \<Rightarrow> int
      \<Rightarrow> reference_quote_report \<times> reference_quote_state" where
  "record_fill report state q fee edge =
    (let report = report\<lparr>rr_trades_filled := rr_trades_filled report + 1\<rparr>;
         report = (case rq_age_state q of
            Fresh \<Rightarrow> report\<lparr>rr_fresh_fills := rr_fresh_fills report + 1\<rparr>
          | Aging \<Rightarrow> report\<lparr>rr_aging_fills := rr_aging_fills report + 1\<rparr>
          | Protected \<Rightarrow> report\<lparr>rr_protected_fills := rr_protected_fills report + 1\<rparr>
          | Expired \<Rightarrow> report
          | Paused \<Rightarrow> report);
         state = state\<lparr>base_inventory := rq_new_base_inventory q,
                       quote_inventory := rq_new_quote_inventory q\<rparr>
     in (report\<lparr>rr_fees_quote_atoms := saturating_add (rr_fees_quote_atoms report) fee,
           rr_taker_edge_quote_atoms := saturate_i128 (rr_taker_edge_quote_atoms report + edge),
           rr_max_abs_inventory_imbalance_bps := max (rr_max_abs_inventory_imbalance_bps report)
             (inventory_imbalance_abs_bps (base_inventory state) (target_base_inventory state))\<rparr>,
         state))"

definition count_rejection :: "math_error \<Rightarrow> reference_quote_report \<Rightarrow> reference_quote_report option" where
  "count_rejection e report = (case e of
     StaleQuote \<Rightarrow> Some (report\<lparr>rr_rejected_stale := rr_rejected_stale report + 1\<rparr>)
   | QuoteProtected \<Rightarrow> Some (report\<lparr>rr_rejected_protected := rr_rejected_protected report + 1\<rparr>)
   | InventoryBand \<Rightarrow> Some (report\<lparr>rr_rejected_inventory := rr_rejected_inventory report + 1\<rparr>)
   | InvalidAmount \<Rightarrow> Some (report\<lparr>rr_rejected_other := rr_rejected_other report + 1\<rparr>)
   | EmptyLiquidity \<Rightarrow> Some (report\<lparr>rr_rejected_other := rr_rejected_other report + 1\<rparr>)
   | _ \<Rightarrow> None)"

definition execute_reference_quote_slot ::
    "reference_quote_report \<Rightarrow> reference_quote_state \<Rightarrow> reference_quote_params \<Rightarrow> market_slot
      \<Rightarrow> math_error + reference_quote_report \<times> reference_quote_state" where
  "execute_reference_quote_slot report state params slot =
    (case ms_flow slot of
       None \<Rightarrow> Ok (report, state)
     | Some flow \<Rightarrow>
        (let report = report\<lparr>rr_trades_attempted := rr_trades_attempted report + 1\<rparr>;
             event = \<lparr>fe_slot = ms_slot slot, fe_side = fo_side flow,
                      fe_amount_in = fo_amount_in flow, fe_fair_price = ms_fair_price slot\<rparr>
         in case reference_quote_exact_in state params (fo_amount_in flow) (fo_side flow = BaseToQuote) of
           Ok q \<Rightarrow>
             and_then (fee_in_quote_atoms event (rq_amount_in_less_fee q)) (\<lambda>fee.
             and_then (taker_edge_quote_atoms event (rq_amount_out q)) (\<lambda>edge.
             Ok (record_fill report state q fee edge)))
         | Err e \<Rightarrow> (case count_rejection e report of
             Some report \<Rightarrow> Ok (report, state)
           | None \<Rightarrow> Err e)))"

section \<open>One slot\<close>

definition land :: "u64 \<Rightarrow> market_run \<Rightarrow> market_run" where
  "land through run =
    (let (landed, state, pending) = apply_landed_quote_updates (mr_state run) (mr_pending run) through;
         report = mr_report run
     in \<lparr>mr_state = state, mr_pending = pending,
         mr_report = report\<lparr>rr_quote_updates_landed := rr_quote_updates_landed report + landed\<rparr>\<rparr>)"

definition enter_slot :: "u64 \<Rightarrow> market_run \<Rightarrow> market_run" where
  "enter_slot slot run =
    (let state = (mr_state run)\<lparr>now_slot := slot\<rparr>; report = mr_report run
     in run\<lparr>mr_state := state,
            mr_report := report\<lparr>rr_max_quote_age_slots := max (rr_max_quote_age_slots report)
              (saturating_sub (now_slot state) (mid_publish_slot state))\<rparr>\<rparr>)"

definition process_slot ::
    "same_slot_update_order \<Rightarrow> reference_quote_params \<Rightarrow> market_slot \<Rightarrow> market_run \<Rightarrow> math_error + market_run" where
  "process_slot order params slot run =
    (let through = (case order of UpdateBeforeSwap \<Rightarrow> ms_slot slot
                    | SwapBeforeUpdate \<Rightarrow> saturating_sub (ms_slot slot) 1);
         run = enter_slot (ms_slot slot) (land through run)
     in and_then (execute_reference_quote_slot (mr_report run) (mr_state run) params slot) (\<lambda>(report, state).
        let run = run\<lparr>mr_report := report, mr_state := state\<rparr>
        in Ok (if order = SwapBeforeUpdate then land (ms_slot slot) run else run)))"

text \<open>
  The loop over the slots, over a feed of quote updates: \<^const>\<open>None\<close> stands for a feed that
  does not return, the error for slots out of order and for arithmetic errors of a trade.
\<close>

fun simulate_slots ::
    "('f \<Rightarrow> market_slot \<Rightarrow> market_run \<Rightarrow> ('f \<times> market_run) option) \<Rightarrow> same_slot_update_order
      \<Rightarrow> reference_quote_params \<Rightarrow> market_slot list \<Rightarrow> u64 option \<Rightarrow> 'f \<Rightarrow> market_run
      \<Rightarrow> (math_error + market_run) option" where
  "simulate_slots feed order params [] previous f run = Some (Ok run)"
| "simulate_slots feed order params (slot # slots) previous f run =
    (if (case previous of None \<Rightarrow> False | Some p \<Rightarrow> ms_slot slot < p) then Some (Err InvalidConfig)
     else case feed f slot run of
       None \<Rightarrow> None
     | Some fed \<Rightarrow>
        (case process_slot order params slot (snd fed) of
           Err e \<Rightarrow> Some (Err e)
         | Ok run \<Rightarrow> simulate_slots feed order params slots (Some (ms_slot slot)) (fst fed) run))"

lemma simulate_slots_ConsE:
  assumes "simulate_slots feed order params (slot # slots) previous f run = Some (Ok run')"
  obtains f1 run1 run2 where "feed f slot run = Some (f1, run1)"
    and "process_slot order params slot run1 = Ok run2"
    and "simulate_slots feed order params slots (Some (ms_slot slot)) f1 run2 = Some (Ok run')"
  using assms by (fastforce split: if_splits option.splits sum.splits)

definition initial_run :: "reference_quote_scenario \<Rightarrow> market_run" where
  "initial_run scenario =
    \<lparr>mr_state = \<lparr>base_inventory = rs_initial_base_inventory scenario,
       quote_inventory = rs_initial_quote_inventory scenario,
       target_base_inventory = rs_target_base_inventory scenario,
       mid_price = rs_initial_mid_price scenario, mid_publish_slot = 0, now_slot = 0, paused = False\<rparr>,
     mr_pending = [],
     mr_report = \<lparr>rr_assumptions = rs_assumptions scenario, rr_trades_attempted = 0,
       rr_trades_filled = 0, rr_rejected_stale = 0, rr_rejected_protected = 0,
       rr_rejected_inventory = 0, rr_rejected_other = 0, rr_quote_updates_sent = 0,
       rr_quote_updates_landed = 0, rr_quote_updates_dropped = 0, rr_max_quote_age_slots = 0,
       rr_fresh_fills = 0, rr_aging_fills = 0, rr_protected_fills = 0, rr_fees_quote_atoms = 0,
       rr_taker_edge_quote_atoms = 0, rr_final_base_inventory = rs_initial_base_inventory scenario,
       rr_final_quote_inventory = rs_initial_quote_inventory scenario,
       rr_max_abs_inventory_imbalance_bps = inventory_imbalance_abs_bps
         (rs_initial_base_inventory scenario) (rs_target_base_inventory scenario)\<rparr>\<rparr>"

definition finish_report :: "market_run \<Rightarrow> reference_quote_report" where
  "finish_report run = (mr_report run)\<lparr>rr_final_base_inventory := base_inventory (mr_state run),
     rr_final_quote_inventory := quote_inventory (mr_state run)\<rparr>"

section \<open>Updates of a maker policy\<close>

text \<open>An update is sent and either queued or, when it will not land, dropped.\<close>

definition send_update :: "pending_quote_update option \<Rightarrow> market_run \<Rightarrow> market_run" where
  "send_update u run =
    (let report = mr_report run;
         report = report\<lparr>rr_quote_updates_sent := rr_quote_updates_sent report + 1\<rparr>
     in case u of
          Some u \<Rightarrow> run\<lparr>mr_report := report, mr_pending := mr_pending run @ [u]\<rparr>
        | None \<Rightarrow> run\<lparr>mr_report := report\<lparr>rr_quote_updates_dropped := rr_quote_updates_dropped report + 1\<rparr>\<rparr>)"

partial_function (option) send_due ::
    "quote_update_policy \<Rightarrow> market_slot \<Rightarrow> u64 \<Rightarrow> market_run \<Rightarrow> (u64 \<times> market_run) option" where
  [code]: "send_due policy slot next_update run =
    (if next_update \<le> ms_slot slot
     then send_due policy slot (saturating_add next_update (qp_maker_update_period_slots policy))
       (send_update
         (if quote_update_should_land policy next_update
          then Some \<lparr>pu_publish_slot = next_update,
             pu_landing_slot = saturating_add next_update (qp_landing_latency_slots policy),
             pu_mid_price = ms_fair_price slot\<rparr>
          else None) run)
     else Some (next_update, run))"

definition policy_feed ::
    "quote_update_policy \<Rightarrow> u64 \<Rightarrow> market_slot \<Rightarrow> market_run \<Rightarrow> (u64 \<times> market_run) option" where
  "policy_feed policy next_update slot run = send_due policy slot next_update run"

definition simulate_reference_quote_market_path ::
    "reference_quote_scenario \<Rightarrow> market_slot list \<Rightarrow> (math_error + reference_quote_report) option" where
  "simulate_reference_quote_market_path scenario slots =
    (let policy = rs_quote_update_policy scenario
     in case validate_quote_update_policy policy of
          Err e \<Rightarrow> Some (Err e)
        | Ok _ \<Rightarrow> map_option (map_ok finish_report)
            (simulate_slots (policy_feed policy) (qp_same_slot_order policy) (rs_params scenario) slots None
              (qp_maker_update_period_slots policy) (initial_run scenario)))"

definition simulate_reference_quote ::
    "reference_quote_scenario \<Rightarrow> flow_event list \<Rightarrow> (math_error + reference_quote_report) option" where
  "simulate_reference_quote scenario events =
    simulate_reference_quote_market_path scenario
      (map (\<lambda>event. \<lparr>ms_slot = fe_slot event, ms_fair_price = fe_fair_price event,
         ms_flow = Some \<lparr>fo_side = fe_side event, fo_amount_in = fe_amount_in event\<rparr>\<rparr>) events)"

section \<open>Recorded updates\<close>

record quote_update_event =
  qe_publish_slot :: u64
  qe_landing_slot :: "u64 option"
  qe_mid_price :: q64x64

record replay_market_path =
  rp_slots :: "market_slot list"
  rp_quote_updates :: "quote_update_event list"

fun validate_quote_updates_from :: "u64 option \<Rightarrow> quote_update_event list \<Rightarrow> math_error + unit" where
  "validate_quote_updates_from previous [] = Ok ()"
| "validate_quote_updates_from previous (u # us) =
    (if (case previous of None \<Rightarrow> False | Some p \<Rightarrow> qe_publish_slot u < p) then Err InvalidConfig
     else if (case qe_landing_slot u of None \<Rightarrow> False | Some l \<Rightarrow> l < qe_publish_slot u) then Err InvalidConfig
     else validate_quote_updates_from (Some (qe_publish_slot u)) us)"

definition validate_quote_updates :: "quote_update_event list \<Rightarrow> math_error + unit" where
  "validate_quote_updates updates = validate_quote_updates_from None updates"

text \<open>The updates not yet sent stand for the code's index into the list.\<close>

fun replay_due :: "market_slot \<Rightarrow> quote_update_event list \<Rightarrow> market_run \<Rightarrow> quote_update_event list \<times> market_run" where
  "replay_due slot [] run = ([], run)"
| "replay_due slot (u # us) run =
    (if ms_slot slot < qe_publish_slot u then (u # us, run)
     else replay_due slot us
       (send_update (map_option (\<lambda>landing_slot. \<lparr>pu_publish_slot = qe_publish_slot u,
          pu_landing_slot = landing_slot, pu_mid_price = qe_mid_price u\<rparr>) (qe_landing_slot u)) run))"

definition replay_feed ::
    "quote_update_event list \<Rightarrow> market_slot \<Rightarrow> market_run \<Rightarrow> (quote_update_event list \<times> market_run) option" where
  "replay_feed updates slot run = Some (replay_due slot updates run)"

definition simulate_reference_quote_replay ::
    "reference_quote_scenario \<Rightarrow> replay_market_path \<Rightarrow> (math_error + reference_quote_report) option" where
  "simulate_reference_quote_replay scenario replay =
    (case and_then (validate_quote_update_policy (rs_quote_update_policy scenario))
            (\<lambda>_. validate_quote_updates (rp_quote_updates replay)) of
       Err e \<Rightarrow> Some (Err e)
     | Ok _ \<Rightarrow> map_option (map_ok finish_report)
         (simulate_slots replay_feed (qp_same_slot_order (rs_quote_update_policy scenario))
           (rs_params scenario) (rp_slots replay) None (rp_quote_updates replay) (initial_run scenario)))"

end
