(* ===== verification/Sim_Accounting.thy ===== *)
theory Sim_Accounting imports Sim_Market begin
text \<open>
  The counters of the reference-quote simulations: every trade is accounted for exactly once,
  and an update is sent before it lands or is dropped.  The argument is made once, for any feed
  of updates (locale \<open>quote_feed\<close>), and holds for the generated and for the replayed path.
\<close>

section \<open>Accounting\<close>

definition trades_balanced :: "reference_quote_report \<Rightarrow> bool" where
  "trades_balanced r \<longleftrightarrow>
     unat (rr_trades_attempted r) = unat (rr_trades_filled r) + unat (rr_rejected_stale r)
       + unat (rr_rejected_protected r) + unat (rr_rejected_inventory r) + unat (rr_rejected_other r)
   \<and> unat (rr_trades_filled r) = unat (rr_fresh_fills r) + unat (rr_aging_fills r) + unat (rr_protected_fills r)"

definition updates_balanced :: "market_run \<Rightarrow> bool" where
  "updates_balanced run \<longleftrightarrow> unat (rr_quote_updates_sent (mr_report run))
     = unat (rr_quote_updates_landed (mr_report run)) + unat (rr_quote_updates_dropped (mr_report run))
       + length (mr_pending run)"

text \<open>The part of a report that only trades change.\<close>

definition trade_part :: "reference_quote_report \<Rightarrow> u64 list" where
  "trade_part r = [rr_trades_attempted r, rr_trades_filled r, rr_rejected_stale r, rr_rejected_protected r,
     rr_rejected_inventory r, rr_rejected_other r, rr_fresh_fills r, rr_aging_fills r, rr_protected_fills r]"

lemma trades_balanced_part: "trade_part r = trade_part r' \<Longrightarrow> trades_balanced r = trades_balanced r'"
  by (simp add: trade_part_def trades_balanced_def)

lemma unat_inc: "unat (a :: u64) + 1 < 2 ^ 64 \<Longrightarrow> unat (a + 1) = unat a + 1"
  by (simp add: unat_add_fits)

lemma land_keeps:
  "mr_state (land t run) = (mr_state run)\<lparr>mid_price := mid_price (mr_state (land t run)),
     mid_publish_slot := mid_publish_slot (mr_state (land t run))\<rparr>"
  "trade_part (mr_report (land t run)) = trade_part (mr_report run)"
  "rr_quote_updates_sent (mr_report (land t run)) = rr_quote_updates_sent (mr_report run)"
  "rr_quote_updates_dropped (mr_report (land t run)) = rr_quote_updates_dropped (mr_report run)"
  by (auto simp: land_def apply_landed_quote_updates_def trade_part_def Let_def)

lemma land_updates_balanced: "updates_balanced run \<Longrightarrow> updates_balanced (land t run)"
proof -
  let ?l = "length (filter (\<lambda>u. pu_landing_slot u \<le> t) (mr_pending run))"
  let ?r = "length (filter (\<lambda>u. \<not> pu_landing_slot u \<le> t) (mr_pending run))"
  assume b: "updates_balanced run"
  have sum: "?l + ?r = length (mr_pending run)" by (rule sum_length_filter_compl)
  have "?l < 2 ^ 64" "unat (rr_quote_updates_landed (mr_report run)) + ?l < 2 ^ 64"
    using b sum u64_bound[of "rr_quote_updates_sent (mr_report run)"] by (simp_all add: updates_balanced_def)
  then have "unat (rr_quote_updates_landed (mr_report run) + of_nat ?l)
      = unat (rr_quote_updates_landed (mr_report run)) + ?l"
    by (simp add: unat_add_fits unat_of_nat_fits)
  with b sum show ?thesis
    by (simp add: updates_balanced_def land_def apply_landed_quote_updates_def Let_def)
qed

lemma enter_slot_keeps:
  "mr_state (enter_slot s run) = (mr_state run)\<lparr>now_slot := s\<rparr>"
  "trade_part (mr_report (enter_slot s run)) = trade_part (mr_report run)"
  "rr_quote_updates_sent (mr_report (enter_slot s run)) = rr_quote_updates_sent (mr_report run)"
  "updates_balanced (enter_slot s run) = updates_balanced run"
  "mr_pending (enter_slot s run) = mr_pending run"
  by (simp_all add: enter_slot_def Let_def trade_part_def updates_balanced_def)

text \<open>A filled trade was fresh, aging or protected.\<close>

lemma filled_age:
  assumes "reference_quote_exact_in s p a b2q = Ok q"
  shows "rq_age_state q \<noteq> Expired" "rq_age_state q \<noteq> Paused"
  using swap_contractD[OF assms]
  by (auto simp: swap_contract_def swap_open_def age_state_of_def split: if_splits)

lemma execute_slot_keeps:
  assumes "execute_reference_quote_slot r st params slot = Ok (r', st')"
    and "trades_balanced r" "unat (rr_trades_attempted r) + 1 < 2 ^ 64"
  shows "trades_balanced r'"
    and "unat (rr_trades_attempted r') = unat (rr_trades_attempted r) + (if ms_flow slot = None then 0 else 1)"
proof -
  have le: "unat (rr_trades_filled r) + 1 < 2 ^ 64" "unat (rr_rejected_stale r) + 1 < 2 ^ 64"
    "unat (rr_rejected_protected r) + 1 < 2 ^ 64" "unat (rr_rejected_inventory r) + 1 < 2 ^ 64"
    "unat (rr_rejected_other r) + 1 < 2 ^ 64" "unat (rr_fresh_fills r) + 1 < 2 ^ 64"
    "unat (rr_aging_fills r) + 1 < 2 ^ 64" "unat (rr_protected_fills r) + 1 < 2 ^ 64"
    using assms(2,3) by (simp_all add: trades_balanced_def)
  note inc = le[THEN unat_inc] assms(3)[THEN unat_inc]
  have "trades_balanced r' \<and> unat (rr_trades_attempted r')
      = unat (rr_trades_attempted r) + (if ms_flow slot = None then 0 else 1)"
  proof (cases "ms_flow slot")
    case None
    with assms show ?thesis by (simp add: execute_reference_quote_slot_def)
  next
    case (Some flow)
    show ?thesis
    proof (cases "reference_quote_exact_in st params (fo_amount_in flow) (fo_side flow = BaseToQuote)")
      case (Inl e)
      with assms Some show ?thesis
        by (cases e) (auto simp: execute_reference_quote_slot_def count_rejection_def Let_def
            trades_balanced_def inc)
    next
      case (Inr q)
      with assms(1) Some obtain fee edge where
        "record_fill (r\<lparr>rr_trades_attempted := rr_trades_attempted r + 1\<rparr>) st q fee edge = (r', st')"
        by (auto simp: execute_reference_quote_slot_def Let_def and_then_eq_Ok)
      then show ?thesis using filled_age[OF Inr] assms(2) Some
        by (cases "rq_age_state q") (auto simp: record_fill_def Let_def trades_balanced_def inc)
    qed
  qed
  then show "trades_balanced r'" "unat (rr_trades_attempted r')
      = unat (rr_trades_attempted r) + (if ms_flow slot = None then 0 else 1)" by simp_all
qed

lemma execute_slot_updates:
  assumes "execute_reference_quote_slot r st params slot = Ok (r', st')"
  shows "rr_quote_updates_sent r' = rr_quote_updates_sent r"
    "rr_quote_updates_landed r' = rr_quote_updates_landed r"
    "rr_quote_updates_dropped r' = rr_quote_updates_dropped r"
    "rr_max_quote_age_slots r' = rr_max_quote_age_slots r"
    "mid_publish_slot st' = mid_publish_slot st" "now_slot st' = now_slot st" "paused st' = paused st"
    "target_base_inventory st' = target_base_inventory st"
proof -
  have *: "rr_quote_updates_sent r' = rr_quote_updates_sent r
    \<and> rr_quote_updates_landed r' = rr_quote_updates_landed r
    \<and> rr_quote_updates_dropped r' = rr_quote_updates_dropped r
    \<and> rr_max_quote_age_slots r' = rr_max_quote_age_slots r
    \<and> mid_publish_slot st' = mid_publish_slot st \<and> now_slot st' = now_slot st \<and> paused st' = paused st
    \<and> target_base_inventory st' = target_base_inventory st"
  proof (cases "ms_flow slot")
    case None
    with assms show ?thesis by (simp add: execute_reference_quote_slot_def)
  next
    case (Some flow)
    show ?thesis
    proof (cases "reference_quote_exact_in st params (fo_amount_in flow) (fo_side flow = BaseToQuote)")
      case (Inl e)
      with assms Some show ?thesis
        by (cases e) (auto simp: execute_reference_quote_slot_def count_rejection_def Let_def)
    next
      case (Inr q)
      with assms(1) Some obtain fee edge where
        "record_fill (r\<lparr>rr_trades_attempted := rr_trades_attempted r + 1\<rparr>) st q fee edge = (r', st')"
        by (auto simp: execute_reference_quote_slot_def Let_def and_then_eq_Ok)
      then show ?thesis
        by (cases "rq_age_state q") (auto simp: record_fill_def Let_def)
    qed
  qed
  then show "rr_quote_updates_sent r' = rr_quote_updates_sent r"
    "rr_quote_updates_landed r' = rr_quote_updates_landed r"
    "rr_quote_updates_dropped r' = rr_quote_updates_dropped r"
    "rr_max_quote_age_slots r' = rr_max_quote_age_slots r"
    "mid_publish_slot st' = mid_publish_slot st" "now_slot st' = now_slot st" "paused st' = paused st"
    "target_base_inventory st' = target_base_inventory st"
    by simp_all
qed

lemma process_slot_cases [consumes 1, case_names slot]:
  assumes "process_slot order params slot run = Ok run'"
  obtains t r st where
    "(case order of UpdateBeforeSwap \<Rightarrow> ms_slot slot | SwapBeforeUpdate \<Rightarrow> saturating_sub (ms_slot slot) 1) = t"
    and "execute_reference_quote_slot (mr_report (enter_slot (ms_slot slot) (land t run)))
      (mr_state (enter_slot (ms_slot slot) (land t run))) params slot = Ok (r, st)"
    and "run' = (if order = SwapBeforeUpdate
      then land (ms_slot slot) ((enter_slot (ms_slot slot) (land t run))\<lparr>mr_report := r, mr_state := st\<rparr>)
      else (enter_slot (ms_slot slot) (land t run))\<lparr>mr_report := r, mr_state := st\<rparr>)"
  using assms by (auto simp: process_slot_def Let_def and_then_eq_Ok)

lemma process_slot_keeps:
  assumes run': "process_slot order params slot run = Ok run'"
    and bal: "updates_balanced run" "trades_balanced (mr_report run)"
    and room: "unat (rr_trades_attempted (mr_report run)) + 1 < 2 ^ 64"
  shows "updates_balanced run'" "trades_balanced (mr_report run')"
    "unat (rr_trades_attempted (mr_report run')) = unat (rr_trades_attempted (mr_report run))
       + (if ms_flow slot = None then 0 else 1)"
    "rr_quote_updates_sent (mr_report run') = rr_quote_updates_sent (mr_report run)"
proof -
  obtain t r st where
    ex: "execute_reference_quote_slot (mr_report (enter_slot (ms_slot slot) (land t run)))
      (mr_state (enter_slot (ms_slot slot) (land t run))) params slot = Ok (r, st)"
    and out: "run' = (if order = SwapBeforeUpdate
      then land (ms_slot slot) ((enter_slot (ms_slot slot) (land t run))\<lparr>mr_report := r, mr_state := st\<rparr>)
      else (enter_slot (ms_slot slot) (land t run))\<lparr>mr_report := r, mr_state := st\<rparr>)"
    using run' by (rule process_slot_cases)
  let ?run = "enter_slot (ms_slot slot) (land t run)"
  have part: "trade_part (mr_report ?run) = trade_part (mr_report run)"
    by (simp add: enter_slot_keeps land_keeps)
  then have att: "rr_trades_attempted (mr_report ?run) = rr_trades_attempted (mr_report run)"
    by (simp add: trade_part_def)
  have "trades_balanced (mr_report ?run)" using trades_balanced_part[OF part] bal(2) by simp
  note r = execute_slot_keeps[OF ex this, unfolded att, OF room]
  have mid: "updates_balanced (?run\<lparr>mr_report := r, mr_state := st\<rparr>)"
    using land_updates_balanced[OF bal(1), of t] execute_slot_updates[OF ex]
    by (simp add: updates_balanced_def enter_slot_def Let_def)
  then show "updates_balanced run'" using land_updates_balanced[OF mid] by (simp add: out)
  have part': "trade_part (mr_report run') = trade_part r" by (simp add: out land_keeps)
  then show "trades_balanced (mr_report run')" using r(1) trades_balanced_part by blast
  show "unat (rr_trades_attempted (mr_report run')) = unat (rr_trades_attempted (mr_report run))
       + (if ms_flow slot = None then 0 else 1)"
    using r(2) part' by (simp add: trade_part_def)
  show "rr_quote_updates_sent (mr_report run') = rr_quote_updates_sent (mr_report run)"
    using execute_slot_updates(1)[OF ex] by (simp add: out land_keeps enter_slot_keeps)
qed

text \<open>
  The contract of a feed: it leaves the trades alone and keeps the update counters balanced, as
  long as its own invariant on the number of updates sent holds.
\<close>

locale quote_feed =
  fixes feed :: "'f \<Rightarrow> market_slot \<Rightarrow> market_run \<Rightarrow> ('f \<times> market_run) option"
    and feed_inv :: "'f \<Rightarrow> u64 \<Rightarrow> bool"
  assumes feed_trades: "feed f slot run = Some (f', run') \<Longrightarrow>
      trade_part (mr_report run') = trade_part (mr_report run)"
    and feed_updates: "feed f slot run = Some (f', run') \<Longrightarrow>
      feed_inv f (rr_quote_updates_sent (mr_report run)) \<Longrightarrow> updates_balanced run \<Longrightarrow>
      feed_inv f' (rr_quote_updates_sent (mr_report run')) \<and> updates_balanced run'"
begin

lemma slots_balanced:
  assumes "simulate_slots feed order params slots previous f run = Some (Ok run')"
    and "feed_inv f (rr_quote_updates_sent (mr_report run))" "updates_balanced run"
    and "trades_balanced (mr_report run)"
    and "unat (rr_trades_attempted (mr_report run)) + length slots < 2 ^ 64"
  shows "updates_balanced run' \<and> trades_balanced (mr_report run')
    \<and> unat (rr_trades_attempted (mr_report run'))
      = unat (rr_trades_attempted (mr_report run)) + length (filter (\<lambda>s. ms_flow s \<noteq> None) slots)"
  using assms
proof (induction slots arbitrary: previous f run)
  case Nil
  then show ?case by simp
next
  case (Cons slot slots)
  from Cons.prems(1) obtain f1 run1 run2 where f: "feed f slot run = Some (f1, run1)"
    and p: "process_slot order params slot run1 = Ok run2"
    and rest: "simulate_slots feed order params slots (Some (ms_slot slot)) f1 run2 = Some (Ok run')"
    by (rule simulate_slots_ConsE)
  note u = feed_updates[OF f Cons.prems(2,3)]
  have part: "trade_part (mr_report run1) = trade_part (mr_report run)" by (rule feed_trades[OF f])
  then have att: "rr_trades_attempted (mr_report run1) = rr_trades_attempted (mr_report run)"
    by (simp add: trade_part_def)
  have t: "trades_balanced (mr_report run1)" using trades_balanced_part[OF part] Cons.prems(4) by simp
  have room: "unat (rr_trades_attempted (mr_report run1)) + 1 < 2 ^ 64" using Cons.prems(5) att by simp
  note k = process_slot_keeps[OF p conjunct2[OF u] t room]
  have "unat (rr_trades_attempted (mr_report run2)) + length slots < 2 ^ 64"
    using k(3) Cons.prems(5) att by simp
  from Cons.IH[OF rest _ k(1,2) this] u k(3,4) att show ?case by simp
qed

end

section \<open>The two feeds\<close>

lemma send_update_keeps:
  "mr_state (send_update u run) = mr_state run"
  "trade_part (mr_report (send_update u run)) = trade_part (mr_report run)"
  "rr_quote_updates_sent (mr_report (send_update u run)) = rr_quote_updates_sent (mr_report run) + 1"
  "rr_max_quote_age_slots (mr_report (send_update u run)) = rr_max_quote_age_slots (mr_report run)"
  "mr_pending (send_update u run) = mr_pending run @ (case u of None \<Rightarrow> [] | Some u \<Rightarrow> [u])"
  by (cases u; simp add: send_update_def Let_def trade_part_def)+

lemma send_update_balanced:
  assumes "updates_balanced run" "unat (rr_quote_updates_sent (mr_report run)) + 1 < 2 ^ 64"
  shows "updates_balanced (send_update u run)"
proof -
  have "unat (rr_quote_updates_dropped (mr_report run)) + 1 < 2 ^ 64"
    using assms by (simp add: updates_balanced_def)
  with assms show ?thesis
    by (cases u) (simp_all add: send_update_def Let_def updates_balanced_def unat_inc)
qed

lemma replay_due_trades:
  "replay_due slot us run = (us', run') \<Longrightarrow> trade_part (mr_report run') = trade_part (mr_report run)"
  by (induction slot us run rule: replay_due.induct) (auto simp: send_update_keeps split: if_splits)

lemma replay_due_balanced:
  "replay_due slot us run = (us', run') \<Longrightarrow>
   unat (rr_quote_updates_sent (mr_report run)) + length us < 2 ^ 64 \<Longrightarrow> updates_balanced run \<Longrightarrow>
   unat (rr_quote_updates_sent (mr_report run')) + length us' < 2 ^ 64 \<and> updates_balanced run'"
proof (induction slot us run rule: replay_due.induct)
  case (2 slot u us run)
  show ?case
  proof (cases "ms_slot slot < qe_publish_slot u")
    case True
    with "2.prems" show ?thesis by auto
  next
    case False
    have room: "unat (rr_quote_updates_sent (mr_report run)) + 1 < 2 ^ 64" using "2.prems"(2) by simp
    have "unat (rr_quote_updates_sent (mr_report run) + 1) + length us < 2 ^ 64"
      using "2.prems"(2) unat_inc[OF room] by simp
    then show ?thesis
      using False "2.prems"(1) send_update_balanced[OF "2.prems"(3) room]
      by (intro "2.IH"[OF False]) (simp_all add: send_update_keeps)
  qed
qed auto

interpretation replays: quote_feed replay_feed
  "\<lambda>us sent. unat sent + length us < 2 ^ 64"
  by unfold_locales (auto simp: replay_feed_def dest: replay_due_trades replay_due_balanced)

text \<open>A policy has sent fewer updates than its next slot number.\<close>

definition policy_update :: "quote_update_policy \<Rightarrow> market_slot \<Rightarrow> u64 \<Rightarrow> pending_quote_update option" where
  "policy_update policy slot n =
    (if quote_update_should_land policy n
     then Some \<lparr>pu_publish_slot = n, pu_landing_slot = saturating_add n (qp_landing_latency_slots policy),
        pu_mid_price = ms_fair_price slot\<rparr>
     else None)"

definition policy_step_keeps ::
    "(u64 \<Rightarrow> market_run \<Rightarrow> bool) \<Rightarrow> quote_update_policy \<Rightarrow> market_slot \<Rightarrow> bool" where
  "policy_step_keeps Q policy slot \<longleftrightarrow> (\<forall>n run. n \<le> ms_slot slot \<longrightarrow> Q n run \<longrightarrow>
     Q (saturating_add n (qp_maker_update_period_slots policy)) (send_update (policy_update policy slot n) run))"

lemma send_due_induct:
  assumes "send_due policy slot n run = Some res"
    and "policy_step_keeps Q policy slot" "Q n run"
  shows "Q (fst res) (snd res) \<and> ms_slot slot < fst res"
proof -
  have "policy_step_keeps Q policy slot \<longrightarrow> Q n run \<longrightarrow> Q (fst res) (snd res) \<and> ms_slot slot < fst res"
    by (rule send_due.raw_induct[of "\<lambda>policy slot n run res.
        policy_step_keeps Q policy slot \<longrightarrow> Q n run \<longrightarrow> Q (fst res) (snd res) \<and> ms_slot slot < fst res",
        OF _ assms(1)])
      (auto simp: policy_step_keeps_def policy_update_def linorder_not_le split: if_splits)
  with assms(2,3) show ?thesis by blast
qed

text \<open>A policy has sent fewer updates than its next slot number.\<close>

lemma policy_feed_trades:
  assumes "policy_feed policy n slot run = Some (n', run')"
  shows "trade_part (mr_report run') = trade_part (mr_report run)"
proof -
  have k: "policy_step_keeps (\<lambda>_ r. trade_part (mr_report r) = trade_part (mr_report run)) policy slot"
    by (simp add: policy_step_keeps_def send_update_keeps)
  show ?thesis
    using send_due_induct[OF assms[unfolded policy_feed_def] k refl] by simp
qed

section \<open>Accounting of whole runs\<close>

lemma policy_feed_returns:
  assumes "policy_feed policy n slot run = Some (n', run')"
  shows "ms_slot slot < - 1" "ms_slot slot < n'"
proof -
  have k: "policy_step_keeps (\<lambda>_ _. True) policy slot" by (simp add: policy_step_keeps_def)
  show "ms_slot slot < n'"
    using send_due_induct[OF assms[unfolded policy_feed_def] k TrueI] by simp
  then show "ms_slot slot < - 1" by (rule less_le_trans) simp
qed

definition policy_ahead :: "quote_update_policy \<Rightarrow> u64 \<Rightarrow> u64 \<Rightarrow> bool" where
  "policy_ahead policy n sent \<longleftrightarrow> qp_maker_update_period_slots policy \<noteq> 0 \<and> unat sent < unat n"

lemma policy_ahead_step:
  assumes "policy_ahead policy n sent" "n < - 1"
  shows "policy_ahead policy (saturating_add n (qp_maker_update_period_slots policy)) (sent + 1)"
proof -
  have n: "unat n < 2 ^ 64 - 1" using assms(2) by (simp add: word_less_nat_alt unat_max_word)
  have p: "0 < unat (qp_maker_update_period_slots policy)"
    using assms(1) by (simp add: policy_ahead_def unat_gt_0)
  have "unat (sent + 1) = unat sent + 1"
    using assms(1) n by (intro unat_inc) (simp add: policy_ahead_def)
  with assms(1) n p show ?thesis by (simp add: policy_ahead_def unat_saturating_add)
qed

lemma policy_feed_balanced:
  assumes feed: "policy_feed policy n slot run = Some (n', run')"
    and "policy_ahead policy n (rr_quote_updates_sent (mr_report run))" "updates_balanced run"
  shows "policy_ahead policy n' (rr_quote_updates_sent (mr_report run')) \<and> updates_balanced run'"
proof -
  let ?Q = "\<lambda>n run. policy_ahead policy n (rr_quote_updates_sent (mr_report run)) \<and> updates_balanced run"
  have k: "policy_step_keeps ?Q policy slot"
    unfolding policy_step_keeps_def
  proof (intro allI impI)
    fix n run assume n: "n \<le> ms_slot slot" and q: "?Q n run"
    have "n < - 1" using n policy_feed_returns(1)[OF feed] by (rule le_less_trans)
    moreover from this have "unat (rr_quote_updates_sent (mr_report run)) + 1 < 2 ^ 64"
      using q by (simp add: policy_ahead_def word_less_nat_alt unat_max_word)
    ultimately show "?Q (saturating_add n (qp_maker_update_period_slots policy))
        (send_update (policy_update policy slot n) run)"
      using q by (simp add: send_update_keeps send_update_balanced policy_ahead_step)
  qed
  show ?thesis
    using send_due_induct[OF feed[unfolded policy_feed_def] k] assms(2,3) by simp
qed

interpretation policies: quote_feed "policy_feed policy" "policy_ahead policy" for policy
  by unfold_locales (erule policy_feed_trades, rule policy_feed_balanced)

lemma initial_run_balanced:
  "updates_balanced (initial_run scenario)" "trades_balanced (mr_report (initial_run scenario))"
  "rr_quote_updates_sent (mr_report (initial_run scenario)) = 0"
  "rr_trades_attempted (mr_report (initial_run scenario)) = 0"
  by (simp_all add: initial_run_def updates_balanced_def trades_balanced_def)

lemma validated_policy:
  "validate_quote_update_policy policy = Ok () \<longleftrightarrow> qp_maker_update_period_slots policy \<noteq> 0
     \<and> qp_update_success_probability_bps policy \<le> 10000"
  by (auto simp: validate_quote_update_policy_def)

lemma market_path_run:
  assumes "simulate_reference_quote_market_path scenario slots = Some (Ok r)"
  obtains run where "validate_quote_update_policy (rs_quote_update_policy scenario) = Ok ()"
    and "simulate_slots (policy_feed (rs_quote_update_policy scenario))
        (qp_same_slot_order (rs_quote_update_policy scenario)) (rs_params scenario) slots None
        (qp_maker_update_period_slots (rs_quote_update_policy scenario)) (initial_run scenario) = Some (Ok run)"
    and "r = finish_report run"
  using assms by (auto simp: simulate_reference_quote_market_path_def Let_def map_ok_eq split: sum.splits)

lemma replay_run:
  assumes "simulate_reference_quote_replay scenario replay = Some (Ok r)"
  obtains run where "validate_quote_update_policy (rs_quote_update_policy scenario) = Ok ()"
    and "validate_quote_updates (rp_quote_updates replay) = Ok ()"
    and "simulate_slots replay_feed
        (qp_same_slot_order (rs_quote_update_policy scenario)) (rs_params scenario) (rp_slots replay) None
        (rp_quote_updates replay) (initial_run scenario) = Some (Ok run)"
    and "r = finish_report run"
  using assms by (auto simp: simulate_reference_quote_replay_def Let_def map_ok_eq and_then_eq_Ok split: sum.splits)

definition report_accounts :: "reference_quote_report \<Rightarrow> market_slot list \<Rightarrow> bool" where
  "report_accounts r slots \<longleftrightarrow>
     unat (rr_trades_attempted r) = length (filter (\<lambda>s. ms_flow s \<noteq> None) slots)
   \<and> unat (rr_trades_attempted r) = unat (rr_trades_filled r) + unat (rr_rejected_stale r)
       + unat (rr_rejected_protected r) + unat (rr_rejected_inventory r) + unat (rr_rejected_other r)
   \<and> unat (rr_trades_filled r) = unat (rr_fresh_fills r) + unat (rr_aging_fills r) + unat (rr_protected_fills r)
   \<and> unat (rr_quote_updates_landed r) + unat (rr_quote_updates_dropped r) \<le> unat (rr_quote_updates_sent r)"

lemma finish_report_accounts:
  assumes "updates_balanced run" "trades_balanced (mr_report run)"
    and "unat (rr_trades_attempted (mr_report run)) = length (filter (\<lambda>s. ms_flow s \<noteq> None) slots)"
  shows "report_accounts (finish_report run) slots"
  using assms by (simp add: report_accounts_def finish_report_def updates_balanced_def trades_balanced_def)

lemma path_accounts:
  assumes "simulate_reference_quote_market_path scenario slots = Some (Ok r)" and "length slots < 2 ^ 64"
  shows "report_accounts r slots"
proof -
  from assms(1) obtain run where v: "validate_quote_update_policy (rs_quote_update_policy scenario) = Ok ()"
    and run: "simulate_slots (policy_feed (rs_quote_update_policy scenario))
        (qp_same_slot_order (rs_quote_update_policy scenario)) (rs_params scenario) slots None
        (qp_maker_update_period_slots (rs_quote_update_policy scenario)) (initial_run scenario) = Some (Ok run)"
    and r: "r = finish_report run" by (rule market_path_run)
  have "policy_ahead (rs_quote_update_policy scenario)
      (qp_maker_update_period_slots (rs_quote_update_policy scenario)) 0"
    using v by (simp add: validated_policy policy_ahead_def unat_gt_0)
  with policies.slots_balanced[OF run] assms(2) show ?thesis
    by (simp add: initial_run_balanced r finish_report_accounts)
qed

text \<open>
  C20: in a simulated market path every slot with a flow is one attempted trade, which is filled
  or rejected for exactly one reason; every fill was on a fresh, aging or protected quote; and
  updates landed or dropped were sent before.
\<close>

theorem market_path_accounts:
  assumes "simulate_reference_quote_market_path scenario slots = Some (Ok r)" and "length slots < 2 ^ 64"
  shows "report_accounts r slots"
  using assms by (rule path_accounts)

text \<open>
  The same accounting for a replay of recorded updates.
\<close>

lemma replay_accounts:
  assumes "simulate_reference_quote_replay scenario replay = Some (Ok r)"
    and "length (rp_slots replay) < 2 ^ 64" "length (rp_quote_updates replay) < 2 ^ 64"
  shows "report_accounts r (rp_slots replay)"
proof -
  from assms(1) obtain run where run: "simulate_slots replay_feed
        (qp_same_slot_order (rs_quote_update_policy scenario)) (rs_params scenario) (rp_slots replay) None
        (rp_quote_updates replay) (initial_run scenario) = Some (Ok run)"
    and r: "r = finish_report run" by (rule replay_run)
  with replays.slots_balanced[OF run] assms(2,3) show ?thesis
    by (simp add: initial_run_balanced r finish_report_accounts)
qed

section \<open>A concrete run\<close>

definition sim_assumptions :: scenario_assumptions where
  "sim_assumptions = \<lparr>sc_name = ''example'', sc_flow_model = ''fixed'', sc_landing_model = ''punctual'',
     sc_path_count = 1\<rparr>"

definition sim_policy :: quote_update_policy where
  "sim_policy = \<lparr>qp_maker_update_period_slots = 4, qp_landing_latency_slots = 2,
     qp_update_success_probability_bps = 10000, qp_failure_seed = 7,
     qp_same_slot_order = SwapBeforeUpdate\<rparr>"

definition sim_scenario :: reference_quote_scenario where
  "sim_scenario = \<lparr>rs_assumptions = sim_assumptions, rs_initial_base_inventory = 1000000000,
     rs_initial_quote_inventory = 1000000000, rs_target_base_inventory = 1000000000,
     rs_initial_mid_price = ONE, rs_quote_update_policy = sim_policy,
     rs_params = example_params\<rparr>"

definition sim_slots :: "market_slot list" where
  "sim_slots = [\<lparr>ms_slot = 9, ms_fair_price = ONE,
      ms_flow = Some \<lparr>fo_side = BaseToQuote, fo_amount_in = 1000000\<rparr>\<rparr>,
     \<lparr>ms_slot = 12, ms_fair_price = ONE,
      ms_flow = Some \<lparr>fo_side = QuoteToBase, fo_amount_in = 0\<rparr>\<rparr>]"

definition outcome_is :: "(reference_quote_report \<Rightarrow> bool) \<Rightarrow> (math_error + reference_quote_report) option \<Rightarrow> bool" where
  "outcome_is P x = (case x of Some (Inr r) \<Rightarrow> P r | _ \<Rightarrow> False)"

lemma outcome_isD: "outcome_is P x \<Longrightarrow> \<exists>r. x = Some (Ok r) \<and> P r"
  by (auto simp: outcome_is_def split: option.splits sum.splits)

lemma sim_run_outcome:
  "\<exists>r. simulate_reference_quote_market_path sim_scenario sim_slots = Some (Ok r)
     \<and> rr_trades_filled r = 1 \<and> rr_rejected_other r = 1 \<and> rr_quote_updates_sent r = 3
     \<and> rr_max_quote_age_slots r = 5"
proof (rule outcome_isD)
  show "outcome_is (\<lambda>r. rr_trades_filled r = 1 \<and> rr_rejected_other r = 1 \<and> rr_quote_updates_sent r = 3
     \<and> rr_max_quote_age_slots r = 5) (simulate_reference_quote_market_path sim_scenario sim_slots)"
    by code_simp
qed

theorem market_path_accounts_witness:
  "\<exists>r. simulate_reference_quote_market_path sim_scenario sim_slots = Some (Ok r)
     \<and> rr_trades_filled r = 1 \<and> report_accounts r sim_slots"
proof -
  from sim_run_outcome obtain r where run: "simulate_reference_quote_market_path sim_scenario sim_slots = Some (Ok r)"
    and "rr_trades_filled r = 1" by blast
  moreover have "report_accounts r sim_slots"
    by (rule market_path_accounts[OF run]) (simp add: sim_slots_def)
  ultimately show ?thesis by blast
qed

text \<open>
  A replay whose second update overtakes the first: the older quote is installed when it lands
  late, and the quote of slot 25 is dated 2 although the one dated 3 had already been installed.
\<close>

definition sim_replay :: replay_market_path where
  "sim_replay = \<lparr>rp_slots = [\<lparr>ms_slot = 9, ms_fair_price = ONE,
       ms_flow = Some \<lparr>fo_side = BaseToQuote, fo_amount_in = 0\<rparr>\<rparr>,
      \<lparr>ms_slot = 21, ms_fair_price = ONE, ms_flow = None\<rparr>],
     rp_quote_updates = [\<lparr>qe_publish_slot = 2, qe_landing_slot = Some 20, qe_mid_price = ONE\<rparr>,
       \<lparr>qe_publish_slot = 3, qe_landing_slot = Some 8, qe_mid_price = ONE\<rparr>,
       \<lparr>qe_publish_slot = 4, qe_landing_slot = None, qe_mid_price = ONE\<rparr>]\<rparr>"

lemma sim_replay_outcome:
  "\<exists>r. simulate_reference_quote_replay sim_scenario sim_replay = Some (Ok r)
     \<and> rr_rejected_other r = 1 \<and> rr_quote_updates_landed r = 2 \<and> rr_max_quote_age_slots r = 19"
proof (rule outcome_isD)
  show "outcome_is (\<lambda>r. rr_rejected_other r = 1 \<and> rr_quote_updates_landed r = 2 \<and> rr_max_quote_age_slots r = 19)
      (simulate_reference_quote_replay sim_scenario sim_replay)"
    by code_simp
qed

theorem replay_accounts_witness:
  "\<exists>r. simulate_reference_quote_replay sim_scenario sim_replay = Some (Ok r)
     \<and> rr_quote_updates_landed r = 2 \<and> report_accounts r (rp_slots sim_replay)"
proof -
  from sim_replay_outcome obtain r where run: "simulate_reference_quote_replay sim_scenario sim_replay = Some (Ok r)"
    and "rr_quote_updates_landed r = 2" by blast
  moreover have "report_accounts r (rp_slots sim_replay)"
    by (rule replay_accounts[OF run]) (simp_all add: sim_replay_def)
  ultimately show ?thesis by blast
qed

text \<open>The queue installs what lands last, whatever its publish slot.\<close>

theorem replay_reinstalls_older_quote:
  "let old = \<lparr>pu_publish_slot = 2, pu_landing_slot = 20, pu_mid_price = ONE\<rparr>;
       recent = \<lparr>pu_publish_slot = 3, pu_landing_slot = 8, pu_mid_price = ONE\<rparr>;
       (landed, st, rest) = apply_landed_quote_updates example_state [old, recent] 9;
       (landed', st', rest') = apply_landed_quote_updates st rest 25
   in mid_publish_slot st = 3 \<and> mid_publish_slot st' = 2 \<and> rest' = []"
  by (simp add: apply_landed_quote_updates_def Let_def)

end
