(* ===== verification/Program_Simulation.thy ===== *)
theory Program_Simulation imports Program_Ledger Sim_Accounting begin

text \<open>
  The simulator against the program it stands for: on one swap the slot step of
  \<open>crates/meta_amm_sim/src/lib.rs\<close> and the instruction \<open>swap_exact_in\<close> of
  \<open>programs/meta_amm/src/lib.rs\<close> agree on every outcome, and replaying the recorded transactions of
  a pool in the simulator reproduces every fill and the final vaults.
\<close>

section \<open>One swap\<close>

definition side_of :: "bool \<Rightarrow> side" where
  "side_of base_to_quote = (if base_to_quote then BaseToQuote else QuoteToBase)"

lemma side_of_eq [simp]: "(side_of b = BaseToQuote) = b"
  by (simp add: side_of_def)

definition trade_slot :: "swap_args \<Rightarrow> u64 \<Rightarrow> q64x64 \<Rightarrow> market_slot" where
  "trade_slot args slot fair = \<lparr>ms_slot = slot, ms_fair_price = fair,
     ms_flow = Some \<lparr>fo_side = side_of (sw_base_to_quote args), fo_amount_in = sw_amount_in args\<rparr>\<rparr>"

text \<open>The rejection counter of a report that stands for a refusal of the program.\<close>

definition counted :: "meta_amm_error \<Rightarrow> reference_quote_report \<Rightarrow> reference_quote_report option" where
  "counted e report = (case e of
     StaleReferenceQuote \<Rightarrow> Some (report\<lparr>rr_rejected_stale := rr_rejected_stale report + 1\<rparr>)
   | ProtectedQuoteTradeLimit \<Rightarrow> Some (report\<lparr>rr_rejected_protected := rr_rejected_protected report + 1\<rparr>)
   | InventoryBandExceeded \<Rightarrow> Some (report\<lparr>rr_rejected_inventory := rr_rejected_inventory report + 1\<rparr>)
   | InvalidSwapAmount \<Rightarrow> Some (report\<lparr>rr_rejected_other := rr_rejected_other report + 1\<rparr>)
   | EmptyPoolLiquidity \<Rightarrow> Some (report\<lparr>rr_rejected_other := rr_rejected_other report + 1\<rparr>)
   | _ \<Rightarrow> None)"

lemma counted_rejection: "count_rejection m report = counted (map_swap_math_error m) report"
  by (cases m) (simp_all add: count_rejection_def counted_def map_swap_math_error_def)

lemma not_slippage: "map_swap_math_error m \<noteq> SlippageExceeded"
  by (cases m) (simp_all add: map_swap_math_error_def)

lemma swap_after_checks:
  assumes "swap_checks rt signers acc args now w = Ok (pc, qs, ld)"
  shows "swap_exact_in rt signers acc args now w =
    (case reference_quote_exact_in (swap_state pc qs ld now) (swap_params pc qs)
        (sw_amount_in args) (sw_base_to_quote args) of
       Err m \<Rightarrow> Err (Custom (map_swap_math_error m))
     | Ok q \<Rightarrow> if rq_amount_out q < sw_minimum_amount_out args then Err (Custom SlippageExceeded)
         else swap_exact_in rt signers acc args now w)"
  using assms
  by (cases "reference_quote_exact_in (swap_state pc qs ld now) (swap_params pc qs)
        (sw_amount_in args) (sw_base_to_quote args)")
    (simp_all add: swap_exact_in_def require_def not_le[symmetric])

lemma swap_refused_late:
  assumes "swap_checks rt signers acc args now w = Ok (pc, qs, ld)"
    and "reference_quote_exact_in (swap_state pc qs ld now) (swap_params pc qs)
        (sw_amount_in args) (sw_base_to_quote args) = Ok q"
    and "swap_exact_in rt signers acc args now w = Err e"
  shows "e \<in> {Custom SlippageExceeded, TransferFailed}"
  using assms
  by (auto simp: swap_exact_in_def transfer_checked_def ok_or_def map_ok_def require_def and_then_def
      split: if_splits option.splits sum.splits)

lemma trade_slot_runs:
  "execute_reference_quote_slot r st params (trade_slot args now fair) =
    (let r1 = r\<lparr>rr_trades_attempted := rr_trades_attempted r + 1\<rparr>;
         event = \<lparr>fe_slot = now, fe_side = side_of (sw_base_to_quote args), fe_amount_in = sw_amount_in args,
           fe_fair_price = fair\<rparr>
     in case reference_quote_exact_in st params (sw_amount_in args) (sw_base_to_quote args) of
       Ok q \<Rightarrow> and_then (fee_in_quote_atoms event (rq_amount_in_less_fee q)) (\<lambda>fee.
         and_then (taker_edge_quote_atoms event (rq_amount_out q)) (\<lambda>edge. Ok (record_fill r1 st q fee edge)))
     | Err m \<Rightarrow> (case counted (map_swap_math_error m) r1 of Some r' \<Rightarrow> Ok (r', st) | None \<Rightarrow> Err m))"
  unfolding execute_reference_quote_slot_def trade_slot_def counted_rejection[symmetric] by simp

lemma record_fill_effect:
  "record_fill r st q fee edge = (r', st') \<Longrightarrow>
    rr_trades_filled r' = rr_trades_filled r + 1 \<and> rr_trades_attempted r' = rr_trades_attempted r
    \<and> rr_rejected_stale r' = rr_rejected_stale r \<and> rr_rejected_protected r' = rr_rejected_protected r
    \<and> rr_rejected_inventory r' = rr_rejected_inventory r \<and> rr_rejected_other r' = rr_rejected_other r
    \<and> rr_quote_updates_landed r' = rr_quote_updates_landed r
    \<and> rr_quote_updates_dropped r' = rr_quote_updates_dropped r
    \<and> st' = st\<lparr>base_inventory := rq_new_base_inventory q, quote_inventory := rq_new_quote_inventory q\<rparr>"
  by (cases "rq_age_state q") (auto simp: record_fill_def Let_def)

text \<open>
  A fill leaves the simulated maker with the vaults the program leaves.
\<close>

definition trade_filled :: "reference_quote_report \<Rightarrow> reference_quote_report \<Rightarrow> bool" where
  "trade_filled r r' \<longleftrightarrow> rr_trades_attempted r' = rr_trades_attempted r + 1
     \<and> rr_trades_filled r' = rr_trades_filled r + 1
     \<and> rr_rejected_stale r' = rr_rejected_stale r \<and> rr_rejected_protected r' = rr_rejected_protected r
     \<and> rr_rejected_inventory r' = rr_rejected_inventory r \<and> rr_rejected_other r' = rr_rejected_other r
     \<and> rr_quote_updates_landed r' = rr_quote_updates_landed r
     \<and> rr_quote_updates_dropped r' = rr_quote_updates_dropped r"

lemma priced_trade_filled:
  assumes "reference_quote_exact_in st params (sw_amount_in args) (sw_base_to_quote args) = Ok q"
    and "execute_reference_quote_slot r st params (trade_slot args now fair) = Ok (r', st')"
  shows "trade_filled r r' \<and> st' = st\<lparr>base_inventory := rq_new_base_inventory q,
      quote_inventory := rq_new_quote_inventory q\<rparr>"
proof -
  from assms obtain fee edge where
    "record_fill (r\<lparr>rr_trades_attempted := rr_trades_attempted r + 1\<rparr>) st q fee edge = (r', st')"
    by (auto simp: trade_slot_runs Let_def and_then_eq_Ok)
  from record_fill_effect[OF this] show ?thesis by (simp add: trade_filled_def)
qed

text \<open>
  A fill can only fail in the simulator when its report cannot value the fee or the taker's edge.
\<close>

definition valuation_fails :: "swap_args \<Rightarrow> u64 \<Rightarrow> q64x64 \<Rightarrow> reference_quote \<Rightarrow> math_error \<Rightarrow> bool" where
  "valuation_fails args now fair q m \<longleftrightarrow>
    (let event = \<lparr>fe_slot = now, fe_side = side_of (sw_base_to_quote args), fe_amount_in = sw_amount_in args,
           fe_fair_price = fair\<rparr>
     in fee_in_quote_atoms event (rq_amount_in_less_fee q) = Err m
      \<or> taker_edge_quote_atoms event (rq_amount_out q) = Err m)"

lemma priced_trade_fails:
  assumes "reference_quote_exact_in st params (sw_amount_in args) (sw_base_to_quote args) = Ok q"
    and "execute_reference_quote_slot r st params (trade_slot args now fair) = Err m"
  shows "valuation_fails args now fair q m"
  using assms by (auto simp: trade_slot_runs Let_def and_then_eq_Err valuation_fails_def)

text \<open>
  C12: once the accounts of a swap pass the program's checks, and on token programs whose transfers
  are exact except on mints with a transfer fee, the simulator's slot step on the same state and
  the program agree on the price: an accepted swap is a fill, and leaves the simulated inventories
  equal to the vaults; a swap the program priced but refused for the taker's minimum, or whose
  transfers failed, is a fill in the simulator, which knows neither; a fill fails in the simulator
  only when its report cannot value it; and every other refusal is counted under the counter of
  its error code, or stops the simulation with the error that code stands for.
\<close>

theorem simulator_agrees_on_swap:
  assumes exact: "exact_transfers rt" and ck: "swap_checks rt signers acc args now w = Ok (pc, qs, ld)"
    and taker: "ac_user acc \<noteq> ac_vault_authority acc" and mints: "ac_base_mint acc \<noteq> ac_quote_mint acc"
    and sim: "sim = execute_reference_quote_slot r (swap_state pc qs ld now) (swap_params pc qs)
        (trade_slot args now fair)"
  shows "case swap_exact_in rt signers acc args now w of
      Ok w' \<Rightarrow> (\<exists>q. reference_quote_exact_in (swap_state pc qs ld now) (swap_params pc qs)
              (sw_amount_in args) (sw_base_to_quote args) = Ok q
        \<and> (case sim of
              Ok (r', st') \<Rightarrow> trade_filled r r'
                \<and> balance (wd_tokens w') (ac_base_vault acc) = unat (base_inventory st')
                \<and> balance (wd_tokens w') (ac_quote_vault acc) = unat (quote_inventory st')
            | Err m \<Rightarrow> valuation_fails args now fair q m))
    | Err e \<Rightarrow>
        if e \<in> {Custom SlippageExceeded, TransferFailed}
        then (\<exists>q. reference_quote_exact_in (swap_state pc qs ld now) (swap_params pc qs)
              (sw_amount_in args) (sw_base_to_quote args) = Ok q
          \<and> (case sim of Ok (r', st') \<Rightarrow> trade_filled r r' | Err m \<Rightarrow> valuation_fails args now fair q m))
        else (\<exists>m. e = Custom (map_swap_math_error m)
          \<and> sim = (case counted (map_swap_math_error m) (r\<lparr>rr_trades_attempted := rr_trades_attempted r + 1\<rparr>) of
              Some r' \<Rightarrow> Ok (r', swap_state pc qs ld now) | None \<Rightarrow> Err m))"
proof (cases "reference_quote_exact_in (swap_state pc qs ld now) (swap_params pc qs)
        (sw_amount_in args) (sw_base_to_quote args)")
  case (Inl m)
  then show ?thesis
    using swap_after_checks[OF ck] not_slippage[of m] by (auto simp: sim trade_slot_runs)
next
  case (Inr q)
  note q = Inr
  note fill = priced_trade_filled[OF q, of r now fair, folded sim]
    and fails = priced_trade_fails[OF q, of r now fair, folded sim]
  show ?thesis
  proof (cases "swap_exact_in rt signers acc args now w")
    case (Inl e)
    with swap_refused_late[OF ck q Inl] q fill fails show ?thesis
      by (auto split: sum.split)
  next
    case (Inr w')
    obtain tokens where tr: "swap_transfers rt (wd_mints w) acc ld args (rq_amount_out q) (wd_tokens w) tokens"
      and w': "wd_tokens w' = tokens"
      using swap_Ok[OF Inr, folded swap_transfers_def] ck \<open>reference_quote_exact_in _ _ _ _ = Ok q\<close> by auto
    note facts = swap_checks_Ok[OF ck]
    have "fill_amounts (swap_state pc qs ld now) (sw_amount_in args) (rq_amount_in_less_fee q)
        (rq_effective_price q) (sw_base_to_quote args) (rq_amount_out q) (rq_new_base_inventory q)
        (rq_new_quote_inventory q)"
      using swap_contractD[OF \<open>reference_quote_exact_in _ _ _ _ = Ok q\<close>] by (simp add: swap_contract_def)
    note settle = swap_settlement(3,4)[OF exact tr swap_checks_plain[OF ck] swap_accounts_distinct[OF facts(4) taker mints] this]
    show ?thesis using Inr q settle fails by (auto simp: w' dest!: fill split: sum.split)
  qed
qed

section \<open>Recording a pool\<close>

text \<open>
  The replay file of a chain run: every accepted transaction is a slot, a swap its flow, and every
  accepted quote update is an update that landed in the slot of its transaction.
\<close>

definition recorded_slot :: "(u64 \<Rightarrow> q64x64) \<Rightarrow> receipt \<Rightarrow> market_slot" where
  "recorded_slot fair rc = (let tx = rc_transaction rc in case tx_instruction tx of
     Swap acc args \<Rightarrow> trade_slot args (tx_slot tx) (fair (tx_slot tx))
   | _ \<Rightarrow> \<lparr>ms_slot = tx_slot tx, ms_fair_price = fair (tx_slot tx), ms_flow = None\<rparr>)"

definition recorded_updates :: "receipt \<Rightarrow> quote_update_event list" where
  "recorded_updates rc = (let tx = rc_transaction rc in case tx_instruction tx of
     UpdateQuote acc args \<Rightarrow> [\<lparr>qe_publish_slot = ua_publish_slot args, qe_landing_slot = Some (tx_slot tx),
       qe_mid_price = Q64x64 (ua_mid_price_q64x64 args)\<rparr>]
   | _ \<Rightarrow> [])"

definition recorded_path :: "(u64 \<Rightarrow> q64x64) \<Rightarrow> receipt list \<Rightarrow> replay_market_path" where
  "recorded_path fair log = \<lparr>rp_slots = map (recorded_slot fair) log,
     rp_quote_updates = concat (map recorded_updates log)\<rparr>"

definition is_swap :: "receipt \<Rightarrow> bool" where
  "is_swap rc = (case tx_instruction (rc_transaction rc) of Swap _ _ \<Rightarrow> True | _ \<Rightarrow> False)"

definition rc_slot :: "receipt \<Rightarrow> u64" where
  "rc_slot rc = tx_slot (rc_transaction rc)"

text \<open>Price updates and swaps of one pool.\<close>

definition about_pool :: "pubkey \<Rightarrow> pubkey \<Rightarrow> pubkey \<Rightarrow> receipt \<Rightarrow> bool" where
  "about_pool pool quote_acc vault_acc rc = (case tx_instruction (rc_transaction rc) of
     UpdateQuote acc args \<Rightarrow> up_pool_config acc = pool \<and> up_quote_state acc = quote_acc
   | Swap acc args \<Rightarrow> ac_pool_config acc = pool \<and> ac_quote_state acc = quote_acc \<and> ac_vault_state acc = vault_acc
   | _ \<Rightarrow> False)"

text \<open>
  Slots never fall, and an update comes before everything else in its slot: the order
  \<open>update_before_swap\<close>, with at most one update in a slot.
\<close>

fun update_before_swap :: "receipt list \<Rightarrow> bool" where
  "update_before_swap [] \<longleftrightarrow> True"
| "update_before_swap (rc # rcs) \<longleftrightarrow> update_before_swap rcs
     \<and> (\<forall>rc' \<in> set rcs. rc_slot rc \<le> rc_slot rc' \<and> (is_swap rc' \<or> rc_slot rc < rc_slot rc'))"

text \<open>The fair prices given can value the fills: fee and edge of every swap fit their types.\<close>

definition can_value :: "(u64 \<Rightarrow> q64x64) \<Rightarrow> receipt \<Rightarrow> bool" where
  "can_value fair rc \<longleftrightarrow> (\<forall>ev \<in> set (rc_events rc).
     let event = \<lparr>fe_slot = rc_slot rc, fe_side = side_of (ev_base_to_quote ev),
           fe_amount_in = ev_amount_in ev, fe_fair_price = fair (rc_slot rc)\<rparr>
     in is_ok (fee_in_quote_atoms event (ev_amount_in_less_fee ev))
      \<and> is_ok (taker_edge_quote_atoms event (ev_amount_out ev)))"

section \<open>The simulated maker mirrors the accounts\<close>

definition mirrors ::
    "pubkey \<Rightarrow> pubkey \<Rightarrow> pubkey \<Rightarrow> reference_quote_params \<Rightarrow> world \<Rightarrow> reference_quote_state \<Rightarrow> bool" where
  "mirrors pool quote_acc vault_acc params w st \<longleftrightarrow> (\<exists>pc qs vs.
     wd_pools w pool = Some pc \<and> wd_quotes w quote_acc = Some qs \<and> wd_vaults w vault_acc = Some vs
   \<and> params = swap_params pc qs
   \<and> mid_price st = Q64x64 (qs_mid_price_q64x64 qs) \<and> mid_publish_slot st = qs_publish_slot qs
   \<and> target_base_inventory st = vs_target_base_inventory vs \<and> \<not> paused st
   \<and> int (unat (base_inventory st)) = base_held w vault_acc
   \<and> int (unat (quote_inventory st)) = quote_held w vault_acc)"

lemma update_recorded:
  assumes step: "receipt_step rt rc w w'" and about: "about_pool p q v rc" and not: "\<not> is_swap rc"
    and m: "mirrors p q v params w st"
  obtains u where "recorded_updates rc = [u]" "qe_landing_slot u = Some (rc_slot rc)"
    and "mid_publish_slot st \<le> qe_publish_slot u" "qe_publish_slot u \<le> rc_slot rc"
    and "mirrors p q v params w' (st\<lparr>mid_price := qe_mid_price u, mid_publish_slot := qe_publish_slot u\<rparr>)"
proof -
  from about not obtain acc args where ix: "tx_instruction (rc_transaction rc) = UpdateQuote acc args"
    and keys: "up_pool_config acc = p" "up_quote_state acc = q"
    by (auto simp: about_pool_def is_swap_def split: instruction.splits)
  have "update_reference_quote rt (tx_signers (rc_transaction rc)) acc args (rc_slot rc) w = Ok w'"
    using step by (simp add: receipt_step_def run_transaction_def execute_simps ix rc_slot_def)
  then obtain pc qs qs' where up: "load_update rt (tx_signers (rc_transaction rc)) acc w = Ok (pc, qs)"
      "apply_update qs (pc_authority pc) (up_quote_signer acc) args (rc_slot rc) = Ok qs'"
    and w': "w' = w\<lparr>wd_quotes := (wd_quotes w)(up_quote_state acc \<mapsto> qs')\<rparr>"
    using update_Ok by blast
  have acc: "wd_pools w p = Some pc" "wd_quotes w q = Some qs" using up(1) keys by (auto simp: load_simps)
  have qs': "qs' = qs\<lparr>qs_mid_price_q64x64 := ua_mid_price_q64x64 args, qs_publish_slot := ua_publish_slot args,
      qs_sequence := ua_sequence args, qs_last_update_slot := rc_slot rc\<rparr>"
    and le: "qs_publish_slot qs \<le> ua_publish_slot args" "ua_publish_slot args \<le> rc_slot rc"
    using up(2) by (auto simp: apply_update_Ok)
  let ?u = "\<lparr>qe_publish_slot = ua_publish_slot args, qe_landing_slot = Some (rc_slot rc),
      qe_mid_price = Q64x64 (ua_mid_price_q64x64 args)\<rparr>"
  have "qs_padding qs' = qs_padding qs" by (simp add: qs')
  then have "swap_params pc qs' = swap_params pc qs"
    by (simp add: swap_params_def quote_base_half_spread_bps_def Let_def split: if_split)
  with m acc keys have "mirrors p q v params w' (st\<lparr>mid_price := qe_mid_price ?u, mid_publish_slot := qe_publish_slot ?u\<rparr>)"
    by (auto simp: mirrors_def w' qs' base_held_def quote_held_def)
  moreover have "mid_publish_slot st \<le> qe_publish_slot ?u" using m acc le by (auto simp: mirrors_def)
  ultimately show thesis using le
    by (intro that[of ?u]) (simp_all add: recorded_updates_def ix rc_slot_def)
qed

lemma swap_recorded:
  assumes safe: "safe_world rt w" and step: "receipt_step rt rc w w'" and about: "about_pool p q v rc"
    and swap: "is_swap rc" and m: "mirrors p q v params w st" and val: "can_value fair rc"
    and now: "now_slot st = rc_slot rc"
  obtains r' st' where "execute_reference_quote_slot r st params (recorded_slot fair rc) = Ok (r', st')"
    and "trade_filled r r'" "mirrors p q v params w' st'" "mid_publish_slot st' = mid_publish_slot st"
    and "recorded_updates rc = []"
proof -
  let ?sg = "tx_signers (rc_transaction rc)"
  from about swap obtain acc args where ix: "tx_instruction (rc_transaction rc) = Swap acc args"
    and keys: "ac_pool_config acc = p" "ac_quote_state acc = q" "ac_vault_state acc = v"
    by (auto simp: about_pool_def is_swap_def split: instruction.splits)
  have run: "swap_exact_in rt ?sg acc args (rc_slot rc) w = Ok w'"
    using step by (simp add: receipt_step_def run_transaction_def execute_simps ix rc_slot_def)
  obtain pc qs ld qt tokens where ck: "swap_checks rt ?sg acc args (rc_slot rc) w = Ok (pc, qs, ld)"
    and qt: "reference_quote_exact_in (swap_state pc qs ld (rc_slot rc)) (swap_params pc qs)
        (sw_amount_in args) (sw_base_to_quote args) = Ok qt"
    and w': "w' = w\<lparr>wd_tokens := tokens, wd_events := wd_events w @ [swap_event acc args qs (rc_slot rc) qt]\<rparr>"
    using swap_Ok[OF run] by - (elim exE conjE, rule that, assumption+)
  note facts = swap_checks_Ok[OF ck]
  note side = load_vault_side_Ok[OF facts(4)]
  have acc: "wd_pools w p = Some pc" "wd_quotes w q = Some qs" "wd_vaults w v = Some (ld_vault ld)"
    using facts(2,3) side(1) keys by (auto simp: load_simps)
  have held: "base_held w v = int (unat (ta_amount (ld_base_vault ld)))"
    "quote_held w v = int (unat (ta_amount (ld_quote_vault ld)))"
    using side(7-10) acc(3) by (simp_all add: base_held_def quote_held_def load_simps balance_def)
  have "base_inventory st = ta_amount (ld_base_vault ld)" "quote_inventory st = ta_amount (ld_quote_vault ld)"
    using m held by (auto simp: mirrors_def intro: unsigned_word_eqI)
  then have st: "st = swap_state pc qs ld (rc_slot rc)" and params: "params = swap_params pc qs"
    using m acc now facts(9-11) by (auto simp: mirrors_def swap_state_def intro: reference_quote_state.equality)
  have events: "rc_events rc = [swap_event acc args qs (rc_slot rc) qt]"
    using step by (simp add: receipt_step_def w')
  let ?ev = "\<lparr>fe_slot = rc_slot rc, fe_side = side_of (sw_base_to_quote args), fe_amount_in = sw_amount_in args,
      fe_fair_price = fair (rc_slot rc)\<rparr>"
  obtain fee edge where "fee_in_quote_atoms ?ev (rq_amount_in_less_fee qt) = Ok fee"
    "taker_edge_quote_atoms ?ev (rq_amount_out qt) = Ok edge"
    using val[unfolded can_value_def events] that
    by (cases "fee_in_quote_atoms ?ev (rq_amount_in_less_fee qt)"; cases "taker_edge_quote_atoms ?ev (rq_amount_out qt)")
      (auto simp: swap_event_def Let_def)
  moreover have slot: "recorded_slot fair rc = trade_slot args (rc_slot rc) (fair (rc_slot rc))"
    by (simp add: recorded_slot_def ix rc_slot_def Let_def)
  ultimately obtain r' st' where ex: "execute_reference_quote_slot r st params (recorded_slot fair rc) = Ok (r', st')"
    using qt by (cases "record_fill (r\<lparr>rr_trades_attempted := rr_trades_attempted r + 1\<rparr>) st qt fee edge")
      (simp add: trade_slot_runs st params)
  have filled: "trade_filled r r'" and st': "st' = st\<lparr>base_inventory := rq_new_base_inventory qt,
      quote_inventory := rq_new_quote_inventory qt\<rparr>"
    using priced_trade_filled[OF qt[folded params, folded st] ex[unfolded slot]] by simp_all
  have amounts: "fill_amounts st (sw_amount_in args) (rq_amount_in_less_fee qt)
        (rq_effective_price qt) (sw_base_to_quote args) (rq_amount_out qt) (rq_new_base_inventory qt)
        (rq_new_quote_inventory qt)"
    using swap_contractD[OF qt] by (simp add: swap_contract_def st)
  have flows: "base_held w' v = base_held w v + (if sw_base_to_quote args then int (unat (sw_amount_in args))
      else - int (unat (rq_amount_out qt)))"
    "quote_held w' v = quote_held w v + (if sw_base_to_quote args then - int (unat (rq_amount_out qt))
      else int (unat (sw_amount_in args)))"
    using receipt_ledgers(2,3)[OF safe step, of v] keys
    by (simp_all add: base_flow_def quote_flow_def ix paid_out_def events swap_event_def)
  have new: "int (unat (rq_new_base_inventory qt)) = base_held w' v"
    "int (unat (rq_new_quote_inventory qt)) = quote_held w' v"
  proof -
    have held_st: "int (unat (base_inventory st)) = base_held w v" "int (unat (quote_inventory st)) = quote_held w v"
      using m unfolding mirrors_def by blast+
    have "(if sw_base_to_quote args
        then unat (rq_new_base_inventory qt) = unat (base_inventory st) + unat (sw_amount_in args)
          \<and> unat (rq_new_quote_inventory qt) + unat (rq_amount_out qt) = unat (quote_inventory st)
        else unat (rq_new_base_inventory qt) + unat (rq_amount_out qt) = unat (base_inventory st)
          \<and> unat (rq_new_quote_inventory qt) = unat (quote_inventory st) + unat (sw_amount_in args))"
      using amounts unfolding fill_amounts_def by (simp split: if_splits)
    with held_st flows have "int (unat (rq_new_base_inventory qt)) = base_held w' v
        \<and> int (unat (rq_new_quote_inventory qt)) = quote_held w' v"
      by (cases "sw_base_to_quote args"; simp only: if_True if_False; intro conjI; linarith)
    then show "int (unat (rq_new_base_inventory qt)) = base_held w' v"
      "int (unat (rq_new_quote_inventory qt)) = quote_held w' v" by (rule conjunct1, rule conjunct2)
  qed
  have "wd_pools w' = wd_pools w" "wd_quotes w' = wd_quotes w" "wd_vaults w' = wd_vaults w" by (simp_all add: w')
  with m new have "mirrors p q v params w' st'" by (auto simp: mirrors_def st')
  then show thesis by (rule that[OF ex filled]) (simp_all add: st' recorded_updates_def ix Let_def)
qed

section \<open>Updates in flight\<close>

definition in_flight :: "quote_update_event \<Rightarrow> pending_quote_update" where
  "in_flight u = \<lparr>pu_publish_slot = qe_publish_slot u, pu_landing_slot = the (qe_landing_slot u),
     pu_mid_price = qe_mid_price u\<rparr>"

text \<open>The counters of a run in which every swap was filled and no update dropped.\<close>

definition tallied :: "nat \<Rightarrow> nat \<Rightarrow> reference_quote_report \<Rightarrow> bool" where
  "tallied swaps updates r \<longleftrightarrow> rr_trades_attempted r = of_nat swaps \<and> rr_trades_filled r = of_nat swaps
     \<and> rr_rejected_stale r = 0 \<and> rr_rejected_protected r = 0 \<and> rr_rejected_inventory r = 0
     \<and> rr_rejected_other r = 0 \<and> rr_quote_updates_landed r = of_nat updates \<and> rr_quote_updates_dropped r = 0"

lemma tallied_trade: "tallied n k r \<Longrightarrow> trade_filled r r' \<Longrightarrow> tallied (Suc n) k r'"
  by (simp add: tallied_def trade_filled_def add.commute)

lemma send_landing_update:
  "mr_state (send_update (Some u) run) = mr_state run"
  "mr_pending (send_update (Some u) run) = mr_pending run @ [u]"
  "tallied n k (mr_report (send_update (Some u) run)) = tallied n k (mr_report run)"
  by (simp_all add: send_update_def Let_def tallied_def)

lemma replay_due_sends:
  assumes "\<forall>u \<in> set us. qe_landing_slot u \<noteq> None"
  shows "\<exists>m run'. m \<le> length us \<and> replay_due slot us run = (drop m us, run')
    \<and> mr_state run' = mr_state run \<and> mr_pending run' = mr_pending run @ map in_flight (take m us)
    \<and> (\<forall>n k. tallied n k (mr_report run) \<longrightarrow> tallied n k (mr_report run'))
    \<and> (us \<noteq> [] \<longrightarrow> qe_publish_slot (hd us) \<le> ms_slot slot \<longrightarrow> 0 < m)"
  using assms
proof (induction us arbitrary: run)
  case Nil
  then show ?case by simp
next
  case (Cons u us)
  show ?case
  proof (cases "ms_slot slot < qe_publish_slot u")
    case True
    then show ?thesis by (intro exI[of _ 0] exI[of _ run]) simp
  next
    case False
    from Cons.prems obtain l where l: "qe_landing_slot u = Some l" by auto
    let ?run1 = "send_update (Some (in_flight u)) run"
    from Cons.IH[of ?run1] Cons.prems obtain m run' where m: "m \<le> length us" "replay_due slot us ?run1 = (drop m us, run')"
      "mr_state run' = mr_state ?run1" "mr_pending run' = mr_pending ?run1 @ map in_flight (take m us)"
      "\<forall>n k. tallied n k (mr_report ?run1) \<longrightarrow> tallied n k (mr_report run')" by (metis list.set_intros(2))
    have "replay_due slot (u # us) run = replay_due slot us ?run1"
      using False l by (simp add: in_flight_def)
    then show ?thesis using m
      by (intro exI[of _ "Suc m"] exI[of _ run']) (simp add: send_landing_update)
  qed
qed

lemma land_splits:
  assumes "mr_pending run = now @ later"
    and "\<forall>u \<in> set now. pu_landing_slot u \<le> t" "\<forall>u \<in> set later. t < pu_landing_slot u"
  shows "mr_pending (land t run) = later"
    "mr_state (land t run) = (if now = [] then mr_state run else (mr_state run)\<lparr>mid_price := pu_mid_price (last now),
       mid_publish_slot := pu_publish_slot (last now)\<rparr>)"
    "tallied n k (mr_report run) \<Longrightarrow> tallied n (k + length now) (mr_report (land t run))"
proof -
  have f: "filter (\<lambda>u. pu_landing_slot u \<le> t) (mr_pending run) = now"
    "filter (\<lambda>u. \<not> pu_landing_slot u \<le> t) (mr_pending run) = later"
    using assms by (auto simp: filter_empty_conv filter_id_conv not_le)
  show "mr_pending (land t run) = later"
    "mr_state (land t run) = (if now = [] then mr_state run else (mr_state run)\<lparr>mid_price := pu_mid_price (last now),
       mid_publish_slot := pu_publish_slot (last now)\<rparr>)"
    "tallied n k (mr_report run) \<Longrightarrow> tallied n (k + length now) (mr_report (land t run))"
    using f by (simp_all add: land_def apply_landed_quote_updates_def Let_def tallied_def)
qed

lemma enter_slot_effect:
  "mr_state (enter_slot s run) = (mr_state run)\<lparr>now_slot := s\<rparr>"
  "mr_pending (enter_slot s run) = mr_pending run"
  "tallied n k (mr_report (enter_slot s run)) = tallied n k (mr_report run)"
  by (simp_all add: enter_slot_def Let_def tallied_def)

lemma mirrors_now [simp]: "mirrors p q v params w (st\<lparr>now_slot := s\<rparr>) = mirrors p q v params w st"
  by (simp add: mirrors_def)

text \<open>What is yet to come lands later.\<close>

lemma recorded_landing:
  "about_pool p q v rc \<Longrightarrow> u \<in> set (recorded_updates rc) \<Longrightarrow>
    \<not> is_swap rc \<and> qe_landing_slot u = Some (rc_slot rc)"
  by (auto simp: about_pool_def recorded_updates_def is_swap_def rc_slot_def Let_def split: instruction.splits)

lemma later_landing:
  assumes "update_before_swap (rc # log)" "\<forall>rc \<in> set log. about_pool p q v rc"
    and "u \<in> set (concat (map recorded_updates log))"
  shows "\<exists>l. qe_landing_slot u = Some l \<and> rc_slot rc < l"
proof -
  from assms(3) obtain rc' where rc': "rc' \<in> set log" "u \<in> set (recorded_updates rc')" by auto
  with recorded_landing[of p q v rc' u] assms(1,2) show ?thesis by auto
qed

section \<open>The replay, slot by slot\<close>

text \<open>The recorded updates still to land: some are pending, the rest not yet sent.\<close>

definition awaiting :: "quote_update_event list \<Rightarrow> quote_update_event list \<Rightarrow> market_run \<Rightarrow> bool" where
  "awaiting updates unsent run \<longleftrightarrow> (\<exists>m \<le> length updates. unsent = drop m updates
     \<and> mr_pending run = map in_flight (take m updates))"

lemma feed_recorded:
  assumes "awaiting updates unsent run" "\<forall>u \<in> set updates. qe_landing_slot u \<noteq> None" "tallied n k (mr_report run)"
  obtains m run1 where "replay_feed unsent slot run = Some (drop m updates, run1)" "m \<le> length updates"
    and "mr_pending run1 = map in_flight (take m updates)" "mr_state run1 = mr_state run"
    and "tallied n k (mr_report run1)"
    and "updates \<noteq> [] \<longrightarrow> qe_publish_slot (hd updates) \<le> ms_slot slot \<longrightarrow> 0 < m"
proof -
  from assms(1) obtain m0 where m0: "m0 \<le> length updates" "unsent = drop m0 updates"
    "mr_pending run = map in_flight (take m0 updates)" by (auto simp: awaiting_def)
  have "\<forall>u \<in> set (drop m0 updates). qe_landing_slot u \<noteq> None" using assms(2) by (blast dest: in_set_dropD)
  from replay_due_sends[OF this, of slot run] obtain m run1 where m: "m \<le> length (drop m0 updates)"
    "replay_due slot (drop m0 updates) run = (drop m (drop m0 updates), run1)" "mr_state run1 = mr_state run"
    "mr_pending run1 = mr_pending run @ map in_flight (take m (drop m0 updates))"
    "\<forall>n k. tallied n k (mr_report run) \<longrightarrow> tallied n k (mr_report run1)"
    "drop m0 updates \<noteq> [] \<longrightarrow> qe_publish_slot (hd (drop m0 updates)) \<le> ms_slot slot \<longrightarrow> 0 < m" by blast
  have "m + m0 \<le> length updates" using m(1) m0(1) by simp
  moreover have "0 < m + m0" if "updates \<noteq> []" "qe_publish_slot (hd updates) \<le> ms_slot slot"
    using m(6) that by (cases m0) simp_all
  ultimately show thesis using m m0 assms(3)
    by (intro that[of "m + m0" run1])
      (simp_all add: replay_feed_def add.commute[of m m0] take_add)
qed

lemma recorded_slot_number [simp]: "ms_slot (recorded_slot fair rc) = rc_slot rc"
  by (simp add: recorded_slot_def trade_slot_def rc_slot_def Let_def split: instruction.split)

lemma slot_recorded:
  assumes safe: "safe_world rt w" and step: "receipt_step rt rc w w'"
    and about: "about_pool p q v rc" "\<forall>rc \<in> set log. about_pool p q v rc"
    and order: "update_before_swap (rc # log)" and val: "can_value fair rc"
    and m: "mirrors p q v params w (mr_state run)"
    and await: "awaiting (recorded_updates rc @ concat (map recorded_updates log)) unsent run"
    and tally: "tallied n k (mr_report run)"
  obtains unsent' run1 run2 where "replay_feed unsent (recorded_slot fair rc) run = Some (unsent', run1)"
    and "process_slot UpdateBeforeSwap params (recorded_slot fair rc) run1 = Ok run2"
    and "awaiting (concat (map recorded_updates log)) unsent' run2"
    and "mirrors p q v params w' (mr_state run2)"
    and "tallied (if is_swap rc then Suc n else n) (if is_swap rc then k else Suc k) (mr_report run2)"
proof -
  let ?U = "concat (map recorded_updates log)" and ?All = "recorded_updates rc @ concat (map recorded_updates log)"
  let ?slot = "recorded_slot fair rc"
  note later = later_landing[OF order about(2)]
  have lands: "\<forall>u \<in> set ?All. qe_landing_slot u \<noteq> None"
    using recorded_landing[OF about(1)] later by fastforce
  obtain i run1 where feed: "replay_feed unsent ?slot run = Some (drop i ?All, run1)" and i: "i \<le> length ?All"
    and run1: "mr_pending run1 = map in_flight (take i ?All)" "mr_state run1 = mr_state run" "tallied n k (mr_report run1)"
    and first: "?All \<noteq> [] \<longrightarrow> qe_publish_slot (hd ?All) \<le> ms_slot ?slot \<longrightarrow> 0 < i"
    by (rule feed_recorded[OF await lands tally, where slot = ?slot])
  let ?landed = "land (rc_slot rc) run1"
  let ?run = "enter_slot (rc_slot rc) ?landed"
  have waits: "\<forall>u \<in> set (map in_flight (take j ?U)). rc_slot rc < pu_landing_slot u" for j
    using later by (fastforce simp: in_flight_def dest: in_set_takeD)
  show thesis
  proof (cases "is_swap rc")
    case False
    then obtain u where u: "recorded_updates rc = [u]" "qe_landing_slot u = Some (rc_slot rc)"
      and pub: "mid_publish_slot (mr_state run) \<le> qe_publish_slot u" "qe_publish_slot u \<le> rc_slot rc"
      and m': "mirrors p q v params w' ((mr_state run)\<lparr>mid_price := qe_mid_price u, mid_publish_slot := qe_publish_slot u\<rparr>)"
      by (rule update_recorded[OF step about(1) _ m])
    have "0 < i" using first u(1) pub(2) by simp
    then obtain j where j: "i = Suc j" using gr0_implies_Suc by blast
    have "mr_pending run1 = [in_flight u] @ map in_flight (take j ?U)" using run1(1) by (simp add: u(1) j)
    note ld = land_splits[OF this, of "rc_slot rc", OF _ waits]
    have flow: "ms_flow ?slot = None"
      using False by (simp add: recorded_slot_def is_swap_def Let_def split: instruction.splits)
    have proc: "process_slot UpdateBeforeSwap params ?slot run1 = Ok ?run"
      using flow by (simp add: process_slot_def Let_def execute_reference_quote_slot_def)
    have st: "mr_state ?run = (mr_state run)\<lparr>mid_price := qe_mid_price u, mid_publish_slot := qe_publish_slot u,
        now_slot := rc_slot rc\<rparr>"
      using ld(2) by (simp add: enter_slot_effect run1(2) in_flight_def u(2))
    show thesis
    proof (rule that[OF feed proc])
      show "awaiting ?U (drop i ?All) ?run"
        using ld(1) i by (auto simp: awaiting_def u(1) j enter_slot_effect in_flight_def u(2))
      show "mirrors p q v params w' (mr_state ?run)" using m' unfolding st by (simp add: mirrors_def)
      show "tallied (if is_swap rc then Suc n else n) (if is_swap rc then k else Suc k) (mr_report ?run)"
        using ld(3)[OF _ run1(3)] False by (simp add: enter_slot_effect in_flight_def u(2))
    qed
  next
    case True
    then have none: "recorded_updates rc = []" using recorded_landing[OF about(1)] by (metis list.set_intros(1) neq_Nil_conv)
    have "mr_pending run1 = [] @ map in_flight (take i ?U)" using run1(1) by (simp add: none)
    note ld = land_splits[OF this, of "rc_slot rc", OF _ waits]
    have st: "mr_state ?run = (mr_state run)\<lparr>now_slot := rc_slot rc\<rparr>"
      using ld(2) by (simp add: enter_slot_effect run1(2))
    have "mirrors p q v params w (mr_state ?run)" "now_slot (mr_state ?run) = rc_slot rc" using m by (simp_all add: st)
    then obtain r' st' where ex: "execute_reference_quote_slot (mr_report ?run) (mr_state ?run) params ?slot = Ok (r', st')"
      and out: "trade_filled (mr_report ?run) r'" "mirrors p q v params w' st'"
      by (rule swap_recorded[OF safe step about(1) True _ val])
    have proc: "process_slot UpdateBeforeSwap params ?slot run1 = Ok (?run\<lparr>mr_report := r', mr_state := st'\<rparr>)"
      using ex by (simp add: process_slot_def Let_def)
    have tl: "tallied n k (mr_report ?run)" using ld(3)[OF _ run1(3)] by (simp add: enter_slot_effect)
    show thesis
    proof (rule that[OF feed proc])
      show "awaiting ?U (drop i ?All) (?run\<lparr>mr_report := r', mr_state := st'\<rparr>)"
        using ld(1) i by (auto simp: awaiting_def none enter_slot_effect)
      show "mirrors p q v params w' (mr_state (?run\<lparr>mr_report := r', mr_state := st'\<rparr>))" using out(2) by simp
      show "tallied (if is_swap rc then Suc n else n) (if is_swap rc then k else Suc k)
          (mr_report (?run\<lparr>mr_report := r', mr_state := st'\<rparr>))"
        using tallied_trade[OF tl out(1)] True by simp
    qed
  qed
qed

lemma slots_recorded:
  assumes "safe_world rt w" "steps (receipt_step rt) log w w'"
    and "\<forall>rc \<in> set log. about_pool p q v rc" "update_before_swap log" "\<forall>rc \<in> set log. can_value fair rc"
    and "mirrors p q v params w (mr_state run)" "awaiting (concat (map recorded_updates log)) unsent run"
    and "tallied n k (mr_report run)" "\<forall>s. previous = Some s \<longrightarrow> (\<forall>rc \<in> set log. s \<le> rc_slot rc)"
  shows "\<exists>run'. simulate_slots replay_feed UpdateBeforeSwap params (map (recorded_slot fair) log) previous unsent run
        = Some (Ok run')
    \<and> mirrors p q v params w' (mr_state run')
    \<and> tallied (n + length (filter is_swap log)) (k + length (filter (\<lambda>rc. \<not> is_swap rc) log)) (mr_report run')"
  using assms
proof (induction log arbitrary: w n k previous unsent run)
  case Nil
  then show ?case by simp
next
  case (Cons rc log)
  from Cons.prems(2) obtain w1 where step: "receipt_step rt rc w w1" and rest: "steps (receipt_step rt) log w1 w'" by auto
  have about: "about_pool p q v rc" "\<forall>rc \<in> set log. about_pool p q v rc" using Cons.prems(3) by simp_all
  have val: "can_value fair rc" using Cons.prems(5) by simp
  have await: "awaiting (recorded_updates rc @ concat (map recorded_updates log)) unsent run"
    using Cons.prems(7) by simp
  obtain unsent' run1 run2 where feed: "replay_feed unsent (recorded_slot fair rc) run = Some (unsent', run1)"
    and proc: "process_slot UpdateBeforeSwap params (recorded_slot fair rc) run1 = Ok run2"
    and next1: "awaiting (concat (map recorded_updates log)) unsent' run2" "mirrors p q v params w1 (mr_state run2)"
    and tl: "tallied (if is_swap rc then Suc n else n) (if is_swap rc then k else Suc k) (mr_report run2)"
    by (rule slot_recorded[OF Cons.prems(1) step about Cons.prems(4) val Cons.prems(6) await Cons.prems(8)])
  have order: "update_before_swap log" "\<forall>s. Some (rc_slot rc) = Some s \<longrightarrow> (\<forall>rc' \<in> set log. s \<le> rc_slot rc')"
    using Cons.prems(4) by simp_all
  have vals: "\<forall>rc \<in> set log. can_value fair rc" using Cons.prems(5) by simp
  have safe: "safe_world rt w1" by (rule receipt_ledgers(1)[OF Cons.prems(1) step])
  from Cons.IH[OF safe rest about(2) order(1) vals next1(2,1) tl order(2)] obtain run' where
    run': "simulate_slots replay_feed UpdateBeforeSwap params (map (recorded_slot fair) log)
        (Some (rc_slot rc)) unsent' run2 = Some (Ok run')"
    and out: "mirrors p q v params w' (mr_state run')"
      "tallied ((if is_swap rc then Suc n else n) + length (filter is_swap log))
        ((if is_swap rc then k else Suc k) + length (filter (\<lambda>rc. \<not> is_swap rc) log)) (mr_report run')" by blast
  have "\<not> (case previous of None \<Rightarrow> False | Some s \<Rightarrow> rc_slot rc < s)"
    using Cons.prems(9) by (cases previous) (simp_all add: not_less)
  then have "simulate_slots replay_feed UpdateBeforeSwap params (map (recorded_slot fair) (rc # log)) previous unsent run
      = Some (Ok run')"
    using feed proc run' by (simp cong: option.case_cong)
  with out show ?case by (intro exI[of _ run']) (simp split: if_splits)
qed

lemma recorded_updates_valid:
  assumes "safe_world rt w" "steps (receipt_step rt) log w w'"
    and "\<forall>rc \<in> set log. about_pool p q v rc" "\<forall>rc \<in> set log. can_value fair rc"
    and "mirrors p q v params w st" "\<forall>s. previous = Some s \<longrightarrow> s \<le> mid_publish_slot st"
  shows "validate_quote_updates_from previous (concat (map recorded_updates log)) = Ok ()"
  using assms
proof (induction log arbitrary: w st previous)
  case Nil
  then show ?case by simp
next
  case (Cons rc log)
  from Cons.prems(2) obtain w1 where step: "receipt_step rt rc w w1" and rest: "steps (receipt_step rt) log w1 w'" by auto
  have about: "about_pool p q v rc" "\<forall>rc \<in> set log. about_pool p q v rc" using Cons.prems(3) by simp_all
  have val: "can_value fair rc" "\<forall>rc \<in> set log. can_value fair rc" using Cons.prems(4) by simp_all
  note ih = Cons.IH[OF receipt_ledgers(1)[OF Cons.prems(1) step] rest about(2) val(2)]
  show ?case
  proof (cases "is_swap rc")
    case True
    have "mirrors p q v params w (st\<lparr>now_slot := rc_slot rc\<rparr>)" using Cons.prems(5) by simp
    then obtain r' st' where "mirrors p q v params w1 st'" "mid_publish_slot st' = mid_publish_slot st"
      "recorded_updates rc = []"
      using swap_recorded[OF Cons.prems(1) step about(1) True _ val(1), where st = "st\<lparr>now_slot := rc_slot rc\<rparr>"]
      by (metis reference_quote_state.select_convs(6) reference_quote_state.update_convs(6)
          reference_quote_state.surjective reference_quote_state.select_convs(5))
    with ih[of st'] Cons.prems(6) show ?thesis by simp
  next
    case False
    then obtain u where u: "recorded_updates rc = [u]" "qe_landing_slot u = Some (rc_slot rc)"
      "mid_publish_slot st \<le> qe_publish_slot u" "qe_publish_slot u \<le> rc_slot rc"
      and m': "mirrors p q v params w1 (st\<lparr>mid_price := qe_mid_price u, mid_publish_slot := qe_publish_slot u\<rparr>)"
      by (rule update_recorded[OF step about(1) _ Cons.prems(5)])
    have "\<not> (case previous of None \<Rightarrow> False | Some s \<Rightarrow> qe_publish_slot u < s)"
      using Cons.prems(6) u(3) by (cases previous) (auto simp: not_less)
    with ih[OF m', of "Some (qe_publish_slot u)"] u show ?thesis by (simp add: not_less)
  qed
qed

section \<open>The whole replay\<close>

text \<open>The scenario of a recording: the pool as it stands when the recording starts.\<close>

definition recorded_scenario ::
    "scenario_assumptions \<Rightarrow> quote_update_policy \<Rightarrow> pool_config \<Rightarrow> quote_state \<Rightarrow> vault_state \<Rightarrow> world \<Rightarrow> reference_quote_scenario" where
  "recorded_scenario assumptions policy pc qs vs w =
    \<lparr>rs_assumptions = assumptions,
     rs_initial_base_inventory = of_nat (balance (wd_tokens w) (vs_base_vault vs)),
     rs_initial_quote_inventory = of_nat (balance (wd_tokens w) (vs_quote_vault vs)),
     rs_target_base_inventory = vs_target_base_inventory vs,
     rs_initial_mid_price = Q64x64 (qs_mid_price_q64x64 qs), rs_quote_update_policy = policy,
     rs_params = swap_params pc qs\<rparr>"

lemma balance_fits: "unat (of_nat (balance tokens k) :: u64) = balance tokens k"
proof -
  have "balance tokens k < 2 ^ 64" using u64_bound by (simp add: balance_def split: option.split)
  then show ?thesis by (simp add: unat_of_nat_fits)
qed

text \<open>
  C4: on token programs whose transfers are exact except on mints with a transfer fee, from a world
  whose vaults are in custody, with no signer a vault's derived owner: take any transactions on a
  pool whose quote has not been published yet, keep the accepted ones, and let them be price
  updates and swaps of this pool (no fundings), with at most one update per slot, before the
  swaps, and with fees and edges the report can value.  The simulator run on the recorded path,
  with the pool's parameters, returns: it fills every swap the program accepted, refuses and drops
  nothing, and ends with exactly the inventories the vaults hold.
\<close>

theorem replay_reproduces_chain:
  assumes runtime: "exact_transfers rt" "custody_inv rt w" "\<forall>tx \<in> set txs. no_owner_signs rt (tx_signers tx)"
    and run: "run_transactions rt txs w = (log, w')"
    and pool: "wd_pools w p = Some pc" "wd_quotes w q = Some qs" "wd_vaults w v = Some vs" "qs_publish_slot qs = 0"
    and log: "\<forall>rc \<in> set log. about_pool p q v rc \<and> can_value fair rc" "update_before_swap log"
    and policy: "validate_quote_update_policy policy = Ok ()" "qp_same_slot_order policy = UpdateBeforeSwap"
  shows "\<exists>report. simulate_reference_quote_replay (recorded_scenario assumptions policy pc qs vs w) (recorded_path fair log)
        = Some (Ok report)
    \<and> tallied (length (filter is_swap log)) (length (filter (\<lambda>rc. \<not> is_swap rc) log)) report
    \<and> int (unat (rr_final_base_inventory report)) = base_held w' v
    \<and> int (unat (rr_final_quote_inventory report)) = quote_held w' v"
proof -
  let ?sc = "recorded_scenario assumptions policy pc qs vs w" and ?us = "concat (map recorded_updates log)"
  have safe: "safe_world rt w" using runtime(1,2) by (simp add: safe_world_def)
  have steps: "steps (receipt_step rt) log w w'" by (rule run_receipts[OF run runtime(3)])
  have about: "\<forall>rc \<in> set log. about_pool p q v rc" and val: "\<forall>rc \<in> set log. can_value fair rc"
    using log(1) by blast+
  have start: "mirrors p q v (swap_params pc qs) w (mr_state (initial_run ?sc))"
    using pool by (simp add: mirrors_def initial_run_def recorded_scenario_def base_held_def quote_held_def balance_fits
        del: of_nat_unat)
  have await: "awaiting ?us ?us (initial_run ?sc)"
    by (auto simp: awaiting_def initial_run_def intro!: exI[of _ 0])
  have tl: "tallied 0 0 (mr_report (initial_run ?sc))" by (simp add: tallied_def initial_run_def)
  have valid: "validate_quote_updates ?us = Ok ()"
    unfolding validate_quote_updates_def by (rule recorded_updates_valid[OF safe steps about val start]) simp
  from slots_recorded[OF safe steps about log(2) val start await tl, of None] obtain run' where
    run': "simulate_slots replay_feed UpdateBeforeSwap (swap_params pc qs) (map (recorded_slot fair) log) None ?us
        (initial_run ?sc) = Some (Ok run')"
    and out: "mirrors p q v (swap_params pc qs) w' (mr_state run')"
      "tallied (length (filter is_swap log)) (length (filter (\<lambda>rc. \<not> is_swap rc) log)) (mr_report run')" by auto
  have "simulate_reference_quote_replay ?sc (recorded_path fair log) = Some (Ok (finish_report run'))"
    using run' valid policy
    by (simp add: simulate_reference_quote_replay_def recorded_path_def recorded_scenario_def)
  moreover have "tallied (length (filter is_swap log)) (length (filter (\<lambda>rc. \<not> is_swap rc) log)) (finish_report run')"
    using out(2) by (simp add: tallied_def finish_report_def)
  moreover have "int (unat (rr_final_base_inventory (finish_report run'))) = base_held w' v"
    "int (unat (rr_final_quote_inventory (finish_report run'))) = quote_held w' v"
    using out(1) by (auto simp: mirrors_def finish_report_def simp del: of_nat_unat)
  ultimately show ?thesis by blast
qed

section \<open>The demo recording\<close>

definition demo_assumptions :: scenario_assumptions where
  "demo_assumptions = \<lparr>sc_name = ''recording'', sc_flow_model = ''recorded'', sc_landing_model = ''recorded'',
     sc_path_count = 1\<rparr>"

definition demo_fair :: q64x64 where
  "demo_fair = Q64x64 553402322211286548480000"

definition demo_recorded :: "transaction list" where
  "demo_recorded =
    [\<lparr>tx_signers = [demo_publisher], tx_slot = 101, tx_instruction = UpdateQuote
       \<lparr>up_quote_signer = demo_publisher, up_pool_config = pool_key, up_quote_state = quote_key\<rparr>
       \<lparr>ua_mid_price_q64x64 = 553402322211286548480000, ua_publish_slot = 100, ua_sequence = 1\<rparr>\<rparr>,
     \<lparr>tx_signers = [demo_taker], tx_slot = 105, tx_instruction = Swap taker_accounts demo_swap_args\<rparr>]"

definition demo_log :: "receipt list" where
  "demo_log = [\<lparr>rc_transaction = hd demo_recorded, rc_events = []\<rparr>,
     \<lparr>rc_transaction = demo_recorded ! 1,
      rc_events = [swap_event taker_accounts demo_swap_args demo_published 105 example_swap]\<rparr>]"

lemma demo_recorded_run: "run_transactions demo_runtime demo_recorded demo_world4 = (demo_log, demo_swapped)"
proof -
  have sw: "execute demo_runtime [demo_taker] 105 (Swap taker_accounts demo_swap_args) demo_world5 = Ok demo_swapped"
    using demo_swap_runs by (simp add: execute_simps)
  have "load_quote demo_runtime demo_world4 pool_key quote_key = Ok demo_quote"
    by (simp add: load_quote_def lookup_account_def ok_or_def check_seeds_def demo_runtime_def
        demo_worlds demo_keys)
  moreover have "apply_update demo_quote demo_maker demo_publisher
      \<lparr>ua_mid_price_q64x64 = 553402322211286548480000, ua_publish_slot = 100, ua_sequence = 1\<rparr> 101 = Ok demo_published"
    by (simp add: apply_update_Ok demo_published_def demo_quote_def)
  ultimately have up: "update_reference_quote demo_runtime [demo_publisher]
      \<lparr>up_quote_signer = demo_publisher, up_pool_config = pool_key, up_quote_state = quote_key\<rparr>
      \<lparr>ua_mid_price_q64x64 = 553402322211286548480000, ua_publish_slot = 100, ua_sequence = 1\<rparr> 101 demo_world4
      = Ok demo_world5"
    by (simp add: update_reference_quote_def load_update_def check_signer_def demo_quote_def[symmetric])
      (simp add: demo_world5_def demo_worlds demo_keys)
  have ev: "wd_events demo_swapped = [swap_event taker_accounts demo_swap_args demo_published 105 example_swap]"
    "wd_events demo_world5 = []" "wd_events demo_world4 = []"
    by (simp_all add: demo_swapped_def demo_worlds)
  show ?thesis
    by (simp add: demo_recorded_def demo_log_def run_transaction_def execute_simps up sw[unfolded execute_simps] ev Let_def)
qed

lemma demo_custody: "custody_inv demo_runtime demo_world4"
proof -
  have v: "wd_vaults demo_world4 = [vault_key \<mapsto> demo_vault\<lparr>vs_target_base_inventory := 1000000000\<rparr>]"
    by (simp add: demo_worlds)
  have "in_custody demo_runtime demo_world4 (demo_vault\<lparr>vs_target_base_inventory := 1000000000\<rparr>)"
    by (simp add: in_custody_def vault_accounts_of_def owned_by_def vault_owner_def demo_runtime_def)
      (simp add: demo_worlds demo_keys)
  then show ?thesis by (auto simp: custody_inv_def v split: if_splits)
qed

lemma demo_priced:
  "fee_in_quote_atoms \<lparr>fe_slot = 105, fe_side = BaseToQuote, fe_amount_in = 1000000, fe_fair_price = demo_fair\<rparr> 1000000 = Ok 0"
  "taker_edge_quote_atoms \<lparr>fe_slot = 105, fe_side = BaseToQuote, fe_amount_in = 1000000, fe_fair_price = demo_fair\<rparr>
    29976000000 = Ok (- 24000000)"
  by code_simp+

lemma demo_log_facts:
  "\<forall>rc \<in> set demo_log. about_pool pool_key quote_key vault_key rc \<and> can_value (\<lambda>_. demo_fair) rc"
  "update_before_swap demo_log" "filter is_swap demo_log = tl demo_log" "filter (\<lambda>rc. \<not> is_swap rc) demo_log = [hd demo_log]"
  using demo_priced
  by (simp_all add: demo_log_def demo_recorded_def about_pool_def can_value_def rc_slot_def is_swap_def swap_event_def
      example_swap_def side_of_def Let_def)

theorem simulator_agrees_on_swap_witness:
  "\<exists>r' st'. execute_reference_quote_slot (mr_report (initial_run (recorded_scenario demo_assumptions (policy_instant 1) demo_pool
        demo_published demo_vault demo_world5))) (swap_state demo_pool demo_published demo_loaded 105)
        (swap_params demo_pool demo_published) (trade_slot demo_swap_args 105 demo_fair) = Ok (r', st')
    \<and> rr_trades_filled r' = 1 \<and> balance (wd_tokens demo_swapped) base_vault_key = unat (base_inventory st')"
proof -
  let ?r = "mr_report (initial_run (recorded_scenario demo_assumptions (policy_instant 1) demo_pool demo_published demo_vault demo_world5))"
  let ?st = "swap_state demo_pool demo_published demo_loaded 105" and ?p = "swap_params demo_pool demo_published"
  let ?sim = "execute_reference_quote_slot ?r ?st ?p (trade_slot demo_swap_args 105 demo_fair)"
  have d: "ac_user taker_accounts \<noteq> ac_vault_authority taker_accounts"
    "ac_base_mint taker_accounts \<noteq> ac_quote_mint taker_accounts" by (simp_all add: demo_keys)
  obtain r' st' where ex: "?sim = Ok (r', st')"
    using demo_priced by (cases "record_fill (?r\<lparr>rr_trades_attempted := rr_trades_attempted ?r + 1\<rparr>) ?st example_swap 0 (- 24000000)")
      (simp add: demo_swap_priced trade_slot_runs side_of_def example_swap_def)
  from simulator_agrees_on_swap[OF demo_exact demo_swap_checks d refl, of demo_fair ?r] ex
  have "trade_filled ?r r' \<and> balance (wd_tokens demo_swapped) base_vault_key = unat (base_inventory st')"
    by (auto simp: demo_swap_runs)
  with ex show ?thesis by (auto simp: trade_filled_def initial_run_def)
qed

theorem replay_reproduces_chain_witness:
  "\<exists>report. simulate_reference_quote_replay (recorded_scenario demo_assumptions (policy_instant 1) demo_pool demo_quote
        (demo_vault\<lparr>vs_target_base_inventory := 1000000000\<rparr>) demo_world4) (recorded_path (\<lambda>_. demo_fair) demo_log)
      = Some (Ok report)
    \<and> rr_trades_filled report = 1 \<and> unat (rr_final_base_inventory report) = 1001000000"
proof -
  let ?vs = "demo_vault\<lparr>vs_target_base_inventory := 1000000000\<rparr>"
  have "vault_owner demo_runtime p \<notin> {demo_publisher, demo_taker}" for p
    by (simp add: vault_owner_def demo_runtime_def demo_keys)
  then have signers: "\<forall>tx \<in> set demo_recorded. no_owner_signs demo_runtime (tx_signers tx)"
    by (simp add: demo_recorded_def no_owner_signs_def)
  have pool: "wd_pools demo_world4 pool_key = Some demo_pool" "wd_quotes demo_world4 quote_key = Some demo_quote"
    "wd_vaults demo_world4 vault_key = Some ?vs" "qs_publish_slot demo_quote = 0"
    by (simp_all add: demo_worlds)
  have policy: "validate_quote_update_policy (policy_instant 1) = Ok ()"
    "qp_same_slot_order (policy_instant 1) = UpdateBeforeSwap"
    by (simp_all add: validate_quote_update_policy_def policy_instant_def)
  have held: "base_held demo_swapped vault_key = 1001000000"
    by (simp add: base_held_def demo_swapped_def demo_worlds balance_def demo_keys)
  from replay_reproduces_chain[OF demo_exact demo_custody signers demo_recorded_run pool demo_log_facts(1,2) policy, of demo_assumptions]
  obtain report where "simulate_reference_quote_replay (recorded_scenario demo_assumptions (policy_instant 1) demo_pool demo_quote ?vs demo_world4)
      (recorded_path (\<lambda>_. demo_fair) demo_log) = Some (Ok report)"
    and "tallied 1 1 report" "int (unat (rr_final_base_inventory report)) = 1001000000"
    unfolding demo_log_facts(3,4) held by (auto simp: demo_log_def simp del: of_nat_unat)
  then show ?thesis by (auto simp: tallied_def simp del: of_nat_unat)
qed

end
