(* ===== verification/Text_Format.thy ===== *)
theory Text_Format imports Prelude begin
text \<open>
  Text as the configuration importer and the simulator's exporter use it: substring search,
  decimal numbers, JSON strings.  A string is a list of characters up to U+00FF.  Shown here:
  what is printed is read back, and where the first occurrence of a quoted key lies in a text
  written as a sequence of quoted words.
\<close>

section \<open>Characters and numbers\<close>

abbreviation QUOTE :: char where "QUOTE \<equiv> CHR 0x22"
abbreviation BACKSLASH :: char where "BACKSLASH \<equiv> CHR 0x5C"
abbreviation NEWLINE :: char where "NEWLINE \<equiv> CHR 0x0A"

definition is_ascii_digit :: "char \<Rightarrow> bool" where
  "is_ascii_digit c \<longleftrightarrow> 48 \<le> (of_char c :: nat) \<and> (of_char c :: nat) \<le> 57"

definition is_ascii_whitespace :: "char \<Rightarrow> bool" where
  "is_ascii_whitespace c \<longleftrightarrow> c \<in> {CHR 0x20, CHR 0x09, CHR 0x0A, CHR 0x0C, CHR 0x0D}"

definition is_control :: "char \<Rightarrow> bool" where
  "is_control c \<longleftrightarrow> (of_char c :: nat) < 32 \<or> 127 \<le> (of_char c :: nat) \<and> (of_char c :: nat) < 160"

definition digit_char :: "nat \<Rightarrow> char" where "digit_char d = char_of (48 + d)"

fun show_nat :: "nat \<Rightarrow> string" where
  "show_nat n = (if n < 10 then [digit_char n] else show_nat (n div 10) @ [digit_char (n mod 10)])"

declare show_nat.simps [simp del]

definition show_int :: "int \<Rightarrow> string" where
  "show_int i = (if i < 0 then CHR ''-'' # show_nat (nat (- i)) else show_nat (nat i))"

fun parse_digits_from :: "u64 \<Rightarrow> string \<Rightarrow> u64 option" where
  "parse_digits_from out [] = Some out"
| "parse_digits_from out (byte # bytes) =
    (if (of_char byte :: nat) < 48 \<or> 9 < (of_char byte :: nat) - 48 then None
     else Option.bind (checked_mul out 10) (\<lambda>out.
          Option.bind (checked_add out (of_nat (of_char byte - 48))) (\<lambda>out.
          parse_digits_from out bytes)))"

definition parse_u64_digits :: "string \<Rightarrow> u64 option" where
  "parse_u64_digits value = parse_digits_from 0 value"

lemma of_char_digit: "d < 10 \<Longrightarrow> (of_char (digit_char d) :: nat) = 48 + d"
  by (simp add: digit_char_def)

lemma digit_char_digit: "d < 10 \<Longrightarrow> is_ascii_digit (digit_char d)"
  by (simp add: is_ascii_digit_def of_char_digit)

lemma show_nat_digits: "c \<in> set (show_nat n) \<Longrightarrow> is_ascii_digit c"
proof (induction n rule: show_nat.induct)
  case (1 n)
  then show ?case
    by (subst (asm) (2) show_nat.simps) (auto simp: digit_char_digit split: if_splits)
qed

lemma show_nat_nonempty [simp]: "show_nat n \<noteq> []"
  by (subst show_nat.simps) simp

lemma parse_digits_append:
  "parse_digits_from out (xs @ ys) = Option.bind (parse_digits_from out xs) (\<lambda>out. parse_digits_from out ys)"
  by (induction out xs rule: parse_digits_from.induct) (auto split: Option.bind_splits)

lemma parse_one_digit:
  assumes "m * 10 + d < 2 ^ 64" "d < 10"
  shows "parse_digits_from (of_nat m) [digit_char d] = Some (of_nat (m * 10 + d))"
proof -
  have fits: "unat (of_nat k :: u64) = k" if "k \<le> m * 10 + d" for k
    using that assms(1) by (intro unat_of_nat_fits) simp
  have mul: "checked_mul (of_nat m) 10 = Some (of_nat (m * 10) :: u64)"
    unfolding checked_mul_eq_Some using fits[of m] fits[of "m * 10"] by simp
  have add: "checked_add (of_nat (m * 10)) (of_nat d) = Some (of_nat (m * 10 + d) :: u64)"
    unfolding checked_add_eq_Some using fits[of "m * 10"] fits[of d] fits[of "m * 10 + d"] by simp
  show ?thesis
    using assms(2) by (simp only: parse_digits_from.simps of_char_digit mul add bind.bind_lunit diff_add_inverse) simp
qed

lemma parse_show_nat: "n < 2 ^ 64 \<Longrightarrow> parse_u64_digits (show_nat n) = Some (of_nat n)"
  unfolding parse_u64_digits_def
proof (induction n rule: show_nat.induct)
  case (1 n)
  show ?case
  proof (cases "n < 10")
    case True
    then show ?thesis using parse_one_digit[of 0 n] by (subst show_nat.simps) simp
  next
    case False
    have "n div 10 < 2 ^ 64" using "1.prems" by simp
    note ih = "1.IH"[OF False this]
    have "parse_digits_from (of_nat (n div 10)) [digit_char (n mod 10)] = Some (of_nat n)"
      using parse_one_digit[of "n div 10" "n mod 10"] "1.prems" by simp
    with False ih show ?thesis by (subst show_nat.simps) (simp add: parse_digits_append)
  qed
qed

section \<open>Searching\<close>

text \<open>\<open>source.find(needle)\<close> and the text after the match; \<open>find(':')\<close> and the text after it.\<close>

fun after_match :: "string \<Rightarrow> string \<Rightarrow> string option" where
  "after_match needle source =
    (if take (length needle) source = needle then Some (drop (length needle) source)
     else case source of [] \<Rightarrow> None | c # rest \<Rightarrow> after_match needle rest)"

declare after_match.simps [simp del]

fun after_char :: "char \<Rightarrow> string \<Rightarrow> string option" where
  "after_char ch [] = None"
| "after_char ch (c # rest) = (if c = ch then Some rest else after_char ch rest)"

definition skip_ascii_whitespace :: "string \<Rightarrow> string" where
  "skip_ascii_whitespace value = dropWhile is_ascii_whitespace value"

definition quoted :: "string \<Rightarrow> string" where
  "quoted s = QUOTE # s @ [QUOTE]"

definition unquoted :: "string \<Rightarrow> bool" where
  "unquoted s \<longleftrightarrow> QUOTE \<notin> set s"

lemma unquoted_simps [simp]:
  "unquoted []" "unquoted (c # s) \<longleftrightarrow> c \<noteq> QUOTE \<and> unquoted s" "unquoted (s @ t) \<longleftrightarrow> unquoted s \<and> unquoted t"
  by (auto simp: unquoted_def)

lemma show_nat_unquoted [simp]: "unquoted (show_nat n)"
  using show_nat_digits[of QUOTE n] by (auto simp: unquoted_def is_ascii_digit_def)

text \<open>A text as a sequence of quoted words, each followed by the text up to the next one.\<close>

fun words :: "(string \<times> string) list \<Rightarrow> string \<Rightarrow> string" where
  "words [] tail = tail"
| "words ((w, gap) # ws) tail = quoted w @ gap @ words ws tail"

fun after_word :: "string \<Rightarrow> (string \<times> string) list \<Rightarrow> string \<Rightarrow> string option" where
  "after_word k [] tail = None"
| "after_word k ((w, gap) # ws) tail = (if w = k then Some (gap @ words ws tail) else after_word k ws tail)"

lemma after_match_skip:
  "unquoted lead \<Longrightarrow> after_match (quoted k) (lead @ s) = after_match (quoted k) s"
proof (induction lead)
  case (Cons c lead)
  then show ?case by (subst after_match.simps) (simp add: quoted_def)
qed simp

lemma quoted_prefix_iff:
  assumes "unquoted k" "unquoted w"
  shows "take (length (quoted k)) (quoted w @ s) = quoted k \<longleftrightarrow> w = k"
proof
  assume "take (length (quoted k)) (quoted w @ s) = quoted k"
  then have "take (Suc (length k)) (w @ QUOTE # s) = k @ [QUOTE]" by (simp add: quoted_def)
  then obtain r where "w @ QUOTE # s = k @ QUOTE # r"
    by (metis append.assoc append_Cons append_Nil append_take_drop_id)
  then have "takeWhile (\<lambda>c. c \<noteq> QUOTE) (w @ QUOTE # s) = takeWhile (\<lambda>c. c \<noteq> QUOTE) (k @ QUOTE # r)" by simp
  moreover have "takeWhile (\<lambda>c. c \<noteq> QUOTE) (x @ QUOTE # y) = x" if "unquoted x" for x y
    using that by (subst takeWhile_append2) (auto simp: unquoted_def)
  ultimately show "w = k" using assms by simp
qed (simp add: quoted_def)

lemma after_match_word:
  assumes k: "unquoted k" and ne: "ws \<noteq> []"
    and all: "\<And>w gap. (w, gap) \<in> set ws \<Longrightarrow> unquoted w \<and> unquoted gap \<and> gap \<noteq> k"
    and hit: "k \<in> fst ` set ws"
  shows "after_match (quoted k) (words ws tail) = after_word k ws tail"
  using ne all hit
proof (induction ws)
  case (Cons wg ws)
  obtain w gap where wg: "wg = (w, gap)" by fastforce
  have u: "unquoted w" "unquoted gap" "gap \<noteq> k" using Cons.prems(2)[of w gap] by (simp_all add: wg)
  show ?case
  proof (cases "w = k")
    case True
    have "take (length (quoted k)) (quoted w @ gap @ words ws tail) = quoted k"
      using quoted_prefix_iff[OF k u(1)] True by blast
    then show ?thesis using True by (subst after_match.simps) (simp add: wg quoted_def)
  next
    case False
    with Cons.prems(3) have hit: "k \<in> fst ` set ws" and "ws \<noteq> []" by (auto simp: wg)
    then obtain w2 gap2 ws2 where ws: "ws = (w2, gap2) # ws2" by (cases ws) auto
    have "take (length (quoted k)) (quoted w @ gap @ words ws tail) \<noteq> quoted k"
      using quoted_prefix_iff[OF k u(1)] False by blast
    then have "after_match (quoted k) (quoted w @ gap @ words ws tail)
        = after_match (quoted k) (w @ QUOTE # gap @ words ws tail)"
      by (subst after_match.simps) (simp add: quoted_def)
    also have "\<dots> = after_match (quoted k) (QUOTE # gap @ words ws tail)"
      using u(1) by (rule after_match_skip)
    also have "QUOTE # gap @ words ws tail = quoted gap @ (w2 @ QUOTE # gap2 @ words ws2 tail)"
      by (simp add: ws quoted_def)
    also have "after_match (quoted k) \<dots> = after_match (quoted k) (gap @ words ws tail)"
    proof -
      have "take (length (quoted k)) (quoted gap @ (w2 @ QUOTE # gap2 @ words ws2 tail)) \<noteq> quoted k"
        using quoted_prefix_iff[OF k u(2)] u(3) by blast
      then show ?thesis
        by (subst after_match.simps) (simp add: quoted_def ws)
    qed
    also have "\<dots> = after_match (quoted k) (words ws tail)" using u(2) by (rule after_match_skip)
    also have "\<dots> = after_word k ws tail"
      using Cons.prems(2) hit \<open>ws \<noteq> []\<close> by (intro Cons.IH) auto
    finally show ?thesis using False by (simp add: wg)
  qed
qed simp

section \<open>JSON strings\<close>

definition hex_digit :: "nat \<Rightarrow> char" where
  "hex_digit d = (if d < 10 then char_of (48 + d) else char_of (87 + d))"

definition escape_char :: "char \<Rightarrow> string" where
  "escape_char ch =
    (if ch = QUOTE then [BACKSLASH, QUOTE]
     else if ch = BACKSLASH then [BACKSLASH, BACKSLASH]
     else if ch = NEWLINE then [BACKSLASH, CHR ''n'']
     else if ch = CHR 0x0D then [BACKSLASH, CHR ''r'']
     else if ch = CHR 0x09 then [BACKSLASH, CHR ''t'']
     else if is_control ch then
       [BACKSLASH, CHR ''u'', CHR ''0'', CHR ''0'', hex_digit (of_char ch div 16), hex_digit (of_char ch mod 16)]
     else [ch])"

definition json_string :: "string \<Rightarrow> string" where
  "json_string value = quoted (concat (map escape_char value))"

text \<open>A string of plain characters only comes from itself, and a string without quotes keeps none.\<close>

definition plain :: "string \<Rightarrow> bool" where
  "plain s \<longleftrightarrow> (\<forall>c \<in> set s. c \<noteq> QUOTE \<and> c \<noteq> BACKSLASH \<and> \<not> is_control c)"

lemma plain_simps [simp]:
  "plain []" "plain (c # s) \<longleftrightarrow> c \<noteq> QUOTE \<and> c \<noteq> BACKSLASH \<and> \<not> is_control c \<and> plain s"
  by (auto simp: plain_def)

lemma escape_plain: "plain k \<Longrightarrow> concat (map escape_char s) = k \<Longrightarrow> s = k"
proof (induction s arbitrary: k)
  case (Cons c s)
  have "escape_char c = [c]"
    using Cons.prems by (auto simp: escape_char_def split: if_splits)
  with Cons.prems Cons.IH[of "tl k"] show ?case by (cases k) auto
qed simp

lemma hex_digit_unquoted: "d < 16 \<Longrightarrow> hex_digit d \<noteq> QUOTE"
proof -
  assume d: "d < 16"
  then have "(of_char (hex_digit d) :: nat) \<ge> 48" by (simp add: hex_digit_def)
  then show ?thesis by auto
qed

lemma escape_unquoted: "unquoted s \<Longrightarrow> unquoted (concat (map escape_char s))"
proof (induction s)
  case (Cons c s)
  have "(of_char c :: nat) < 256" by (metis of_char_mod_256 mod_less_divisor zero_less_numeral)
  then have "of_char c div 16 < (16 :: nat)" by (simp add: less_mult_imp_div_less)
  with Cons show ?case by (auto simp: escape_char_def hex_digit_unquoted)
qed simp

end
