(* ===== verification/Replay.thy ===== *)
theory Replay imports Sim_Accounting Text_Format begin
text \<open>
  Recorded market paths, \<open>crates/meta_amm_sim/src/replay.rs\<close>: the CSV reader.  A \<open>str\<close> is a list
  of characters up to U+00FF.  Shown here: the reader recovers every path written in its format,
  and each update it reads belongs to a slot it has read.
\<close>

section \<open>Lines, cells and numbers\<close>

definition is_whitespace :: "char \<Rightarrow> bool" where
  "is_whitespace c \<longleftrightarrow> (let n = (of_char c :: nat) in 9 \<le> n \<and> n \<le> 13 \<or> n = 32 \<or> n = 133 \<or> n = 160)"

definition trim_start :: "string \<Rightarrow> string" where
  "trim_start s = dropWhile is_whitespace s"

definition trim :: "string \<Rightarrow> string" where
  "trim s = rev (dropWhile is_whitespace (rev (trim_start s)))"

definition ascii_lower :: "char \<Rightarrow> char" where
  "ascii_lower c = (if 65 \<le> (of_char c :: nat) \<and> (of_char c :: nat) \<le> 90 then char_of ((of_char c :: nat) + 32) else c)"

definition to_ascii_lowercase :: "string \<Rightarrow> string" where
  "to_ascii_lowercase s = map ascii_lower s"

fun split_at_char :: "char \<Rightarrow> string \<Rightarrow> string list" where
  "split_at_char c [] = [[]]"
| "split_at_char c (x # xs) =
    (if x = c then [] # split_at_char c xs
     else case split_at_char c xs of f # fs \<Rightarrow> (x # f) # fs | [] \<Rightarrow> [[x]])"

text \<open>
  \<open>str::lines\<close>: no empty line after the last line feed, and a carriage return goes with the line
  feed that follows it.
\<close>

definition strip_return :: "string \<Rightarrow> string" where
  "strip_return line = (if line \<noteq> [] \<and> last line = CHR 0x0D then butlast line else line)"

definition text_lines :: "string \<Rightarrow> string list" where
  "text_lines s = (case split_at_char NEWLINE s of
     pieces \<Rightarrow> map strip_return (butlast pieces) @ (if last pieces = [] then [] else [last pieces]))"

text \<open>\<open>str::parse::<u64>\<close>: a sign \<open>+\<close> is accepted before at least one digit.\<close>

definition str_parse_u64 :: "string \<Rightarrow> u64 option" where
  "str_parse_u64 s = (case s of
     [] \<Rightarrow> None
   | c # rest \<Rightarrow> if c = CHR ''+'' then (if rest = [] then None else parse_u64_digits rest)
                 else parse_u64_digits s)"

section \<open>The CSV reader\<close>

datatype replay_parse_error =
    EmptyInput
  | MissingColumn string
  | QuotedCsvUnsupported nat
  | InvalidField nat string string
  | InvalidSide nat string

definition parse_row :: "string \<Rightarrow> nat \<Rightarrow> replay_parse_error + string list" where
  "parse_row line line_number =
    (if QUOTE \<in> set line then Err (QuotedCsvUnsupported line_number)
     else Ok (map trim (split_at_char (CHR '','') line)))"

definition parse_u64 :: "string \<Rightarrow> nat \<Rightarrow> string \<Rightarrow> replay_parse_error + u64" where
  "parse_u64 value line column = ok_or (InvalidField line column value) (str_parse_u64 value)"

definition parse_side :: "string \<Rightarrow> nat \<Rightarrow> replay_parse_error + side" where
  "parse_side value line =
    (let v = to_ascii_lowercase value
     in if v \<in> {''base_to_quote'', ''b2q'', ''sell_base''} then Ok BaseToQuote
        else if v \<in> {''quote_to_base'', ''q2b'', ''buy_base''} then Ok QuoteToBase
        else Err (InvalidSide line value))"

definition parse_optional_flow ::
    "string option \<Rightarrow> string option \<Rightarrow> nat \<Rightarrow> replay_parse_error + flow_order option" where
  "parse_optional_flow side_cell amount_cell line =
    (let side_value = (case side_cell of None \<Rightarrow> [] | Some s \<Rightarrow> s);
         amount_value = (case amount_cell of None \<Rightarrow> [] | Some s \<Rightarrow> s)
     in if side_value = [] \<and> amount_value = [] then Ok None
        else if side_value = [] then Err (InvalidField line ''side'' side_value)
        else if amount_value = [] then Err (InvalidField line ''amount_in'' amount_value)
        else and_then (parse_side side_value line) (\<lambda>s.
             and_then (parse_u64 amount_value line ''amount_in'') (\<lambda>a.
             Ok (Some \<lparr>fo_side = s, fo_amount_in = a\<rparr>))))"

definition parse_landing_slot :: "string \<Rightarrow> nat \<Rightarrow> replay_parse_error + u64 option" where
  "parse_landing_slot value line =
    (if value \<in> {''drop'', ''dropped'', ''none''} then Ok None
     else map_ok Some (parse_u64 value line ''quote_landing_slot''))"

definition cell :: "string list \<Rightarrow> nat \<Rightarrow> string" where
  "cell cells i = (if i < length cells then cells ! i else [])"

definition optional_cell :: "string list \<Rightarrow> nat option \<Rightarrow> string option" where
  "optional_cell cells i = map_option (cell cells) i"

record replay_column_indices =
  ci_slot :: nat
  ci_fair_price :: nat
  ci_side :: "nat option"
  ci_amount_in :: "nat option"
  ci_quote_landing_slot :: "nat option"

text \<open>The position of a header: the last of the equal ones, as the later insertion replaces.\<close>

definition column_positions :: "string list \<Rightarrow> string \<rightharpoonup> nat" where
  "column_positions headers =
    foldl (\<lambda>m (i, h). m(to_ascii_lowercase h \<mapsto> i)) Map.empty (enumerate 0 headers)"

fun optional_column :: "(string \<rightharpoonup> nat) \<Rightarrow> string list \<Rightarrow> nat option" where
  "optional_column positions [] = None"
| "optional_column positions (name # names) =
    (case positions name of Some i \<Rightarrow> Some i | None \<Rightarrow> optional_column positions names)"

definition required_column :: "(string \<rightharpoonup> nat) \<Rightarrow> string list \<Rightarrow> replay_parse_error + nat" where
  "required_column positions names = ok_or (MissingColumn (hd names)) (optional_column positions names)"

definition replay_column_indices_new :: "string list \<Rightarrow> replay_parse_error + replay_column_indices" where
  "replay_column_indices_new headers =
    (let positions = column_positions headers
     in and_then (required_column positions [''slot'']) (\<lambda>slot.
        and_then (required_column positions [''fair_price'', ''fair_price_quote_atoms_per_base_atom'']) (\<lambda>fair.
        Ok \<lparr>ci_slot = slot, ci_fair_price = fair,
            ci_side = optional_column positions [''side''],
            ci_amount_in = optional_column positions [''amount_in''],
            ci_quote_landing_slot = optional_column positions
              [''quote_landing_slot'', ''update_landing_slot'', ''landing_slot'']\<rparr>)))"

text \<open>One iteration of the loop over the lines: the slot of a line and the update it sends.\<close>

definition parse_update ::
    "string option \<Rightarrow> u64 \<Rightarrow> q64x64 \<Rightarrow> nat \<Rightarrow> replay_parse_error + quote_update_event list" where
  "parse_update landing_cell slot fair_price line =
    (case landing_cell of
       None \<Rightarrow> Ok []
     | Some value \<Rightarrow>
        if value = [] then Ok []
        else and_then (parse_landing_slot value line) (\<lambda>landing.
          Ok [\<lparr>qe_publish_slot = slot, qe_landing_slot = landing, qe_mid_price = fair_price\<rparr>]))"

definition parse_line ::
    "replay_column_indices \<Rightarrow> nat \<Rightarrow> string \<Rightarrow> replay_parse_error + market_slot \<times> quote_update_event list" where
  "parse_line indices line_number line =
    (if QUOTE \<in> set line then Err (QuotedCsvUnsupported line_number)
     else and_then (parse_row line line_number) (\<lambda>cells.
          and_then (parse_u64 (cell cells (ci_slot indices)) line_number ''slot'') (\<lambda>slot.
          and_then (parse_u64 (cell cells (ci_fair_price indices)) line_number ''fair_price'') (\<lambda>fair.
          and_then (parse_optional_flow (optional_cell cells (ci_side indices))
                      (optional_cell cells (ci_amount_in indices)) line_number) (\<lambda>flow.
          and_then (parse_update (optional_cell cells (ci_quote_landing_slot indices)) slot
                      (from_int fair) line_number) (\<lambda>updates.
          Ok (\<lparr>ms_slot = slot, ms_fair_price = from_int fair, ms_flow = flow\<rparr>, updates)))))))"

fun parse_data_lines ::
    "replay_column_indices \<Rightarrow> (nat \<times> string) list \<Rightarrow> replay_market_path \<Rightarrow> replay_parse_error + replay_market_path" where
  "parse_data_lines indices [] path = Ok path"
| "parse_data_lines indices ((line_index, line) # rest) path =
    (case parse_line indices (line_index + 1) line of
       Err e \<Rightarrow> Err e
     | Ok row \<Rightarrow> parse_data_lines indices rest
         \<lparr>rp_slots = rp_slots path @ [fst row], rp_quote_updates = rp_quote_updates path @ snd row\<rparr>)"

definition data_line :: "string \<Rightarrow> bool" where
  "data_line line \<longleftrightarrow> trim line \<noteq> [] \<and> \<not> (trim_start line \<noteq> [] \<and> hd (trim_start line) = CHR ''#'')"

definition numbered_lines :: "string \<Rightarrow> (nat \<times> string) list" where
  "numbered_lines input = filter (\<lambda>(_, line). data_line line) (enumerate 0 (text_lines input))"

definition parse_replay_csv :: "string \<Rightarrow> replay_parse_error + replay_market_path" where
  "parse_replay_csv input =
    (case numbered_lines input of
       [] \<Rightarrow> Err EmptyInput
     | (header_line, header) # rest \<Rightarrow>
        if QUOTE \<in> set header then Err (QuotedCsvUnsupported (header_line + 1))
        else and_then (parse_row header (header_line + 1)) (\<lambda>headers.
             and_then (replay_column_indices_new headers) (\<lambda>indices.
             parse_data_lines indices rest \<lparr>rp_slots = [], rp_quote_updates = []\<rparr>)))"

section \<open>Reading what was written\<close>

text \<open>
  The format the reader accepts, written out: one line of cells for the header and one per slot,
  with its optional trade and its optional update (landed at a slot, or dropped).
\<close>

type_synonym replay_row = "u64 \<times> u64 \<times> flow_order option \<times> u64 option option"

definition side_text :: "side \<Rightarrow> string" where
  "side_text s = (case s of BaseToQuote \<Rightarrow> ''base_to_quote'' | QuoteToBase \<Rightarrow> ''quote_to_base'')"

definition landing_text :: "u64 option option \<Rightarrow> string" where
  "landing_text l = (case l of None \<Rightarrow> [] | Some None \<Rightarrow> ''drop'' | Some (Some slot) \<Rightarrow> show_nat (unat slot))"

fun row_cells :: "replay_row \<Rightarrow> string list" where
  "row_cells (slot, price, flow, landing) =
    [show_nat (unat slot), show_nat (unat price)]
    @ (case flow of None \<Rightarrow> [[], []] | Some f \<Rightarrow> [side_text (fo_side f), show_nat (unat (fo_amount_in f))])
    @ [landing_text landing]"

definition header_cells :: "string list" where
  "header_cells = [''slot'', ''fair_price'', ''side'', ''amount_in'', ''quote_landing_slot'']"

fun join_cells :: "string list \<Rightarrow> string" where
  "join_cells [] = []"
| "join_cells [c] = c"
| "join_cells (c # cs) = c @ CHR '','' # join_cells cs"

definition write_replay :: "replay_row list \<Rightarrow> string" where
  "write_replay rows = concat (map (\<lambda>cs. join_cells cs @ [NEWLINE]) (header_cells # map row_cells rows))"

fun row_slot :: "replay_row \<Rightarrow> market_slot" where
  "row_slot (slot, price, flow, landing) = \<lparr>ms_slot = slot, ms_fair_price = from_int price, ms_flow = flow\<rparr>"

fun row_updates :: "replay_row \<Rightarrow> quote_update_event list" where
  "row_updates (slot, price, flow, None) = []"
| "row_updates (slot, price, flow, Some landing) =
    [\<lparr>qe_publish_slot = slot, qe_landing_slot = landing, qe_mid_price = from_int price\<rparr>]"

definition rows_path :: "replay_row list \<Rightarrow> replay_market_path" where
  "rows_path rows = \<lparr>rp_slots = map row_slot rows, rp_quote_updates = concat (map row_updates rows)\<rparr>"

text \<open>Cells hold lower-case letters, digits and underscores, which neither end a cell nor a line.\<close>

definition cell_char :: "char \<Rightarrow> bool" where
  "cell_char c \<longleftrightarrow> (let n = (of_char c :: nat) in 48 \<le> n \<and> n \<le> 57 \<or> n = 95 \<or> 97 \<le> n \<and> n \<le> 122)"

definition cell_text :: "string \<Rightarrow> bool" where
  "cell_text s \<longleftrightarrow> list_all cell_char s"

lemma split_at_char_none: "c \<notin> set xs \<Longrightarrow> split_at_char c xs = [xs]"
  by (induction xs) auto

lemma split_at_char_next: "c \<notin> set xs \<Longrightarrow> split_at_char c (xs @ c # ys) = xs # split_at_char c ys"
  by (induction xs) auto

lemma cell_char_simps [simp]:
  "cell_char c \<Longrightarrow> \<not> is_whitespace c" "\<not> cell_char (CHR '','')" "\<not> cell_char QUOTE" "\<not> cell_char NEWLINE"
  "\<not> cell_char (CHR 0x0D)" "\<not> cell_char (CHR ''#'')" "\<not> cell_char (CHR ''+'')"
  by (auto simp: cell_char_def is_whitespace_def Let_def)

lemma cell_text_no: "cell_text s \<Longrightarrow> \<not> cell_char c \<Longrightarrow> c \<notin> set s"
  by (auto simp: cell_text_def list_all_iff)

lemma cell_text_trim: "cell_text s \<Longrightarrow> trim_start s = s" "cell_text s \<Longrightarrow> trim s = s"
proof -
  have d: "dropWhile is_whitespace s = s" if "cell_text s" for s
    using that by (cases s) (auto simp: cell_text_def)
  show "cell_text s \<Longrightarrow> trim_start s = s" "cell_text s \<Longrightarrow> trim s = s"
    using d[of s] d[of "rev s"] by (simp_all add: trim_start_def trim_def cell_text_def)
qed

lemma show_nat_cell [simp]: "cell_text (show_nat n)"
  using show_nat_digits by (auto simp: cell_text_def list_all_iff cell_char_def is_ascii_digit_def Let_def)

lemma header_cells_text: "list_all cell_text header_cells"
  by code_simp

lemma row_cells_text: "list_all cell_text (row_cells row)"
proof -
  have "cell_text (side_text BaseToQuote)" "cell_text (side_text QuoteToBase)" by code_simp+
  then have "cell_text (side_text s)" for s by (cases s) simp_all
  moreover have "cell_text (landing_text l)" for l
  proof -
    have "cell_text ''drop''" "cell_text []" by code_simp+
    then show ?thesis by (simp add: landing_text_def split: option.split)
  qed
  moreover have "cell_text []" by code_simp
  ultimately show ?thesis by (cases row) (auto split: option.split)
qed

lemma split_join_cells: "cs \<noteq> [] \<Longrightarrow> list_all cell_text cs \<Longrightarrow> split_at_char (CHR '','') (join_cells cs) = cs"
  by (induction cs rule: join_cells.induct)
    (simp_all add: split_at_char_none split_at_char_next cell_text_no)

lemma join_cells_set:
  "list_all cell_text cs \<Longrightarrow> c \<in> set (join_cells cs) \<Longrightarrow> cell_char c \<or> c = CHR '',''"
  by (induction cs rule: join_cells.induct) (auto simp: cell_text_def list_all_iff)

lemma parse_row_join:
  assumes "cs \<noteq> []" "list_all cell_text cs"
  shows "parse_row (join_cells cs) n = Ok cs" "QUOTE \<notin> set (join_cells cs)"
proof -
  show q: "QUOTE \<notin> set (join_cells cs)" using join_cells_set[OF assms(2), of QUOTE] by auto
  have "map trim cs = cs" using assms(2) by (induction cs) (auto simp: cell_text_trim)
  with q show "parse_row (join_cells cs) n = Ok cs"
    by (simp add: parse_row_def split_join_cells[OF assms])
qed

lemma text_lines_write:
  assumes "\<And>l. l \<in> set ls \<Longrightarrow> NEWLINE \<notin> set l \<and> CHR 0x0D \<notin> set l"
  shows "text_lines (concat (map (\<lambda>l. l @ [NEWLINE]) ls)) = ls"
proof -
  let ?t = "\<lambda>ls. concat (map (\<lambda>l. l @ [NEWLINE]) ls)"
  have "split_at_char NEWLINE (?t ls) = ls @ [[]]" using assms
    by (induction ls) (simp_all add: split_at_char_next)
  moreover have "map strip_return ls = ls" using assms
    by (intro map_idI) (auto simp: strip_return_def dest: last_in_set)
  ultimately show ?thesis by (simp add: text_lines_def)
qed

lemma join_cells_data_line:
  assumes "list_all cell_text cs" "cs \<noteq> []" "hd cs \<noteq> []"
  shows "data_line (join_cells cs)"
proof -
  obtain c rest where j: "join_cells cs = c # rest" and c: "cell_char c"
  proof (cases cs)
    case (Cons x xs)
    then obtain c y where x: "x = c # y" using assms(3) by (cases x) auto
    then have "cell_char c" using assms(1) Cons by (simp add: cell_text_def)
    with that x Cons show ?thesis by (cases xs) auto
  qed (use assms(2) in simp)
  have "c \<noteq> CHR ''#''" using c by auto
  with c show ?thesis by (simp add: j data_line_def trim_def trim_start_def)
qed

lemma str_parse_show_nat: "str_parse_u64 (show_nat (unat v)) = Some v"
proof -
  obtain c rest where s: "show_nat (unat v) = c # rest" by (cases "show_nat (unat v)") auto
  have "c \<noteq> CHR ''+''" using show_nat_cell[of "unat v"] by (auto simp: s cell_text_def)
  then show ?thesis using parse_show_nat[of "unat v"] u64_bound[of v] by (simp add: str_parse_u64_def s)
qed

lemma parse_u64_show_nat [simp]: "parse_u64 (show_nat (unat v)) line column = Ok v"
  by (simp add: parse_u64_def str_parse_show_nat ok_or_def)

definition header_indices :: replay_column_indices where
  "header_indices = \<lparr>ci_slot = 0, ci_fair_price = 1, ci_side = Some 2, ci_amount_in = Some 3,
     ci_quote_landing_slot = Some 4\<rparr>"

lemma header_columns: "replay_column_indices_new header_cells = Ok header_indices"
  by code_simp

lemma cell_numbered [simp]:
  "cell (x # xs) 0 = x" "cell (x # xs) (Suc n) = cell xs n" "cell [] n = []"
  by (simp_all add: cell_def)

lemma parse_flow_cells:
  "parse_optional_flow (Some []) (Some []) n = Ok None"
  "parse_optional_flow (Some (side_text (fo_side f))) (Some (show_nat (unat (fo_amount_in f)))) n = Ok (Some f)"
proof -
  have "parse_side (side_text BaseToQuote) n = Ok BaseToQuote" "parse_side (side_text QuoteToBase) n = Ok QuoteToBase"
    "side_text BaseToQuote \<noteq> []" "side_text QuoteToBase \<noteq> []"
    by code_simp+
  then have "parse_side (side_text s) n = Ok s" "side_text s \<noteq> []" for s by (cases s; simp)+
  then show "parse_optional_flow (Some (side_text (fo_side f))) (Some (show_nat (unat (fo_amount_in f)))) n = Ok (Some f)"
    by (simp add: parse_optional_flow_def)
qed (simp add: parse_optional_flow_def)

lemma parse_landing_cell:
  "parse_update (Some (landing_text l)) slot (from_int price) n = Ok (row_updates (slot, price, flow, l))"
proof -
  have d: "s \<notin> {''drop'', ''dropped'', ''none''}" if s: "s = show_nat k" for s k
  proof -
    have "list_all is_ascii_digit s" using show_nat_digits[of _ k] by (auto simp: s list_all_iff)
    moreover have "\<not> list_all is_ascii_digit ''drop''" "\<not> list_all is_ascii_digit ''dropped''"
      "\<not> list_all is_ascii_digit ''none''" by code_simp+
    ultimately show ?thesis by blast
  qed
  show ?thesis
  proof (cases l)
    case None
    then show ?thesis by (simp add: parse_update_def landing_text_def)
  next
    case (Some l')
    then show ?thesis using d[OF refl, of "unat (the l')"]
      by (cases l') (simp_all add: parse_update_def landing_text_def parse_landing_slot_def map_ok_def)
  qed
qed

lemma parse_line_cells:
  assumes "cs \<noteq> []" "list_all cell_text cs"
    and "parse_u64 (cell cs (ci_slot indices)) n ''slot'' = Ok slot"
    and "parse_u64 (cell cs (ci_fair_price indices)) n ''fair_price'' = Ok fair"
    and "parse_optional_flow (optional_cell cs (ci_side indices)) (optional_cell cs (ci_amount_in indices)) n = Ok flow"
    and "parse_update (optional_cell cs (ci_quote_landing_slot indices)) slot (from_int fair) n = Ok updates"
  shows "parse_line indices n (join_cells cs)
    = Ok (\<lparr>ms_slot = slot, ms_fair_price = from_int fair, ms_flow = flow\<rparr>, updates)"
  using assms(3-) parse_row_join[OF assms(1,2)] by (simp add: parse_line_def)

lemma parse_line_row:
  "parse_line header_indices n (join_cells (row_cells row)) = Ok (row_slot row, row_updates row)"
proof -
  obtain slot price flow landing where row: "row = (slot, price, flow, landing)" by (cases row)
  have "row_cells row \<noteq> []" by (simp add: row)
  from parse_line_cells[OF this row_cells_text, of header_indices n slot price flow "row_updates row"]
  show ?thesis
    by (cases flow) (simp_all add: header_indices_def optional_cell_def row numeral_eq_Suc
        parse_flow_cells parse_landing_cell[of landing slot price n flow])
qed

lemma parse_data_lines_rows:
  "parse_data_lines header_indices (enumerate k (map (join_cells \<circ> row_cells) rows)) path =
    Ok \<lparr>rp_slots = rp_slots path @ map row_slot rows,
        rp_quote_updates = rp_quote_updates path @ concat (map row_updates rows)\<rparr>"
  by (induction rows arbitrary: k path) (simp_all add: parse_line_row)

lemma numbered_write:
  "numbered_lines (write_replay rows) = (0, join_cells header_cells) # enumerate 1 (map (join_cells \<circ> row_cells) rows)"
proof -
  let ?cs = "header_cells # map row_cells rows"
  have cells: "list_all cell_text cs \<and> cs \<noteq> [] \<and> hd cs \<noteq> []" if "cs \<in> set ?cs" for cs
  proof -
    have "header_cells \<noteq> [] \<and> hd header_cells \<noteq> []" by code_simp
    moreover have "row_cells row \<noteq> [] \<and> hd (row_cells row) \<noteq> []" for row by (cases row) simp
    ultimately show ?thesis using that header_cells_text row_cells_text by auto
  qed
  have no: "NEWLINE \<notin> set (join_cells cs) \<and> CHR 0x0D \<notin> set (join_cells cs)" if "cs \<in> set ?cs" for cs
    using cells[OF that] join_cells_set[of cs NEWLINE] join_cells_set[of cs "CHR 0x0D"] by auto
  have "write_replay rows = concat (map (\<lambda>l. l @ [NEWLINE]) (map join_cells ?cs))"
    by (simp add: write_replay_def comp_def)
  then have lines: "text_lines (write_replay rows) = map join_cells ?cs"
    using no by (simp only:) (rule text_lines_write, auto)
  have "filter (\<lambda>(_, line). data_line line) (enumerate 0 (map join_cells ?cs)) = enumerate 0 (map join_cells ?cs)"
    using cells by (intro filter_True) (auto simp: in_set_enumerate_eq join_cells_data_line nth_Cons split: nat.splits)
  then show ?thesis by (simp add: numbered_lines_def lines)
qed

lemma parse_write_replay: "parse_replay_csv (write_replay rows) = Ok (rows_path rows)"
proof -
  have ne: "header_cells \<noteq> []" by code_simp
  show ?thesis
    by (simp add: parse_replay_csv_def numbered_write parse_row_join[OF ne header_cells_text] header_columns
        parse_data_lines_rows rows_path_def)
qed

text \<open>
  C24: a path written line by line in the documented columns, with its trades and with its landed
  and dropped updates, is read back exactly.
\<close>

theorem replay_round_trip: "parse_replay_csv (write_replay rows) = Ok (rows_path rows)"
  by (rule parse_write_replay)

section \<open>What a parsed path is\<close>

lemma parse_update_slots:
  assumes "parse_update c slot fair n = Ok us" "u \<in> set us"
  shows "qe_publish_slot u = slot \<and> qe_mid_price u = fair"
  using assms by (auto simp: parse_update_def and_then_eq_Ok split: option.splits if_splits)

lemma parse_line_slots:
  assumes "parse_line indices n line = Ok row" "u \<in> set (snd row)"
  shows "qe_publish_slot u = ms_slot (fst row) \<and> qe_mid_price u = ms_fair_price (fst row)"
  using assms by (auto simp: parse_line_def and_then_eq_Ok split: if_splits dest: parse_update_slots)

definition updates_of_slots :: "replay_market_path \<Rightarrow> bool" where
  "updates_of_slots path \<longleftrightarrow> (\<forall>u \<in> set (rp_quote_updates path). \<exists>s \<in> set (rp_slots path).
     qe_publish_slot u = ms_slot s \<and> qe_mid_price u = ms_fair_price s)"

lemma parse_data_lines_slots:
  "parse_data_lines indices ls path = Ok path' \<Longrightarrow> updates_of_slots path \<Longrightarrow> updates_of_slots path'"
proof (induction indices ls path rule: parse_data_lines.induct)
  case (2 indices line_index line rest path)
  from "2.prems"(1) obtain row where row: "parse_line indices (line_index + 1) line = Ok row"
    and rest: "parse_data_lines indices rest
      \<lparr>rp_slots = rp_slots path @ [fst row], rp_quote_updates = rp_quote_updates path @ snd row\<rparr> = Ok path'"
    by (auto split: sum.splits)
  from "2.prems"(2) parse_line_slots[OF row]
  have "updates_of_slots \<lparr>rp_slots = rp_slots path @ [fst row], rp_quote_updates = rp_quote_updates path @ snd row\<rparr>"
    by (fastforce simp: updates_of_slots_def)
  with "2.IH"[OF row rest] show ?case .
qed simp

lemma parsed_updates_of_slots:
  assumes "parse_replay_csv input = Ok path"
  shows "updates_of_slots path"
proof -
  have empty: "updates_of_slots \<lparr>rp_slots = [], rp_quote_updates = []\<rparr>" by (simp add: updates_of_slots_def)
  from assms show ?thesis
    by (auto simp: parse_replay_csv_def and_then_eq_Ok split: list.splits if_splits
        intro: parse_data_lines_slots[OF _ empty])
qed

end
