(* ===== verification/Sim_Stats.thy ===== *)
theory Sim_Stats imports Sim_Market "HOL-Library.Signed_Division" "HOL-Library.Multiset" begin
text \<open>
  The statistics of \<open>crates/meta_amm_sim/src/lib.rs\<close>: summaries of a metric over the simulated
  paths (the four \<open>summarize_*\<close> functions and records differ in the integer type only), the
  aggregate reports, and the gates that pass, warn on or block a scenario.  Shown here: the
  parts of a summary are ordered and come from the data, and an evaluation passes exactly when
  every metric is within its threshold.
\<close>

section \<open>Summaries\<close>

record 'a summary =
  sm_min :: 'a
  sm_p05 :: 'a
  sm_mean :: 'a
  sm_p50 :: 'a
  sm_p95 :: 'a
  sm_max :: 'a

definition percentile_index :: "nat \<Rightarrow> nat \<Rightarrow> nat" where
  "percentile_index len percentile = (if len = 0 then 0 else (len - 1) * percentile div 100)"

definition percentile_of :: "'a list \<Rightarrow> nat \<Rightarrow> 'a" where
  "percentile_of values percentile = values ! percentile_index (length values) percentile"

text \<open>What the summaries share: the sorted data and its percentiles, around a mean.\<close>

definition summary_around :: "'a::{linorder,zero} list \<Rightarrow> ('a list \<Rightarrow> 'a) \<Rightarrow> 'a summary" where
  "summary_around values mean =
    (if values = [] then \<lparr>sm_min = 0, sm_p05 = 0, sm_mean = 0, sm_p50 = 0, sm_p95 = 0, sm_max = 0\<rparr>
     else let values = sort values
          in \<lparr>sm_min = values ! 0, sm_p05 = percentile_of values 5, sm_mean = mean values,
              sm_p50 = percentile_of values 50, sm_p95 = percentile_of values 95,
              sm_max = values ! (length values - 1)\<rparr>)"

text \<open>
  The sum of \<open>u16\<close> and \<open>u64\<close> values is a \<open>u128\<close> and cannot overflow for fewer than \<open>2 ^ 64\<close>
  of them; the sums of \<open>u128\<close> and \<open>i128\<close> values saturate.
\<close>

definition summarize_u64 :: "'a::len word list \<Rightarrow> 'a word summary" where
  "summarize_u64 values = summary_around values
    (\<lambda>values. ucast (foldl (\<lambda>sum v. sum + (ucast v :: u128)) 0 values div of_nat (length values)))"

definition summarize_u128 :: "u128 list \<Rightarrow> u128 summary" where
  "summarize_u128 values = summary_around values
    (\<lambda>values. foldl saturating_add 0 values div of_nat (length values))"

definition summarize_i128 :: "int list \<Rightarrow> nat \<Rightarrow> int summary" where
  "summarize_i128 values count_hint = summary_around values
    (\<lambda>values. foldl (\<lambda>sum v. saturate_i128 (sum + v)) 0 values
       sdiv int (max (max (length values) count_hint) 1))"

definition summary_ordered :: "'a::linorder summary \<Rightarrow> bool" where
  "summary_ordered s \<longleftrightarrow> sm_min s \<le> sm_p05 s \<and> sm_p05 s \<le> sm_p50 s \<and> sm_p50 s \<le> sm_p95 s
     \<and> sm_p95 s \<le> sm_max s"

lemma percentile_index_less: "0 < n \<Longrightarrow> p \<le> 100 \<Longrightarrow> percentile_index n p < n"
proof -
  assume n: "0 < n" and p: "p \<le> 100"
  have "(n - 1) * p div 100 \<le> (n - 1) * 100 div 100" using p by (intro div_le_mono mult_le_mono2)
  with n show ?thesis by (simp add: percentile_index_def)
qed

lemma percentile_index_mono: "p \<le> q \<Longrightarrow> percentile_index n p \<le> percentile_index n q"
  by (simp add: percentile_index_def div_le_mono mult_le_mono2)

lemma percentile_of_mono:
  assumes "sorted xs" "xs \<noteq> []" "p \<le> q" "q \<le> 100"
  shows "percentile_of xs p \<le> percentile_of xs q"
  using assms unfolding percentile_of_def
  by (intro sorted_nth_mono) (simp_all add: percentile_index_mono percentile_index_less)

lemma percentile_of_bounds:
  assumes "sorted xs" "xs \<noteq> []" "p \<le> 100"
  shows "xs ! 0 \<le> percentile_of xs p" "percentile_of xs p \<le> xs ! (length xs - 1)" "percentile_of xs p \<in> set xs"
proof -
  have i: "percentile_index (length xs) p < length xs" using assms(2,3) by (simp add: percentile_index_less)
  then show "percentile_of xs p \<in> set xs" by (simp add: percentile_of_def)
  show "xs ! 0 \<le> percentile_of xs p" "percentile_of xs p \<le> xs ! (length xs - 1)"
    using assms(1) i unfolding percentile_of_def by (auto intro!: sorted_nth_mono)
qed

lemma sort_eq_Nil [simp]: "sort xs = [] \<longleftrightarrow> xs = []"
  by (metis length_0_conv length_sort)

lemma summary_around_ordered: "summary_ordered (summary_around values mean)"
proof (cases "values = []")
  case False
  then have ne: "sort values \<noteq> []" by simp
  show ?thesis
    using False percentile_of_bounds(1,2)[OF sorted_sort ne] percentile_of_mono[OF sorted_sort ne]
    by (simp add: summary_around_def summary_ordered_def Let_def del: One_nat_def)
qed (simp add: summary_around_def summary_ordered_def)

text \<open>All data within bounds gives percentiles within the same bounds.\<close>

lemma summary_around_percentiles:
  assumes "values \<noteq> []" "s = summary_around values mean"
  shows "sm_min s \<in> set values" "sm_p05 s \<in> set values" "sm_p50 s \<in> set values" "sm_p95 s \<in> set values"
    "sm_max s \<in> set values" "\<And>v. v \<in> set values \<Longrightarrow> sm_min s \<le> v \<and> v \<le> sm_max s"
proof -
  let ?v = "sort values"
  have ne: "?v \<noteq> []" using assms(1) by simp
  have s: "sm_min s = ?v ! 0" "sm_p05 s = percentile_of ?v 5" "sm_p50 s = percentile_of ?v 50"
    "sm_p95 s = percentile_of ?v 95" "sm_max s = ?v ! (length ?v - 1)"
    using assms by (simp_all add: summary_around_def Let_def)
  have p: "percentile_of ?v p \<in> set values" if "p \<le> 100" for p
    using percentile_of_bounds(3)[OF sorted_sort ne that] by simp
  show "sm_p05 s \<in> set values" "sm_p50 s \<in> set values" "sm_p95 s \<in> set values"
    unfolding s by (rule p, simp)+
  show "sm_min s \<in> set values" "sm_max s \<in> set values"
    unfolding s using ne by (metis length_greater_0_conv nth_mem set_sort diff_less zero_less_one)+
  fix v assume "v \<in> set values"
  then obtain i where i: "i < length ?v" "v = ?v ! i" by (metis in_set_conv_nth set_sort)
  then show "sm_min s \<le> v \<and> v \<le> sm_max s"
    unfolding s by (auto intro!: sorted_nth_mono)
qed

section \<open>The mean\<close>

lemma foldl_sum_exact:
  fixes vs :: "'a::len word list"
  assumes "LENGTH('a) \<le> 64" "unat s + sum_list (map unat vs) < 2 ^ 128"
  shows "unat (foldl (\<lambda>sum v. sum + (ucast v :: u128)) s vs) = unat s + sum_list (map unat vs)"
  using assms(2)
proof (induction vs arbitrary: s)
  case (Cons v vs)
  have v: "unat (ucast v :: u128) = unat v"
    using assms(1) by (intro unat_ucast_widen) simp
  have "unat s + unat v < 2 ^ 128" using Cons.prems by simp
  then have "unat (s + (ucast v :: u128)) = unat s + unat v" by (simp add: unat_add_fits v)
  with Cons.prems Cons.IH[of "s + ucast v"] show ?case by simp
qed simp

lemma sum_list_bounds:
  fixes vs :: "nat list"
  assumes "\<And>v. v \<in> set vs \<Longrightarrow> a \<le> v \<and> v \<le> b"
  shows "length vs * a \<le> sum_list vs \<and> sum_list vs \<le> length vs * b"
  using assms by (induction vs) (auto simp: add_mono)

lemma mean_between:
  fixes vs :: "nat list"
  assumes "vs \<noteq> []" "\<And>v. v \<in> set vs \<Longrightarrow> a \<le> v \<and> v \<le> b"
  shows "a \<le> sum_list vs div length vs" "sum_list vs div length vs \<le> b"
proof -
  have l: "0 < length vs" using assms(1) by simp
  note s = sum_list_bounds[of vs a b, OF assms(2)]
  show "a \<le> sum_list vs div length vs" using s l by (simp add: less_eq_div_iff_mult_less_eq mult.commute)
  show "sum_list vs div length vs \<le> b"
    using div_le_mono[OF conjunct2[OF s], of "length vs"] l by simp
qed

text \<open>
  The mean of a summary of \<open>u16\<close> or \<open>u64\<close> values is the exact mean rounded down, it lies
  between the minimum and the maximum, and the percentiles are in order.
\<close>

lemma summary_mean_exact:
  fixes vs :: "'a::len word list"
  assumes "LENGTH('a) \<le> 64" "vs \<noteq> []" "length vs < 2 ^ 64"
  shows "unat (sm_mean (summarize_u64 vs)) = sum_list (map unat vs) div length vs
    \<and> sm_min (summarize_u64 vs) \<le> sm_mean (summarize_u64 vs)
    \<and> sm_mean (summarize_u64 vs) \<le> sm_max (summarize_u64 vs)
    \<and> summary_ordered (summarize_u64 vs)"
proof -
  let ?s = "summarize_u64 vs" and ?v = "sort vs"
  have sum_eq: "sum_list (map unat ?v) = sum_list (map unat vs)"
    by (simp flip: sum_mset_sum_list)
  have small: "unat v < 2 ^ 64" for v :: "'a word"
    using unat_lt2p[of v] assms(1) by (metis less_le_trans one_le_numeral power_increasing)
  have "sum_list (map unat vs) \<le> length vs * 2 ^ 64"
    using sum_list_bounds[of "map unat vs" 0 "2 ^ 64"] small by (force simp: less_imp_le)
  also have "\<dots> < 2 ^ 64 * 2 ^ 64" using assms(3) by (intro mult_strict_right_mono) simp_all
  finally have fits: "sum_list (map unat vs) < 2 ^ 128" by simp
  have len: "unat (of_nat (length vs) :: u128) = length vs"
    using assms(3) by (intro unat_of_nat_fits) simp
  let ?m = "foldl (\<lambda>sum v. sum + (ucast v :: u128)) 0 ?v div of_nat (length ?v)"
  have m: "unat ?m = sum_list (map unat vs) div length vs"
    using foldl_sum_exact[OF assms(1), of 0 ?v] fits by (simp add: unat_div sum_eq len)
  have mean: "sm_mean ?s = ucast ?m"
    using assms(2) by (simp add: summarize_u64_def summary_around_def Let_def)
  note pts = summary_around_percentiles[OF assms(2), of ?s, unfolded summarize_u64_def, OF refl,
      folded summarize_u64_def]
  have "unat (sm_min ?s) \<le> v \<and> v \<le> unat (sm_max ?s)" if "v \<in> set (map unat vs)" for v
    using that pts(6) by (auto simp: word_le_nat_alt)
  note b = mean_between[OF _ this, of "map unat vs", simplified]
  have le: "unat ?m \<le> unat (sm_max ?s)" "unat (sm_min ?s) \<le> unat ?m"
    using b assms(2) m by simp_all
  then have "unat ?m < 2 ^ LENGTH('a)" using unat_lt2p[of "sm_max ?s"] by linarith
  then have u: "unat (sm_mean ?s) = unat ?m" by (simp add: mean unat_ucast_narrow)
  with le m show ?thesis
    by (simp add: word_le_nat_alt summarize_u64_def summary_around_ordered)
qed

theorem summary_mean_exact_witness:
  "unat (sm_mean (summarize_u64 [9, 1, 5 :: u16])) = 5 \<and> sm_min (summarize_u64 [9, 1, 5 :: u16]) \<le> 5"
  using summary_mean_exact[of "[9, 1, 5 :: u16]"] by (simp add: word_le_nat_alt)

section \<open>Aggregate reports\<close>

record aggregate_report =
  ag_assumptions :: scenario_assumptions
  ag_paths :: u32
  ag_trades_attempted :: "u64 summary"
  ag_trades_filled :: "u64 summary"
  ag_fill_rate_bps :: "u16 summary"
  ag_fees_quote_atoms :: "u128 summary"
  ag_taker_edge_quote_atoms :: "int summary"

record reference_aggregate_report =
  ra_assumptions :: scenario_assumptions
  ra_paths :: u32
  ra_trades_attempted :: "u64 summary"
  ra_trades_filled :: "u64 summary"
  ra_fill_rate_bps :: "u16 summary"
  ra_rejected_stale :: "u64 summary"
  ra_rejected_protected :: "u64 summary"
  ra_rejected_inventory :: "u64 summary"
  ra_rejected_other :: "u64 summary"
  ra_quote_updates_sent :: "u64 summary"
  ra_quote_updates_landed :: "u64 summary"
  ra_quote_updates_dropped :: "u64 summary"
  ra_max_quote_age_slots :: "u64 summary"
  ra_fees_quote_atoms :: "u128 summary"
  ra_taker_edge_quote_atoms :: "int summary"
  ra_max_abs_inventory_imbalance_bps :: "u16 summary"

definition sim_fill_rate_bps :: "sim_report \<Rightarrow> u16 option" where
  "sim_fill_rate_bps r = fill_rate_bps (sr_trades_filled r) (sr_trades_attempted r)"

definition reference_fill_rate_bps :: "reference_quote_report \<Rightarrow> u16 option" where
  "reference_fill_rate_bps r = fill_rate_bps (rr_trades_filled r) (rr_trades_attempted r)"

definition piecewise_fill_rate_bps :: "piecewise_prop_report \<Rightarrow> u16 option" where
  "piecewise_fill_rate_bps r = fill_rate_bps (pr_trades_filled r) (pr_trades_attempted r)"

definition sim_is_single_path :: "sim_report \<Rightarrow> bool" where
  "sim_is_single_path r \<longleftrightarrow> sc_path_count (sr_assumptions r) = 1"

definition reference_is_single_path :: "reference_aggregate_report \<Rightarrow> bool" where
  "reference_is_single_path r \<longleftrightarrow> ra_paths r = 1"

definition aggregate_is_single_path :: "aggregate_report \<Rightarrow> bool" where
  "aggregate_is_single_path r \<longleftrightarrow> ag_paths r = 1"

text \<open>\<^const>\<open>None\<close>: the fill rate of some path overflows, and the code panics.\<close>

definition aggregate_reports :: "scenario_assumptions \<Rightarrow> sim_report list \<Rightarrow> aggregate_report option" where
  "aggregate_reports assumptions reports =
    map_option (\<lambda>fill_rates.
      \<lparr>ag_assumptions = assumptions, ag_paths = of_nat (length reports),
       ag_trades_attempted = summarize_u64 (map sr_trades_attempted reports),
       ag_trades_filled = summarize_u64 (map sr_trades_filled reports),
       ag_fill_rate_bps = summarize_u64 fill_rates,
       ag_fees_quote_atoms = summarize_u128 (map sr_fees_quote_atoms reports),
       ag_taker_edge_quote_atoms =
         summarize_i128 (map sr_taker_edge_quote_atoms reports) (max (length reports) 1)\<rparr>)
      (those (map sim_fill_rate_bps reports))"

definition aggregate_reference_reports ::
    "scenario_assumptions \<Rightarrow> reference_quote_report list \<Rightarrow> reference_aggregate_report option" where
  "aggregate_reference_reports assumptions reports =
    map_option (\<lambda>fill_rates.
      \<lparr>ra_assumptions = assumptions, ra_paths = of_nat (length reports),
       ra_trades_attempted = summarize_u64 (map rr_trades_attempted reports),
       ra_trades_filled = summarize_u64 (map rr_trades_filled reports),
       ra_fill_rate_bps = summarize_u64 fill_rates,
       ra_rejected_stale = summarize_u64 (map rr_rejected_stale reports),
       ra_rejected_protected = summarize_u64 (map rr_rejected_protected reports),
       ra_rejected_inventory = summarize_u64 (map rr_rejected_inventory reports),
       ra_rejected_other = summarize_u64 (map rr_rejected_other reports),
       ra_quote_updates_sent = summarize_u64 (map rr_quote_updates_sent reports),
       ra_quote_updates_landed = summarize_u64 (map rr_quote_updates_landed reports),
       ra_quote_updates_dropped = summarize_u64 (map rr_quote_updates_dropped reports),
       ra_max_quote_age_slots = summarize_u64 (map rr_max_quote_age_slots reports),
       ra_fees_quote_atoms = summarize_u128 (map rr_fees_quote_atoms reports),
       ra_taker_edge_quote_atoms =
         summarize_i128 (map rr_taker_edge_quote_atoms reports) (max (length reports) 1),
       ra_max_abs_inventory_imbalance_bps =
         summarize_u64 (map rr_max_abs_inventory_imbalance_bps reports)\<rparr>)
      (those (map reference_fill_rate_bps reports))"

section \<open>Gates\<close>

datatype gate_severity = Pass | Warn | Block

text \<open>The derived order of the code: pass before warn before block.\<close>

instantiation gate_severity :: linorder
begin

fun severity_rank :: "gate_severity \<Rightarrow> nat" where
  "severity_rank Pass = 0" | "severity_rank Warn = 1" | "severity_rank Block = 2"

definition less_eq_gate_severity :: "gate_severity \<Rightarrow> gate_severity \<Rightarrow> bool" where
  "less_eq_gate_severity a b \<longleftrightarrow> severity_rank a \<le> severity_rank b"

definition less_gate_severity :: "gate_severity \<Rightarrow> gate_severity \<Rightarrow> bool" where
  "less_gate_severity a b \<longleftrightarrow> severity_rank a < severity_rank b"

instance
proof
  fix a b :: gate_severity
  show "a \<le> b \<Longrightarrow> b \<le> a \<Longrightarrow> a = b"
    by (cases a; cases b) (simp_all add: less_eq_gate_severity_def)
qed (auto simp: less_eq_gate_severity_def less_gate_severity_def)

end

definition severity_as_str :: "gate_severity \<Rightarrow> string" where
  "severity_as_str s = (case s of Pass \<Rightarrow> ''pass'' | Warn \<Rightarrow> ''warn'' | Block \<Rightarrow> ''block'')"

record gate_thresholds =
  gt_min_paths :: u32
  gt_warn_min_p05_fill_rate_bps :: u16
  gt_block_min_p05_fill_rate_bps :: u16
  gt_warn_max_p95_stale_reject_rate_bps :: u16
  gt_block_max_p95_stale_reject_rate_bps :: u16
  gt_warn_max_p95_protected_reject_rate_bps :: u16
  gt_block_max_p95_protected_reject_rate_bps :: u16
  gt_warn_max_p95_update_drop_rate_bps :: u16
  gt_block_max_p95_update_drop_rate_bps :: u16
  gt_warn_max_p95_quote_age_slots :: u64
  gt_block_max_p95_quote_age_slots :: u64
  gt_warn_max_p95_inventory_imbalance_bps :: u16
  gt_block_max_p95_inventory_imbalance_bps :: u16

definition reference_quote_default_thresholds :: gate_thresholds where
  "reference_quote_default_thresholds =
    \<lparr>gt_min_paths = 32,
     gt_warn_min_p05_fill_rate_bps = 7000, gt_block_min_p05_fill_rate_bps = 5000,
     gt_warn_max_p95_stale_reject_rate_bps = 1500, gt_block_max_p95_stale_reject_rate_bps = 2500,
     gt_warn_max_p95_protected_reject_rate_bps = 2000, gt_block_max_p95_protected_reject_rate_bps = 3500,
     gt_warn_max_p95_update_drop_rate_bps = 2500, gt_block_max_p95_update_drop_rate_bps = 3500,
     gt_warn_max_p95_quote_age_slots = 32, gt_block_max_p95_quote_age_slots = 40,
     gt_warn_max_p95_inventory_imbalance_bps = 2000, gt_block_max_p95_inventory_imbalance_bps = 2800\<rparr>"

record gate_finding =
  gf_severity :: gate_severity
  gf_metric :: string
  gf_observed :: u64
  gf_threshold :: u64

record scenario_evaluation =
  ev_scenario_name :: string
  ev_severity :: gate_severity
  ev_findings :: "gate_finding list"

text \<open>The two gates return what they push on the findings.\<close>

definition push_min_gate :: "string \<Rightarrow> u64 \<Rightarrow> u64 \<Rightarrow> u64 \<Rightarrow> gate_finding list" where
  "push_min_gate metric observed warn_threshold block_threshold =
    (if observed < block_threshold then
       [\<lparr>gf_severity = Block, gf_metric = metric, gf_observed = observed, gf_threshold = block_threshold\<rparr>]
     else if observed < warn_threshold then
       [\<lparr>gf_severity = Warn, gf_metric = metric, gf_observed = observed, gf_threshold = warn_threshold\<rparr>]
     else [])"

definition push_max_gate :: "string \<Rightarrow> u64 \<Rightarrow> u64 \<Rightarrow> u64 \<Rightarrow> gate_finding list" where
  "push_max_gate metric observed warn_threshold block_threshold =
    (if block_threshold < observed then
       [\<lparr>gf_severity = Block, gf_metric = metric, gf_observed = observed, gf_threshold = block_threshold\<rparr>]
     else if warn_threshold < observed then
       [\<lparr>gf_severity = Warn, gf_metric = metric, gf_observed = observed, gf_threshold = warn_threshold\<rparr>]
     else [])"

definition rate_bps :: "u64 \<Rightarrow> u64 \<Rightarrow> u16" where
  "rate_bps numerator denominator =
    (if denominator = 0 then 0
     else ucast (min (saturating_mul numerator 10000 div denominator) 65535))"

definition max_severity :: "gate_severity list \<Rightarrow> gate_severity" where
  "max_severity ss = foldr max ss Pass"

definition evaluate_reference_quote_report ::
    "reference_aggregate_report \<Rightarrow> gate_thresholds \<Rightarrow> scenario_evaluation" where
  "evaluate_reference_quote_report report thresholds =
    (let findings =
       (if ra_paths report < gt_min_paths thresholds
        then [\<lparr>gf_severity = Block, gf_metric = ''paths'', gf_observed = ucast (ra_paths report),
               gf_threshold = ucast (gt_min_paths thresholds)\<rparr>]
        else [])
       @ push_min_gate ''fill_rate_p05_bps'' (ucast (sm_p05 (ra_fill_rate_bps report)))
           (ucast (gt_warn_min_p05_fill_rate_bps thresholds)) (ucast (gt_block_min_p05_fill_rate_bps thresholds))
       @ push_max_gate ''stale_reject_rate_p95_bps''
           (ucast (rate_bps (sm_p95 (ra_rejected_stale report)) (sm_p95 (ra_trades_attempted report))))
           (ucast (gt_warn_max_p95_stale_reject_rate_bps thresholds))
           (ucast (gt_block_max_p95_stale_reject_rate_bps thresholds))
       @ push_max_gate ''protected_reject_rate_p95_bps''
           (ucast (rate_bps (sm_p95 (ra_rejected_protected report)) (sm_p95 (ra_trades_attempted report))))
           (ucast (gt_warn_max_p95_protected_reject_rate_bps thresholds))
           (ucast (gt_block_max_p95_protected_reject_rate_bps thresholds))
       @ push_max_gate ''update_drop_rate_p95_bps''
           (ucast (rate_bps (sm_p95 (ra_quote_updates_dropped report)) (sm_p95 (ra_quote_updates_sent report))))
           (ucast (gt_warn_max_p95_update_drop_rate_bps thresholds))
           (ucast (gt_block_max_p95_update_drop_rate_bps thresholds))
       @ push_max_gate ''max_quote_age_p95_slots'' (sm_p95 (ra_max_quote_age_slots report))
           (gt_warn_max_p95_quote_age_slots thresholds) (gt_block_max_p95_quote_age_slots thresholds)
       @ push_max_gate ''inventory_imbalance_p95_bps''
           (ucast (sm_p95 (ra_max_abs_inventory_imbalance_bps report)))
           (ucast (gt_warn_max_p95_inventory_imbalance_bps thresholds))
           (ucast (gt_block_max_p95_inventory_imbalance_bps thresholds))
     in \<lparr>ev_scenario_name = sc_name (ra_assumptions report),
         ev_severity = max_severity (map gf_severity findings), ev_findings = findings\<rparr>)"

definition evaluate_scenario_pack ::
    "reference_aggregate_report list \<Rightarrow> gate_thresholds \<Rightarrow> scenario_evaluation list" where
  "evaluate_scenario_pack reports thresholds =
    map (\<lambda>report. evaluate_reference_quote_report report thresholds) reports"

definition pack_severity :: "scenario_evaluation list \<Rightarrow> gate_severity" where
  "pack_severity evaluations = max_severity (map ev_severity evaluations)"

definition evaluation_passes :: "scenario_evaluation \<Rightarrow> bool" where
  "evaluation_passes e \<longleftrightarrow> ev_severity e = Pass"

definition pack_passes :: "scenario_evaluation list \<Rightarrow> bool" where
  "pack_passes evaluations \<longleftrightarrow> pack_severity evaluations = Pass"

lemma severity_le [simp]: "Pass \<le> s" "s \<le> Block" "Block \<le> s \<longleftrightarrow> s = Block" "s \<le> Pass \<longleftrightarrow> s = Pass"
  by (cases s; simp add: less_eq_gate_severity_def)+

lemma max_severity_le: "max_severity ss \<le> s \<longleftrightarrow> (\<forall>x \<in> set ss. x \<le> s)"
  by (induction ss) (simp_all add: max_severity_def)

lemma max_severity_Pass: "max_severity ss = Pass \<longleftrightarrow> (\<forall>x \<in> set ss. x = Pass)"
  using max_severity_le[of ss Pass] by simp

lemma max_severity_Block: "max_severity ss = Block \<longleftrightarrow> Block \<in> set ss"
proof (induction ss)
  case (Cons s ss)
  then show ?case by (cases s) (auto simp: max_severity_def max_def)
qed (simp add: max_severity_def)

lemma ucast_u16_order [simp]:
  "(ucast (a :: u16) :: u64) < ucast b \<longleftrightarrow> a < b" "(ucast (a :: u16) :: u64) \<le> ucast b \<longleftrightarrow> a \<le> b"
  by (simp_all add: word_less_nat_alt word_le_nat_alt)

lemma push_gate_severity:
  "f \<in> set (push_min_gate m obs w b) \<Longrightarrow> gf_severity f \<noteq> Pass"
  "f \<in> set (push_max_gate m obs w b) \<Longrightarrow> gf_severity f \<noteq> Pass"
  by (auto simp: push_min_gate_def push_max_gate_def split: if_splits)

lemma push_gate_Nil:
  "push_min_gate m obs w b = [] \<longleftrightarrow> w \<le> obs \<and> b \<le> obs"
  "push_max_gate m obs w b = [] \<longleftrightarrow> obs \<le> w \<and> obs \<le> b"
  by (auto simp: push_min_gate_def push_max_gate_def)

lemma push_gate_Block:
  "Block \<in> gf_severity ` set (push_min_gate m obs w b) \<longleftrightarrow> obs < b"
  "Block \<in> gf_severity ` set (push_max_gate m obs w b) \<longleftrightarrow> b < obs"
  by (auto simp: push_min_gate_def push_max_gate_def)

lemma evaluation_findings_severity:
  "f \<in> set (ev_findings (evaluate_reference_quote_report r t)) \<Longrightarrow> gf_severity f \<noteq> Pass"
  by (auto simp: evaluate_reference_quote_report_def Let_def push_gate_severity split: if_splits)

lemma evaluation_severity:
  "ev_severity (evaluate_reference_quote_report r t)
    = max_severity (map gf_severity (ev_findings (evaluate_reference_quote_report r t)))"
  by (simp add: evaluate_reference_quote_report_def Let_def)

lemma evaluation_Pass_iff:
  "ev_severity (evaluate_reference_quote_report r t) = Pass
    \<longleftrightarrow> ev_findings (evaluate_reference_quote_report r t) = []"
proof -
  have "(\<forall>f \<in> set (ev_findings (evaluate_reference_quote_report r t)). gf_severity f = Pass)
      \<longleftrightarrow> ev_findings (evaluate_reference_quote_report r t) = []"
    using evaluation_findings_severity[of _ r t] by (auto simp: set_empty[symmetric] simp del: set_empty)
  then show ?thesis by (simp add: evaluation_severity max_severity_Pass)
qed

definition stale_rate :: "reference_aggregate_report \<Rightarrow> u16" where
  "stale_rate r = rate_bps (sm_p95 (ra_rejected_stale r)) (sm_p95 (ra_trades_attempted r))"

definition protected_rate :: "reference_aggregate_report \<Rightarrow> u16" where
  "protected_rate r = rate_bps (sm_p95 (ra_rejected_protected r)) (sm_p95 (ra_trades_attempted r))"

definition drop_rate :: "reference_aggregate_report \<Rightarrow> u16" where
  "drop_rate r = rate_bps (sm_p95 (ra_quote_updates_dropped r)) (sm_p95 (ra_quote_updates_sent r))"

text \<open>
  C39: the verdict on a report is a block exactly when there are too few paths or a metric is
  beyond its block threshold, and a pass exactly when it is not a block and no metric is beyond
  its warn threshold.
\<close>

theorem evaluation_verdict:
  "(ev_severity (evaluate_reference_quote_report r t) = Block
     \<longleftrightarrow> ra_paths r < gt_min_paths t
      \<or> sm_p05 (ra_fill_rate_bps r) < gt_block_min_p05_fill_rate_bps t
      \<or> gt_block_max_p95_stale_reject_rate_bps t < stale_rate r
      \<or> gt_block_max_p95_protected_reject_rate_bps t < protected_rate r
      \<or> gt_block_max_p95_update_drop_rate_bps t < drop_rate r
      \<or> gt_block_max_p95_quote_age_slots t < sm_p95 (ra_max_quote_age_slots r)
      \<or> gt_block_max_p95_inventory_imbalance_bps t < sm_p95 (ra_max_abs_inventory_imbalance_bps r))
   \<and> (ev_severity (evaluate_reference_quote_report r t) = Pass
     \<longleftrightarrow> ev_severity (evaluate_reference_quote_report r t) \<noteq> Block
      \<and> gt_warn_min_p05_fill_rate_bps t \<le> sm_p05 (ra_fill_rate_bps r)
      \<and> stale_rate r \<le> gt_warn_max_p95_stale_reject_rate_bps t
      \<and> protected_rate r \<le> gt_warn_max_p95_protected_reject_rate_bps t
      \<and> drop_rate r \<le> gt_warn_max_p95_update_drop_rate_bps t
      \<and> sm_p95 (ra_max_quote_age_slots r) \<le> gt_warn_max_p95_quote_age_slots t
      \<and> sm_p95 (ra_max_abs_inventory_imbalance_bps r) \<le> gt_warn_max_p95_inventory_imbalance_bps t)"
proof -
  have block: "ev_severity (evaluate_reference_quote_report r t) = Block
     \<longleftrightarrow> ra_paths r < gt_min_paths t
      \<or> sm_p05 (ra_fill_rate_bps r) < gt_block_min_p05_fill_rate_bps t
      \<or> gt_block_max_p95_stale_reject_rate_bps t < stale_rate r
      \<or> gt_block_max_p95_protected_reject_rate_bps t < protected_rate r
      \<or> gt_block_max_p95_update_drop_rate_bps t < drop_rate r
      \<or> gt_block_max_p95_quote_age_slots t < sm_p95 (ra_max_quote_age_slots r)
      \<or> gt_block_max_p95_inventory_imbalance_bps t < sm_p95 (ra_max_abs_inventory_imbalance_bps r)"
    unfolding evaluation_severity max_severity_Block set_map
    by (cases "ra_paths r < gt_min_paths t")
      (simp_all add: evaluate_reference_quote_report_def Let_def image_Un push_gate_Block
        stale_rate_def protected_rate_def drop_rate_def)
  have "ev_findings (evaluate_reference_quote_report r t) = []
     \<longleftrightarrow> gt_min_paths t \<le> ra_paths r
      \<and> gt_warn_min_p05_fill_rate_bps t \<le> sm_p05 (ra_fill_rate_bps r)
      \<and> gt_block_min_p05_fill_rate_bps t \<le> sm_p05 (ra_fill_rate_bps r)
      \<and> stale_rate r \<le> gt_warn_max_p95_stale_reject_rate_bps t
      \<and> stale_rate r \<le> gt_block_max_p95_stale_reject_rate_bps t
      \<and> protected_rate r \<le> gt_warn_max_p95_protected_reject_rate_bps t
      \<and> protected_rate r \<le> gt_block_max_p95_protected_reject_rate_bps t
      \<and> drop_rate r \<le> gt_warn_max_p95_update_drop_rate_bps t
      \<and> drop_rate r \<le> gt_block_max_p95_update_drop_rate_bps t
      \<and> sm_p95 (ra_max_quote_age_slots r) \<le> gt_warn_max_p95_quote_age_slots t
      \<and> sm_p95 (ra_max_quote_age_slots r) \<le> gt_block_max_p95_quote_age_slots t
      \<and> sm_p95 (ra_max_abs_inventory_imbalance_bps r) \<le> gt_warn_max_p95_inventory_imbalance_bps t
      \<and> sm_p95 (ra_max_abs_inventory_imbalance_bps r) \<le> gt_block_max_p95_inventory_imbalance_bps t"
  proof (cases "ra_paths r < gt_min_paths t")
    case True
    then have "\<not> gt_min_paths t \<le> ra_paths r" by simp
    with True show ?thesis by (simp add: evaluate_reference_quote_report_def Let_def)
  next
    case False
    then have "gt_min_paths t \<le> ra_paths r" by simp
    with False show ?thesis
      by (simp only: evaluate_reference_quote_report_def Let_def push_gate_Nil if_False append_Nil
          append_is_Nil_conv stale_rate_def protected_rate_def drop_rate_def ucast_u16_order simp_thms conj_assoc
          scenario_evaluation.select_convs)
  qed
  then show ?thesis
    unfolding evaluation_Pass_iff block by (simp add: not_less not_le) blast
qed

lemma pack_passes_iff:
  "pack_passes (evaluate_scenario_pack reports t)
    \<longleftrightarrow> (\<forall>r \<in> set reports. ev_severity (evaluate_reference_quote_report r t) = Pass)"
  by (simp add: pack_passes_def pack_severity_def evaluate_scenario_pack_def max_severity_Pass)

end
