(* ===== verification/Replay_Report.thy ===== *)
theory Replay_Report imports Replay Sim_Stats begin
text \<open>
  What a recorded path says of its flow and of the landing of its quote updates
  (\<open>flow_distribution\<close>, \<open>landing_distribution\<close>), and the update policy derived from it
  (\<open>quote_update_policy_from_replay\<close>).  Shown here: when a policy can be derived, what its period
  is and that the simulator accepts it; and that a simulation of a parsed path attempts exactly the
  trades and sends exactly the updates the distributions count.
\<close>

section \<open>Distributions and the derived policy\<close>

definition first_fair_price :: "replay_market_path \<Rightarrow> q64x64 option" where
  "first_fair_price path = (case rp_slots path of [] \<Rightarrow> None | slot # _ \<Rightarrow> Some (ms_fair_price slot))"

record flow_distribution_report =
  fd_observations :: u64
  fd_trades :: u64
  fd_trade_probability_bps :: u16
  fd_base_to_quote_trades :: u64
  fd_quote_to_base_trades :: u64
  fd_base_equivalent_amount :: "u64 summary"

record landing_distribution_report =
  ld_quote_updates_sent :: u64
  ld_quote_updates_landed :: u64
  ld_quote_updates_dropped :: u64
  ld_success_probability_bps :: u16
  ld_latency_slots :: "u64 summary"

definition bps :: "u64 \<Rightarrow> u64 \<Rightarrow> u16" where
  "bps numerator denominator =
    (if denominator = 0 then 0 else ucast (saturating_mul numerator 10000 div denominator))"

text \<open>The loop of \<open>flow_distribution\<close>: trades, those of either side, and base amounts.\<close>

fun flow_counts ::
    "market_slot list \<Rightarrow> u64 \<times> u64 \<times> u64 \<times> u64 list \<Rightarrow> math_error + u64 \<times> u64 \<times> u64 \<times> u64 list" where
  "flow_counts [] acc = Ok acc"
| "flow_counts (slot # slots) (trades, sells, buys, amounts) =
    (case ms_flow slot of
       None \<Rightarrow> flow_counts slots (trades, sells, buys, amounts)
     | Some flow \<Rightarrow> (case fo_side flow of
         BaseToQuote \<Rightarrow> flow_counts slots (trades + 1, sells + 1, buys, amounts @ [fo_amount_in flow])
       | QuoteToBase \<Rightarrow> (case div_amount_floor (ms_fair_price slot) (fo_amount_in flow) of
           Err e \<Rightarrow> Err e
         | Ok amount \<Rightarrow> flow_counts slots (trades + 1, sells, buys + 1, amounts @ [amount]))))"

definition flow_distribution :: "replay_market_path \<Rightarrow> math_error + flow_distribution_report" where
  "flow_distribution path =
    and_then (flow_counts (rp_slots path) (0, 0, 0, [])) (\<lambda>(trades, sells, buys, amounts).
      Ok \<lparr>fd_observations = of_nat (length (rp_slots path)), fd_trades = trades,
          fd_trade_probability_bps = bps trades (of_nat (length (rp_slots path))),
          fd_base_to_quote_trades = sells, fd_quote_to_base_trades = buys,
          fd_base_equivalent_amount = summarize_u64 amounts\<rparr>)"

fun landing_counts ::
    "quote_update_event list \<Rightarrow> u64 \<times> u64 \<times> u64 list \<Rightarrow> u64 \<times> u64 \<times> u64 list" where
  "landing_counts [] acc = acc"
| "landing_counts (u # us) (landed, dropped, latencies) =
    landing_counts us (case qe_landing_slot u of
       Some landing_slot \<Rightarrow> (landed + 1, dropped, latencies @ [saturating_sub landing_slot (qe_publish_slot u)])
     | None \<Rightarrow> (landed, dropped + 1, latencies))"

definition landing_distribution :: "replay_market_path \<Rightarrow> landing_distribution_report" where
  "landing_distribution path =
    (let sent = of_nat (length (rp_quote_updates path));
         (landed, dropped, latencies) = landing_counts (rp_quote_updates path) (0, 0, [])
     in \<lparr>ld_quote_updates_sent = sent, ld_quote_updates_landed = landed,
         ld_quote_updates_dropped = dropped, ld_success_probability_bps = bps landed sent,
         ld_latency_slots = summarize_u64 latencies\<rparr>)"

fun publish_deltas ::
    "quote_update_event list \<Rightarrow> u64 option \<Rightarrow> u128 \<Rightarrow> u128 \<Rightarrow> math_error + u128 \<times> u128" where
  "publish_deltas [] previous delta_sum delta_count = Ok (delta_sum, delta_count)"
| "publish_deltas (u # us) previous delta_sum delta_count =
    (if (case previous of None \<Rightarrow> False | Some p \<Rightarrow> qe_publish_slot u < p) then Err InvalidConfig
     else
       let delta = (case previous of None \<Rightarrow> 0 | Some p \<Rightarrow> saturating_sub (qe_publish_slot u) p);
           delta_sum = (if 0 < delta then delta_sum + as_u128 delta else delta_sum);
           delta_count = (if 0 < delta then delta_count + 1 else delta_count)
       in if (case qe_landing_slot u of None \<Rightarrow> False | Some l \<Rightarrow> l < qe_publish_slot u) then Err InvalidConfig
          else publish_deltas us (Some (qe_publish_slot u)) delta_sum delta_count)"

definition quote_update_policy_from_replay ::
    "replay_market_path \<Rightarrow> same_slot_update_order \<Rightarrow> u128 \<Rightarrow> math_error + quote_update_policy" where
  "quote_update_policy_from_replay path order failure_seed =
    (case publish_deltas (rp_quote_updates path) None 0 0 of
       Err e \<Rightarrow> Err e
     | Ok deltas \<Rightarrow>
        if snd deltas = 0 then Err InvalidConfig
        else let landing = landing_distribution path
             in Ok \<lparr>qp_maker_update_period_slots = ucast (fst deltas div snd deltas),
                 qp_landing_latency_slots = sm_mean (ld_latency_slots landing),
                 qp_update_success_probability_bps = ld_success_probability_bps landing,
                 qp_failure_seed = failure_seed, qp_same_slot_order = order\<rparr>)"

section \<open>Counting\<close>

lemma landing_counts_eq:
  "landing_counts us (landed, dropped, latencies) =
    (landed + of_nat (length (filter (\<lambda>u. qe_landing_slot u \<noteq> None) us)),
     dropped + of_nat (length (filter (\<lambda>u. qe_landing_slot u = None) us)),
     latencies @ map (\<lambda>u. saturating_sub (the (qe_landing_slot u)) (qe_publish_slot u))
       (filter (\<lambda>u. qe_landing_slot u \<noteq> None) us))"
  by (induction us arbitrary: landed dropped latencies) (auto split: option.split)

lemma landing_distribution_counts:
  "ld_quote_updates_sent (landing_distribution path) = of_nat (length (rp_quote_updates path))"
  "ld_quote_updates_landed (landing_distribution path)
    = of_nat (length (filter (\<lambda>u. qe_landing_slot u \<noteq> None) (rp_quote_updates path)))"
  "ld_quote_updates_dropped (landing_distribution path)
    = of_nat (length (filter (\<lambda>u. qe_landing_slot u = None) (rp_quote_updates path)))"
  "ld_success_probability_bps (landing_distribution path)
    = bps (ld_quote_updates_landed (landing_distribution path)) (ld_quote_updates_sent (landing_distribution path))"
  by (simp_all add: landing_distribution_def landing_counts_eq Let_def)

lemma bps_le: "n \<le> d \<Longrightarrow> bps n d \<le> 10000"
proof (cases "d = 0")
  case False
  assume le: "n \<le> d"
  have "unat (saturating_mul n 10000) \<le> unat n * 10000" by (simp add: unat_saturating_mul)
  also have "\<dots> \<le> unat d * 10000" using le by (simp add: word_le_nat_alt)
  finally have "unat (saturating_mul n 10000) div unat d \<le> unat d * 10000 div unat d" by (rule div_le_mono)
  then have q: "unat (saturating_mul n 10000 div d) \<le> 10000" using False by (simp add: unat_eq_0)
  then have "unat (ucast (saturating_mul n 10000 div d) :: u16) = unat (saturating_mul n 10000 div d)"
    by (intro unat_ucast_narrow) simp
  with q False show ?thesis by (simp add: bps_def word_le_nat_alt)
qed (simp add: bps_def)

lemma flow_counts_trades:
  assumes "flow_counts slots (trades, sells, buys, amounts) = Ok (trades', sells', buys', amounts')"
  shows "trades' = trades + of_nat (length (filter (\<lambda>s. ms_flow s \<noteq> None) slots))
    \<and> trades' - trades = (sells' - sells) + (buys' - buys)"
  using assms
proof (induction slots arbitrary: trades sells buys amounts)
  case (Cons slot slots)
  then show ?case
    by (fastforce split: option.splits side.splits sum.splits simp: algebra_simps)
qed simp

section \<open>The derived policy\<close>

lemma as_u128_minus: "(p :: u64) \<le> u \<Longrightarrow> as_u128 (u - p) = as_u128 u - as_u128 p"
  by (simp add: word_eq_iff_unat unat_sub_le word_le_nat_alt)

lemma saturating_sub_le: "(p :: u64) \<le> u \<Longrightarrow> saturating_sub u p = u - p"
  by (simp add: saturating_sub_def)

abbreviation publish_slots :: "quote_update_event list \<Rightarrow> u64 list" where
  "publish_slots us \<equiv> map qe_publish_slot us"

lemma validated_updates_sorted:
  "validate_quote_updates_from previous us = Ok () \<Longrightarrow>
    sorted (publish_slots us) \<and> (\<forall>p u. previous = Some p \<longrightarrow> u \<in> set us \<longrightarrow> p \<le> qe_publish_slot u)"
proof (induction previous us rule: validate_quote_updates_from.induct)
  case (2 previous u us)
  then have "validate_quote_updates_from (Some (qe_publish_slot u)) us = Ok ()"
    and p: "\<And>p. previous = Some p \<Longrightarrow> p \<le> qe_publish_slot u"
    by (auto split: if_splits option.splits)
  with "2.IH" "2.prems" have s: "sorted (publish_slots us)" "\<And>v. v \<in> set us \<Longrightarrow> qe_publish_slot u \<le> qe_publish_slot v"
    by (auto split: if_splits)
  show ?case using s p by (auto intro: order_trans)
qed simp

lemma publish_deltas_eq:
  "publish_deltas us (Some p) s c =
    (if validate_quote_updates_from (Some p) us = Ok ()
     then Ok (s + (as_u128 (last (p # publish_slots us)) - as_u128 p),
              c + of_nat (card (insert p (set (publish_slots us))) - 1))
     else Err InvalidConfig)"
proof (induction us arbitrary: p s c)
  case (Cons u us)
  let ?u = "qe_publish_slot u"
  consider (falls) "?u < p"
    | (early) l where "qe_landing_slot u = Some l" and "l < ?u"
    | (bad) "validate_quote_updates_from (Some ?u) us \<noteq> Ok ()"
    | (ok) "p \<le> ?u" and "\<not> (case qe_landing_slot u of None \<Rightarrow> False | Some l \<Rightarrow> l < ?u)"
        and "validate_quote_updates_from (Some ?u) us = Ok ()"
    by (cases "qe_landing_slot u") force+
  then show ?case
  proof cases
    case ok
    have above: "\<And>v. v \<in> set us \<Longrightarrow> ?u \<le> qe_publish_slot v" using validated_updates_sorted[OF ok(3)] by auto
    have l: "last (p # ?u # publish_slots us) = last (?u # publish_slots us)" by simp
    show ?thesis
    proof (cases "p = ?u")
      case True
      with ok Cons.IH[of ?u s c] show ?thesis by (simp add: saturating_sub_def)
    next
      case False
      with ok(1) have less: "p < ?u" by simp
      let ?S = "insert ?u (qe_publish_slot ` set us)"
      have "p \<notin> ?S" using less above by fastforce
      moreover have "0 < card ?S" by (simp add: card_gt_0_iff)
      ultimately have c: "of_nat (card (insert p ?S) - Suc 0) = 1 + (of_nat (card ?S - Suc 0) :: u128)"
        by (simp add: of_nat_diff)
      have "0 < ?u - p" using less by (simp add: word_less_nat_alt unat_sub_le word_le_nat_alt)
      with ok less Cons.IH[of ?u "s + as_u128 (?u - p)" "c + 1"] show ?thesis
        by (simp add: saturating_sub_le as_u128_minus c l add.assoc del: last.simps)
    qed
  qed (auto simp: Cons.IH split: option.splits)
qed simp

lemma publish_deltas_start:
  "publish_deltas us None 0 0 =
    (if validate_quote_updates us = Ok ()
     then Ok (if us = [] then 0 else as_u128 (last (publish_slots us)) - as_u128 (hd (publish_slots us)),
              of_nat (card (qe_publish_slot ` set us) - 1))
     else Err InvalidConfig)"
  by (cases us) (auto simp: validate_quote_updates_def publish_deltas_eq split: option.splits)

lemma sorted_slots_bounds:
  assumes "us \<noteq> []" "sorted (publish_slots us)" "u \<in> set us"
  shows "hd (publish_slots us) \<le> qe_publish_slot u" "qe_publish_slot u \<le> last (publish_slots us)"
  using assms
proof -
  obtain i where i: "i < length us" "u = us ! i" using assms(3) by (auto simp: in_set_conv_nth)
  show "hd (publish_slots us) \<le> qe_publish_slot u" "qe_publish_slot u \<le> last (publish_slots us)"
    using assms(1) i sorted_nth_mono[OF assms(2), of 0 i] sorted_nth_mono[OF assms(2), of i "length us - 1"]
    by (simp_all add: hd_conv_nth last_conv_nth)
qed

text \<open>Distinct slots from the first to the last: there are at most as many gaps as slots between.\<close>

lemma gaps_le_span:
  assumes "us \<noteq> []" "sorted (publish_slots us)"
  shows "card (qe_publish_slot ` set us) - 1
    \<le> unat (last (publish_slots us)) - unat (hd (publish_slots us))"
proof -
  have "unat ` qe_publish_slot ` set us \<subseteq> {unat (hd (publish_slots us)) .. unat (last (publish_slots us))}"
    using sorted_slots_bounds[OF assms] by (auto simp: word_le_nat_alt)
  from card_mono[OF _ this]
  have "card (unat ` qe_publish_slot ` set us)
    \<le> Suc (unat (last (publish_slots us))) - unat (hd (publish_slots us))" by simp
  moreover have "card (unat ` qe_publish_slot ` set us) = card (qe_publish_slot ` set us)"
    by (rule card_image) (simp add: inj_on_def word_eq_iff_unat)
  ultimately show ?thesis by simp
qed

definition policy_of_updates :: "quote_update_event list \<Rightarrow> quote_update_policy \<Rightarrow> bool" where
  "policy_of_updates us policy \<longleftrightarrow>
     unat (qp_maker_update_period_slots policy)
       = (unat (last (publish_slots us)) - unat (hd (publish_slots us))) div (card (qe_publish_slot ` set us) - 1)
   \<and> validate_quote_update_policy policy = Ok ()"

lemma landed_le_sent:
  assumes "length (rp_quote_updates path) < 2 ^ 64"
  shows "ld_quote_updates_landed (landing_distribution path) \<le> ld_quote_updates_sent (landing_distribution path)"
proof -
  let ?us = "rp_quote_updates path"
  let ?n = "length (filter (\<lambda>u. qe_landing_slot u \<noteq> None) ?us)"
  have le: "?n \<le> length ?us" by (rule length_filter_le)
  then have "?n < 2 ^ LENGTH(64)" using assms by (simp del: length_filter_le)
  then have "unat (of_nat ?n :: u64) = ?n" by (rule unat_of_nat_fits)
  moreover have "unat (of_nat (length ?us) :: u64) = length ?us" using assms by (intro unat_of_nat_fits) simp
  ultimately show ?thesis using le by (simp only: landing_distribution_counts word_le_nat_alt)
qed

lemma replay_policy_of_updates:
  assumes "length (rp_quote_updates path) < 2 ^ 64"
    and valid: "validate_quote_updates (rp_quote_updates path) = Ok ()"
    and gaps: "1 < card (qe_publish_slot ` set (rp_quote_updates path))"
  obtains policy where "quote_update_policy_from_replay path order seed = Ok policy"
    and "policy_of_updates (rp_quote_updates path) policy"
proof -
  let ?us = "rp_quote_updates path" and ?n = "card (qe_publish_slot ` set (rp_quote_updates path)) - 1"
  let ?first = "hd (publish_slots ?us)" and ?last = "last (publish_slots ?us)"
  have ne: "?us \<noteq> []" using gaps by auto
  have sorted: "sorted (publish_slots ?us)"
    using valid validated_updates_sorted by (simp add: validate_quote_updates_def)
  have le: "?n \<le> unat ?last - unat ?first" by (rule gaps_le_span[OF ne sorted])
  have ord: "?first \<le> ?last" using sorted_slots_bounds(1)[OF ne sorted, of "last ?us"] ne by (simp add: last_map)
  have span: "unat (as_u128 ?last - as_u128 ?first) = unat ?last - unat ?first"
    using ord by (simp add: unat_sub_le word_le_nat_alt)
  have small: "unat ?last - unat ?first < 2 ^ 64" using u64_bound[of ?last] by simp
  have n: "unat (of_nat ?n :: u128) = ?n" using le small by (intro unat_of_nat_fits) simp
  have n0: "(of_nat ?n :: u128) \<noteq> 0" using n gaps by (metis unat_0 less_numeral_extra(3) zero_less_diff)
  define policy where "policy = \<lparr>qp_maker_update_period_slots = ucast ((as_u128 ?last - as_u128 ?first) div of_nat ?n),
     qp_landing_latency_slots = sm_mean (ld_latency_slots (landing_distribution path)),
     qp_update_success_probability_bps = ld_success_probability_bps (landing_distribution path),
     qp_failure_seed = seed, qp_same_slot_order = order\<rparr>"
  have run: "quote_update_policy_from_replay path order seed = Ok policy"
    using ne valid n0 by (simp add: quote_update_policy_from_replay_def publish_deltas_start policy_def Let_def)
  have q: "unat ((as_u128 ?last - as_u128 ?first) div of_nat ?n) = (unat ?last - unat ?first) div ?n"
    by (simp only: unat_div_word span n)
  have "(unat ?last - unat ?first) div ?n < 2 ^ 64" using small div_le_dividend le_less_trans by blast
  then have period: "unat (qp_maker_update_period_slots policy) = (unat ?last - unat ?first) div ?n"
    using q by (simp add: policy_def unat_ucast_narrow)
  have "0 < (unat ?last - unat ?first) div ?n" using le gaps by (simp add: div_greater_zero_iff)
  then have "qp_maker_update_period_slots policy \<noteq> 0" using period by (metis less_numeral_extra(3) unat_0)
  moreover have "qp_update_success_probability_bps policy \<le> 10000"
    using bps_le[OF landed_le_sent[OF assms(1)]] by (simp add: policy_def landing_distribution_counts(4))
  ultimately have "policy_of_updates ?us policy"
    using period by (simp add: policy_of_updates_def validated_policy)
  with run that show thesis by blast
qed

lemma replay_policy_refused:
  "\<not> (validate_quote_updates (rp_quote_updates path) = Ok ()
      \<and> 1 < card (qe_publish_slot ` set (rp_quote_updates path))) \<Longrightarrow>
    quote_update_policy_from_replay path order seed = Err InvalidConfig"
  by (auto simp: quote_update_policy_from_replay_def publish_deltas_start not_less)

lemma replay_policy_needs:
  assumes "quote_update_policy_from_replay path order seed = Ok policy"
  shows "validate_quote_updates (rp_quote_updates path) = Ok ()
    \<and> 1 < card (qe_publish_slot ` set (rp_quote_updates path))"
  using assms replay_policy_refused by fastforce

section \<open>A replay and its report\<close>

text \<open>The updates a replay has left, against those it has counted as sent and as dropped.\<close>

definition feed_counts :: "nat \<Rightarrow> nat \<Rightarrow> quote_update_event list \<Rightarrow> market_run \<Rightarrow> bool" where
  "feed_counts sent dropped us run \<longleftrightarrow>
     unat (rr_quote_updates_sent (mr_report run)) + length us = sent
   \<and> unat (rr_quote_updates_dropped (mr_report run)) + length (filter (\<lambda>u. qe_landing_slot u = None) us) = dropped"

lemma process_slot_counts:
  assumes "process_slot order params slot run = Ok run'"
  shows "feed_counts s d us run' = feed_counts s d us run"
  using assms
proof (cases rule: process_slot_cases)
  case (slot t r st)
  have "rr_quote_updates_dropped (mr_report (enter_slot (ms_slot slot) (land t run)))
      = rr_quote_updates_dropped (mr_report run)"
    by (simp add: enter_slot_def Let_def land_keeps(4))
  with execute_slot_updates(1,3)[OF slot(2)] show ?thesis
    by (simp add: feed_counts_def slot(3) land_keeps(3,4) enter_slot_keeps(3))
qed

lemma send_update_counts:
  assumes "feed_counts s d (u # us) run" "s < 2 ^ 64" "d < 2 ^ 64"
  shows "feed_counts s d us (send_update (map_option f (qe_landing_slot u)) run)"
proof -
  have sent: "unat (rr_quote_updates_sent (mr_report run) + 1) = unat (rr_quote_updates_sent (mr_report run)) + 1"
    using assms by (intro unat_inc) (simp add: feed_counts_def)
  show ?thesis
  proof (cases "qe_landing_slot u")
    case None
    then have "unat (rr_quote_updates_dropped (mr_report run) + 1) = unat (rr_quote_updates_dropped (mr_report run)) + 1"
      using assms by (intro unat_inc) (simp add: feed_counts_def)
    with None sent assms(1) show ?thesis by (simp add: feed_counts_def send_update_def Let_def)
  next
    case (Some l)
    with sent assms(1) show ?thesis by (simp add: feed_counts_def send_update_def Let_def)
  qed
qed

lemma replay_due_counts:
  "replay_due slot us run = (us', run') \<Longrightarrow> feed_counts s d us run \<Longrightarrow> s < 2 ^ 64 \<Longrightarrow> d < 2 ^ 64 \<Longrightarrow>
   feed_counts s d us' run'"
proof (induction slot us run rule: replay_due.induct)
  case (2 slot u us run)
  show ?case
  proof (cases "ms_slot slot < qe_publish_slot u")
    case True
    with "2.prems" show ?thesis by auto
  next
    case False
    with "2.prems"(1) "2.IH"[OF False _ send_update_counts[OF "2.prems"(2-4)] "2.prems"(3,4)] show ?thesis by simp
  qed
qed auto

text \<open>When every update was recorded at one of the slots, none is left after the last slot.\<close>

lemma replay_due_rest:
  assumes "replay_due slot us run = (us', run')" "sorted (publish_slots us)"
  shows "sorted (publish_slots us') \<and> set us' \<subseteq> {u \<in> set us. ms_slot slot < qe_publish_slot u}"
  using assms
  by (induction slot us run rule: replay_due.induct) (auto split: if_splits intro: less_le_trans)

lemma replay_slots_counts:
  assumes "simulate_slots replay_feed order params slots previous us run = Some (Ok run')"
    and "sorted (publish_slots us)" "qe_publish_slot ` set us \<subseteq> ms_slot ` set slots"
    and "feed_counts s d us run" "s < 2 ^ 64" "d < 2 ^ 64"
  shows "feed_counts s d [] run'"
  using assms
proof (induction slots arbitrary: previous us run)
  case (Cons slot slots)
  from Cons.prems(1) obtain us1 run1 run2 where f: "replay_feed us slot run = Some (us1, run1)"
    and p: "process_slot order params slot run1 = Ok run2"
    and rest: "simulate_slots replay_feed order params slots (Some (ms_slot slot)) us1 run2 = Some (Ok run')"
    by (rule simulate_slots_ConsE)
  then have due: "replay_due slot us run = (us1, run1)" by (simp add: replay_feed_def)
  note r = replay_due_rest[OF due Cons.prems(2)]
  have "qe_publish_slot ` set us1 \<subseteq> ms_slot ` set slots" using r Cons.prems(3) by fastforce
  moreover have "feed_counts s d us1 run2"
    using replay_due_counts[OF due Cons.prems(4-6)] by (simp only: process_slot_counts[OF p])
  ultimately show ?case using r Cons.prems(5,6) by (intro Cons.IH[OF rest]) simp_all
qed simp

lemma initial_feed_counts:
  "feed_counts (length us) (length (filter (\<lambda>u. qe_landing_slot u = None) us)) us (initial_run scenario)"
  by (simp add: feed_counts_def initial_run_def)

lemma parsed_replay_sends_all:
  assumes parsed: "parse_replay_csv input = Ok path"
    and sim: "simulate_reference_quote_replay scenario path = Some (Ok r)"
    and len: "length (rp_quote_updates path) < 2 ^ 64"
  shows "rr_quote_updates_sent r = ld_quote_updates_sent (landing_distribution path)"
    "rr_quote_updates_dropped r = ld_quote_updates_dropped (landing_distribution path)"
proof -
  let ?us = "rp_quote_updates path"
  let ?n = "length (filter (\<lambda>u. qe_landing_slot u = None) ?us)"
  have "?n \<le> length ?us" by (rule length_filter_le)
  then have n: "?n < 2 ^ 64" using len by (rule le_less_trans)
  obtain run where v: "validate_quote_updates ?us = Ok ()"
    and run: "simulate_slots replay_feed (qp_same_slot_order (rs_quote_update_policy scenario)) (rs_params scenario)
        (rp_slots path) None ?us (initial_run scenario) = Some (Ok run)"
    and r: "r = finish_report run"
    using sim by (rule replay_run)
  have "sorted (publish_slots ?us)"
    using v validated_updates_sorted by (simp add: validate_quote_updates_def)
  moreover have "qe_publish_slot ` set ?us \<subseteq> ms_slot ` set (rp_slots path)"
    using parsed_updates_of_slots[OF parsed] by (fastforce simp: updates_of_slots_def)
  ultimately have "feed_counts (length ?us) ?n [] run"
    using len n by (rule replay_slots_counts[OF run _ _ initial_feed_counts])
  then have "unat (rr_quote_updates_sent r) = length ?us" "unat (rr_quote_updates_dropped r) = ?n"
    by (simp_all add: feed_counts_def r finish_report_def)
  then show "rr_quote_updates_sent r = ld_quote_updates_sent (landing_distribution path)"
    "rr_quote_updates_dropped r = ld_quote_updates_dropped (landing_distribution path)"
    unfolding landing_distribution_counts by (metis of_nat_unat_id)+
qed

section \<open>A recorded path\<close>

text \<open>The rows of \<open>tests/fixtures/reference-replay.csv\<close>.\<close>

definition fixture_row :: "u64 \<Rightarrow> u64 \<Rightarrow> (side \<times> u64) option \<Rightarrow> u64 option option \<Rightarrow> replay_row" where
  "fixture_row slot price trade landing =
    (slot, price, map_option (\<lambda>t. \<lparr>fo_side = fst t, fo_amount_in = snd t\<rparr>) trade, landing)"

definition fixture_rows :: "replay_row list" where
  "fixture_rows =
    [fixture_row 0 30000 None None,
     fixture_row 1 30010 (Some (BaseToQuote, 500)) None,
     fixture_row 2 30020 None (Some (Some 4)),
     fixture_row 3 30030 (Some (BaseToQuote, 500)) None,
     fixture_row 4 30040 (Some (QuoteToBase, 15020000)) None,
     fixture_row 6 30050 None (Some None),
     fixture_row 8 30060 None (Some (Some 10)),
     fixture_row 9 30070 (Some (BaseToQuote, 400)) None,
     fixture_row 16 30080 (Some (BaseToQuote, 400)) None,
     fixture_row 24 30090 (Some (BaseToQuote, 400)) None]"

definition fixture_flow :: flow_distribution_report where
  "fixture_flow = \<lparr>fd_observations = 10, fd_trades = 6, fd_trade_probability_bps = 6000,
     fd_base_to_quote_trades = 5, fd_quote_to_base_trades = 1,
     fd_base_equivalent_amount = \<lparr>sm_min = 400, sm_p05 = 400, sm_mean = 450, sm_p50 = 400, sm_p95 = 500, sm_max = 500\<rparr>\<rparr>"

lemma fixture_flow_distribution: "flow_distribution (rows_path fixture_rows) = Ok fixture_flow"
  by code_simp

lemma fixture_simulation:
  "outcome_is (\<lambda>r. rr_trades_attempted r = 6 \<and> rr_quote_updates_sent r = 3 \<and> rr_quote_updates_dropped r = 1)
    (simulate_reference_quote_replay sim_scenario (rows_path fixture_rows))"
  by code_simp

lemma fixture_policy:
  "map_ok qp_maker_update_period_slots
    (quote_update_policy_from_replay (rows_path fixture_rows) UpdateBeforeSwap 7) = Ok 3"
  by code_simp

section \<open>The properties\<close>

text \<open>
  C26: a policy is derived from a replay exactly when the recorded updates are in order, none lands
  before it is published, and they have at least two different publish slots; its period is then
  the mean gap between these slots, rounded down, and the simulator accepts it.
\<close>

theorem replay_policy_exact:
  assumes "length (rp_quote_updates path) < 2 ^ 64"
  shows "case quote_update_policy_from_replay path order seed of
      Err e \<Rightarrow> e = InvalidConfig \<and> (validate_quote_updates (rp_quote_updates path) \<noteq> Ok ()
        \<or> card (qe_publish_slot ` set (rp_quote_updates path)) \<le> 1)
    | Ok policy \<Rightarrow> validate_quote_updates (rp_quote_updates path) = Ok ()
        \<and> 1 < card (qe_publish_slot ` set (rp_quote_updates path))
        \<and> policy_of_updates (rp_quote_updates path) policy"
proof (cases "validate_quote_updates (rp_quote_updates path) = Ok ()
    \<and> 1 < card (qe_publish_slot ` set (rp_quote_updates path))")
  case True
  then obtain policy where "quote_update_policy_from_replay path order seed = Ok policy"
    and "policy_of_updates (rp_quote_updates path) policy"
    using replay_policy_of_updates[OF assms] by metis
  with True show ?thesis by simp
next
  case False
  with replay_policy_refused[OF False] show ?thesis by (auto simp: not_less)
qed

theorem replay_policy_exact_witness:
  "policy_of_updates (rp_quote_updates (rows_path fixture_rows))
    (case quote_update_policy_from_replay (rows_path fixture_rows) UpdateBeforeSwap 7 of Ok p \<Rightarrow> p)"
proof -
  have "length (rp_quote_updates (rows_path fixture_rows)) < 2 ^ 64"
    by (simp add: rows_path_def fixture_rows_def fixture_row_def)
  from replay_policy_exact[OF this, of UpdateBeforeSwap 7] fixture_policy
  show ?thesis by (auto simp: map_ok_def split: sum.splits)
qed

text \<open>
  C25: the simulation of a parsed replay agrees with its distributions: it attempts exactly the
  recorded trades (the sells and the buys), sends exactly the recorded updates and drops exactly
  those recorded as dropped.
\<close>

theorem replay_report_agrees:
  assumes "parse_replay_csv input = Ok path"
    and "simulate_reference_quote_replay scenario path = Some (Ok r)"
    and "flow_distribution path = Ok flow"
    and "length (rp_slots path) < 2 ^ 64" "length (rp_quote_updates path) < 2 ^ 64"
  shows "rr_trades_attempted r = fd_trades flow
    \<and> fd_trades flow = fd_base_to_quote_trades flow + fd_quote_to_base_trades flow
    \<and> rr_quote_updates_sent r = ld_quote_updates_sent (landing_distribution path)
    \<and> rr_quote_updates_dropped r = ld_quote_updates_dropped (landing_distribution path)"
proof -
  obtain amounts where "flow_counts (rp_slots path) (0, 0, 0, [])
      = Ok (fd_trades flow, fd_base_to_quote_trades flow, fd_quote_to_base_trades flow, amounts)"
    using assms(3) by (auto simp: flow_distribution_def and_then_eq_Ok)
  from flow_counts_trades[OF this] have
    "fd_trades flow = of_nat (length (filter (\<lambda>s. ms_flow s \<noteq> None) (rp_slots path)))"
    and split: "fd_trades flow = fd_base_to_quote_trades flow + fd_quote_to_base_trades flow" by auto
  moreover have "rr_trades_attempted r = of_nat (length (filter (\<lambda>s. ms_flow s \<noteq> None) (rp_slots path)))"
    using replay_accounts[OF assms(2,4,5)] by (metis report_accounts_def of_nat_unat_id)
  ultimately show ?thesis using parsed_replay_sends_all[OF assms(1,2,5)] split by metis
qed

theorem replay_report_agrees_witness:
  "\<exists>r. simulate_reference_quote_replay sim_scenario (rows_path fixture_rows) = Some (Ok r)
     \<and> rr_trades_attempted r = fd_trades fixture_flow
     \<and> rr_quote_updates_sent r = ld_quote_updates_sent (landing_distribution (rows_path fixture_rows))"
proof -
  obtain r where r: "simulate_reference_quote_replay sim_scenario (rows_path fixture_rows) = Some (Ok r)"
    using outcome_isD[OF fixture_simulation] by blast
  have len: "length (rp_slots (rows_path fixture_rows)) < 2 ^ 64"
    "length (rp_quote_updates (rows_path fixture_rows)) < 2 ^ 64"
    by (simp_all add: rows_path_def fixture_rows_def fixture_row_def)
  from replay_report_agrees[OF parse_write_replay r fixture_flow_distribution len] r show ?thesis by blast
qed

end
