(* ===== verification/Config_Import.thy ===== *)
theory Config_Import imports Text_Format Config_Layout begin
text \<open>
  The import of an exported strategy, \<open>parse_reference_quote_strategy_export\<close> and its callers in
  \<open>crates/meta_amm_config/src/lib.rs\<close>.  The importer does not parse JSON: each field is the
  first occurrence of its quoted name, and its value what follows the next colon.
\<close>

section \<open>Fields and errors\<close>

datatype export_field =
    Version | Mode | FeeBps | BaseHalfSpreadBps | AgingStartSlots | ProtectedStartSlots | ExpireSlots
  | AgingSurchargeBpsPerSlot | MaxAgingSurchargeBps | MaxTradeBaseAtoms | ProtectedMaxTradeBaseAtoms
  | InventorySkewBpsPer10kImbalance | MaxInventorySkewBps | HardInventoryBandBps
  | MaxMakerUpdatePeriodSlots | MaxLandingLatencySlots | MinUpdateSuccessProbabilityBps | SameSlotOrder

datatype config_import_error =
    MissingField export_field | InvalidNumber export_field | InvalidString export_field
  | UnsupportedVersion u64 | UnsupportedMode | UnknownSameSlotOrder | ConfigRejected config_error

primrec field_name :: "export_field \<Rightarrow> string" where
  "field_name Version = ''version''"
| "field_name Mode = ''mode''"
| "field_name FeeBps = ''fee_bps''"
| "field_name BaseHalfSpreadBps = ''base_half_spread_bps''"
| "field_name AgingStartSlots = ''aging_start_slots''"
| "field_name ProtectedStartSlots = ''protected_start_slots''"
| "field_name ExpireSlots = ''expire_slots''"
| "field_name AgingSurchargeBpsPerSlot = ''aging_surcharge_bps_per_slot''"
| "field_name MaxAgingSurchargeBps = ''max_aging_surcharge_bps''"
| "field_name MaxTradeBaseAtoms = ''max_trade_base_atoms''"
| "field_name ProtectedMaxTradeBaseAtoms = ''protected_max_trade_base_atoms''"
| "field_name InventorySkewBpsPer10kImbalance = ''inventory_skew_bps_per_10k_imbalance''"
| "field_name MaxInventorySkewBps = ''max_inventory_skew_bps''"
| "field_name HardInventoryBandBps = ''hard_inventory_band_bps''"
| "field_name MaxMakerUpdatePeriodSlots = ''max_maker_update_period_slots''"
| "field_name MaxLandingLatencySlots = ''max_landing_latency_slots''"
| "field_name MinUpdateSuccessProbabilityBps = ''min_update_success_probability_bps''"
| "field_name SameSlotOrder = ''same_slot_order''"

definition export_field_needle :: "export_field \<Rightarrow> string" where
  "export_field_needle field = quoted (field_name field)"

section \<open>Fields of a text\<close>

definition field_value :: "string \<Rightarrow> export_field \<Rightarrow> config_import_error + string" where
  "field_value source field =
    and_then (ok_or (MissingField field) (after_match (export_field_needle field) source)) (\<lambda>after_key.
    ok_or (MissingField field) (after_char (CHR '':'') after_key))"

definition number_end :: "char \<Rightarrow> bool" where
  "number_end c \<longleftrightarrow> c = CHR '','' \<or> c = CHR ''}'' \<or> c = CHR '']'' \<or> is_ascii_whitespace c"

definition parse_u64_field :: "string \<Rightarrow> export_field \<Rightarrow> config_import_error + u64" where
  "parse_u64_field source field =
    and_then (field_value source field) (\<lambda>value.
    let value = skip_ascii_whitespace value;
        digits = takeWhile is_ascii_digit value;
        rest = dropWhile is_ascii_digit value
    in if digits = [] then Err (InvalidNumber field)
       else if rest \<noteq> [] \<and> \<not> number_end (hd rest) then Err (InvalidNumber field)
       else ok_or (InvalidNumber field) (parse_u64_digits digits))"

definition parse_u16_field :: "string \<Rightarrow> export_field \<Rightarrow> config_import_error + u16" where
  "parse_u16_field source field =
    and_then (parse_u64_field source field) (\<lambda>value.
    if 65535 < value then Err (InvalidNumber field) else Ok (ucast value))"

text \<open>The text up to the closing quote, a backslash escaping the next character.\<close>

fun scan_string :: "bool \<Rightarrow> string \<Rightarrow> string option" where
  "scan_string escaped [] = None"
| "scan_string True (ch # rest) = map_option (Cons ch) (scan_string False rest)"
| "scan_string False (ch # rest) =
    (if ch = BACKSLASH then map_option (Cons ch) (scan_string True rest)
     else if ch = QUOTE then Some []
     else map_option (Cons ch) (scan_string False rest))"

definition parse_string_field :: "string \<Rightarrow> export_field \<Rightarrow> config_import_error + string" where
  "parse_string_field source field =
    and_then (field_value source field) (\<lambda>value.
    case skip_ascii_whitespace value of
      [] \<Rightarrow> Err (InvalidString field)
    | ch # rest \<Rightarrow>
        if ch \<noteq> QUOTE then Err (InvalidString field)
        else ok_or (InvalidString field) (scan_string False rest))"

section \<open>The import\<close>

definition parse_params :: "string \<Rightarrow> config_import_error + reference_quote_params" where
  "parse_params source =
    and_then (parse_u16_field source FeeBps) (\<lambda>fee.
    and_then (parse_u16_field source BaseHalfSpreadBps) (\<lambda>half_spread.
    and_then (parse_u64_field source AgingStartSlots) (\<lambda>aging_start.
    and_then (parse_u64_field source ProtectedStartSlots) (\<lambda>protected_start.
    and_then (parse_u64_field source ExpireSlots) (\<lambda>expire.
    and_then (parse_u16_field source AgingSurchargeBpsPerSlot) (\<lambda>surcharge.
    and_then (parse_u16_field source MaxAgingSurchargeBps) (\<lambda>max_surcharge.
    and_then (parse_u64_field source MaxTradeBaseAtoms) (\<lambda>max_trade.
    and_then (parse_u64_field source ProtectedMaxTradeBaseAtoms) (\<lambda>protected_max_trade.
    and_then (parse_u16_field source InventorySkewBpsPer10kImbalance) (\<lambda>skew.
    and_then (parse_u16_field source MaxInventorySkewBps) (\<lambda>max_skew.
    and_then (parse_u16_field source HardInventoryBandBps) (\<lambda>band.
    Ok \<lparr>fee_bps = fee, base_half_spread_bps = half_spread, aging_start_slots = aging_start,
        protected_start_slots = protected_start, expire_slots = expire,
        aging_surcharge_bps_per_slot = surcharge, max_aging_surcharge_bps = max_surcharge,
        max_trade_base_atoms = max_trade, protected_max_trade_base_atoms = protected_max_trade,
        inventory_skew_bps_per_10k_imbalance = skew, max_inventory_skew_bps = max_skew,
        hard_inventory_band_bps = band\<rparr>))))))))))))"

definition same_slot_order_of_str :: "string \<Rightarrow> config_import_error + same_slot_update_order" where
  "same_slot_order_of_str s =
    (if s = ''update_before_swap'' then Ok UpdateBeforeSwap
     else if s = ''swap_before_update'' then Ok SwapBeforeUpdate
     else Err UnknownSameSlotOrder)"

definition parse_envelope :: "string \<Rightarrow> config_import_error + quote_update_envelope" where
  "parse_envelope source =
    and_then (and_then (parse_string_field source SameSlotOrder) same_slot_order_of_str) (\<lambda>order.
    and_then (parse_u64_field source MaxMakerUpdatePeriodSlots) (\<lambda>period.
    and_then (parse_u64_field source MaxLandingLatencySlots) (\<lambda>latency.
    and_then (parse_u16_field source MinUpdateSuccessProbabilityBps) (\<lambda>probability.
    Ok \<lparr>max_maker_update_period_slots = period, max_landing_latency_slots = latency,
        min_update_success_probability_bps = probability, same_slot_order = order\<rparr>))))"

definition parse_reference_quote_strategy_export :: "string \<Rightarrow> config_import_error + strategy_config" where
  "parse_reference_quote_strategy_export source =
    and_then (parse_u64_field source Version) (\<lambda>version.
    if version \<noteq> ucast CONFIG_SCHEMA_VERSION then Err (UnsupportedVersion version)
    else and_then (parse_string_field source Mode) (\<lambda>mode.
    if mode \<noteq> ''ReferenceQuote'' then Err UnsupportedMode
    else and_then (parse_params source) (\<lambda>params.
    and_then (map_err ConfigRejected (validate_reference_quote_params params)) (\<lambda>_.
    and_then (parse_envelope source) (\<lambda>envelope.
    and_then (map_err ConfigRejected (validate_quote_update_envelope envelope (expire_slots params))) (\<lambda>_.
    Ok \<lparr>st_params = params, st_quote_update_envelope = envelope\<rparr>))))))"

definition reference_quote_input_from_export ::
    "string \<Rightarrow> token_pair_identity \<Rightarrow> account_budget \<Rightarrow> config_import_error + config_input" where
  "reference_quote_input_from_export source pair budget =
    and_then (parse_reference_quote_strategy_export source) (\<lambda>strategy.
    and_then (map_err ConfigRejected (validate_account_budget budget)) (\<lambda>_.
    and_then (map_err ConfigRejected (map_err DecimalScaleInvalid
        (decimal_scale_new (tp_base_decimals pair) (tp_quote_decimals pair)))) (\<lambda>_.
    Ok \<lparr>in_strategy = strategy, in_token_pair = pair, in_account_budget = budget\<rparr>)))"

definition compile_reference_quote_export ::
    "string \<Rightarrow> token_pair_identity \<Rightarrow> account_budget \<Rightarrow> config_import_error + compiled_config" where
  "compile_reference_quote_export source pair budget =
    and_then (reference_quote_input_from_export source pair budget) (\<lambda>input.
    map_err ConfigRejected (compile_reference_quote_config input))"

definition compile_reference_quote_export_account ::
    "string \<Rightarrow> token_pair_identity \<Rightarrow> account_budget \<Rightarrow> u8 \<Rightarrow> bool
      \<Rightarrow> (config_import_error + config_account_layout) option" where
  "compile_reference_quote_export_account source pair budget authority_bump paused_flag =
    (case compile_reference_quote_export source pair budget of
       Err e \<Rightarrow> Some (Err e)
     | Ok compiled \<Rightarrow> map_option Ok (layout_from_compiled compiled authority_bump paused_flag))"

section \<open>What the importer reads in a text of quoted words\<close>

lemma field_name_plain: "plain (field_name f)"
  by (cases f) (simp_all add: is_control_def)

lemma plain_unquoted: "plain s \<Longrightarrow> unquoted s"
  by (auto simp: plain_def unquoted_def)

text \<open>
  Well-formed words: no quotes outside the quoting, and each gap starts with a colon or a comma.
\<close>

definition words_ok :: "(string \<times> string) list \<Rightarrow> bool" where
  "words_ok ws \<longleftrightarrow> list_all (\<lambda>(w, gap). unquoted w \<and> unquoted gap \<and> gap \<noteq> [] \<and> hd gap \<in> {CHR '':'', CHR '',''}) ws"

lemma field_name_head: "hd (field_name f) \<notin> {CHR '':'', CHR '',''}" "field_name f \<noteq> []"
  by (cases f; simp)+

lemma after_word_hit: "after_word k ws tail \<noteq> None \<Longrightarrow> k \<in> fst ` set ws"
  by (induction k ws tail rule: after_word.induct) (auto split: if_splits)

lemma after_match_words:
  assumes "words_ok ws" "unquoted lead" "after_word (field_name f) ws tail = Some after"
  shows "after_match (export_field_needle f) (lead @ words ws tail) = Some after"
proof -
  have k: "unquoted (field_name f)" by (rule plain_unquoted[OF field_name_plain])
  have hit: "field_name f \<in> fst ` set ws" using after_word_hit[of "field_name f" ws tail] assms(3) by simp
  then have ne: "ws \<noteq> []" by auto
  have "unquoted w \<and> unquoted gap \<and> gap \<noteq> field_name f" if "(w, gap) \<in> set ws" for w gap
    using assms(1) that field_name_head[of f] by (force simp: words_ok_def list_all_iff)
  from after_match_word[OF k ne this hit, of tail] show ?thesis
    using assms(2,3) by (simp add: export_field_needle_def after_match_skip)
qed

lemma field_value_words:
  assumes "words_ok ws" "unquoted lead" "after_word (field_name f) ws tail = Some (CHR '':'' # value)"
  shows "field_value (lead @ words ws tail) f = Ok value"
  by (simp add: field_value_def after_match_words[OF assms] ok_or_def)

lemma takeWhile_digits:
  assumes "\<And>c. c \<in> set ds \<Longrightarrow> is_ascii_digit c" "\<not> is_ascii_digit c"
  shows "takeWhile is_ascii_digit (ds @ c # rest) = ds" "dropWhile is_ascii_digit (ds @ c # rest) = c # rest"
  using assms by (induction ds) auto

lemma number_end_not_digit: "number_end c \<Longrightarrow> \<not> is_ascii_digit c"
  by (auto simp: number_end_def is_ascii_whitespace_def is_ascii_digit_def)

lemma parse_u64_field_value:
  assumes "field_value source f = Ok (CHR '' '' # show_nat n @ c # rest)" "number_end c" "n < 2 ^ 64"
  shows "parse_u64_field source f = Ok (of_nat n)"
proof -
  have "\<not> is_ascii_whitespace (hd (show_nat n))"
    using show_nat_digits[of "hd (show_nat n)" n]
    by (auto simp: is_ascii_whitespace_def is_ascii_digit_def)
  then have skip: "skip_ascii_whitespace (CHR '' '' # show_nat n @ c # rest) = show_nat n @ c # rest"
    using show_nat_nonempty[of n]
    by (cases "show_nat n") (simp_all add: skip_ascii_whitespace_def is_ascii_whitespace_def)
  show ?thesis
    using assms takeWhile_digits[of "show_nat n" c rest, OF show_nat_digits number_end_not_digit[OF assms(2)]]
    by (simp add: parse_u64_field_def skip Let_def parse_show_nat ok_or_def)
qed

lemma parse_u16_field_value:
  assumes "field_value source f = Ok (CHR '' '' # show_nat (unat (v :: u16)) @ c # rest)" "number_end c"
  shows "parse_u16_field source f = Ok v"
proof -
  have fits: "unat v < 2 ^ 64" using u16_bound[of v] by simp
  have u: "unat (of_nat (unat v) :: u64) = unat v" by (rule unat_of_nat_fits) (use fits in simp)
  have "parse_u64_field source f = Ok (of_nat (unat v))"
    using parse_u64_field_value[OF assms fits] .
  moreover have "\<not> 65535 < (of_nat (unat v) :: u64)"
    using u16_bound[of v] by (simp only: word_less_nat_alt u) simp
  moreover have "ucast (of_nat (unat v) :: u64) = v"
    using u16_bound[of v] by (simp add: word_eq_iff_unat unat_ucast_narrow u)
  ultimately show ?thesis by (simp add: parse_u16_field_def)
qed

lemma scan_string_plain: "plain s \<Longrightarrow> scan_string False (s @ QUOTE # rest) = Some s"
  by (induction s) auto

lemma parse_string_field_value:
  assumes "field_value source f = Ok (CHR '' '' # quoted s @ rest)" "plain s"
  shows "parse_string_field source f = Ok s"
  using assms
  by (simp add: parse_string_field_def skip_ascii_whitespace_def is_ascii_whitespace_def quoted_def
      scan_string_plain ok_or_def)

end
