(* ===== verification/Sim_Maker.thy ===== *)
theory Sim_Maker imports Sim_Accounting begin

text \<open>
  A simulated run of a maker policy returns, except at the very last slot number; and a maker
  that updates within the envelope of its compiled configuration, and whose updates land, never
  shows a trader a stale quote.
\<close>

section \<open>The runs return\<close>

lemma send_due_returns:
  assumes "ms_slot slot < - 1" "qp_maker_update_period_slots policy \<noteq> 0"
  shows "\<exists>res. send_due policy slot n run = Some res"
proof (induction "unat (ms_slot slot) + 1 - unat n" arbitrary: n run rule: less_induct)
  case less
  show ?case
  proof (cases "n \<le> ms_slot slot")
    case False
    then show ?thesis by (subst send_due.simps) simp
  next
    case True
    have p: "0 < unat (qp_maker_update_period_slots policy)" using assms(2) by (simp add: unat_gt_0)
    have s: "unat (ms_slot slot) < 2 ^ 64 - 1" using assms(1) by (simp add: word_less_nat_alt unat_max_word)
    have n: "unat n \<le> unat (ms_slot slot)" using True by (simp add: word_le_nat_alt)
    have "unat (ms_slot slot) + 1 - unat (saturating_add n (qp_maker_update_period_slots policy))
        < unat (ms_slot slot) + 1 - unat n"
      using p s n by (simp add: unat_saturating_add min_def) arith
    note step = less[OF this]
    show ?thesis
      by (subst send_due.simps) (simp only: True if_True step)
  qed
qed

lemma simulate_slots_returns:
  assumes "\<And>slot f run. slot \<in> set slots \<Longrightarrow> feed f slot run \<noteq> None"
  shows "\<exists>res. simulate_slots feed order params slots previous f run = Some res"
  using assms
proof (induction slots arbitrary: previous f run)
  case (Cons slot slots)
  obtain f1 run1 where "feed f slot run = Some (f1, run1)"
    using Cons.prems[of slot f run] by auto
  moreover have "\<exists>res. simulate_slots feed order params slots (Some (ms_slot slot)) f1 run2 = Some res" for run2
    using Cons.prems by (intro Cons.IH) auto
  ultimately show ?case by (auto split: sum.splits)
qed simp

lemma path_returns:
  assumes "list_all (\<lambda>s. ms_slot s < - 1) slots"
  shows "\<exists>res. simulate_reference_quote_market_path scenario slots = Some res"
proof (cases "validate_quote_update_policy (rs_quote_update_policy scenario)")
  case (Inl e)
  then show ?thesis by (simp add: simulate_reference_quote_market_path_def Let_def)
next
  case (Inr u)
  then have p: "qp_maker_update_period_slots (rs_quote_update_policy scenario) \<noteq> 0"
    using validated_policy[of "rs_quote_update_policy scenario"] by simp
  have "policy_feed (rs_quote_update_policy scenario) n s run \<noteq> None" if "s \<in> set slots" for s n run
    using send_due_returns[of s "rs_quote_update_policy scenario" n run] that assms p
    by (auto simp: policy_feed_def list_all_iff)
  from simulate_slots_returns[OF this] Inr show ?thesis
    by (fastforce simp: simulate_reference_quote_market_path_def Let_def)
qed

text \<open>
  With a valid policy, a path that starts at the last slot number never returns: the number
  of the next update saturates and never passes the slot.
\<close>

lemma market_path_at_last_slot_diverges:
  assumes "validate_quote_update_policy (rs_quote_update_policy scenario) = Ok ()" and "ms_slot slot = - 1"
  shows "simulate_reference_quote_market_path scenario (slot # slots) = None"
proof -
  have "policy_feed (rs_quote_update_policy scenario) n slot run = None" for n run
    using policy_feed_returns(1)[of "rs_quote_update_policy scenario" n slot run] assms(2)
    by (cases "policy_feed (rs_quote_update_policy scenario) n slot run") auto
  then show ?thesis using assms(1)
    by (simp add: simulate_reference_quote_market_path_def Let_def)
qed

section \<open>A punctual maker\<close>

text \<open>
  A maker whose updates always land publishes at every multiple of its period.  The queue then
  continues the installed quote: one update per period, each landing the latency later, up to
  the next one to be sent.
\<close>

fun continues :: "nat \<Rightarrow> nat \<Rightarrow> nat \<Rightarrow> pending_quote_update list \<Rightarrow> nat \<Rightarrow> bool" where
  "continues period latency published [] next_publish \<longleftrightarrow> next_publish = published + period"
| "continues period latency published (u # us) next_publish \<longleftrightarrow>
     unat (pu_publish_slot u) = published + period
     \<and> unat (pu_landing_slot u) = published + period + latency
     \<and> continues period latency (published + period) us next_publish"

lemma continues_landing:
  "continues p l m us n \<Longrightarrow> u \<in> set us \<Longrightarrow> m + p + l \<le> unat (pu_landing_slot u)"
  by (induction p l m us n rule: continues.induct) auto

lemma continues_append:
  "continues p l m us n \<Longrightarrow> unat (pu_publish_slot u) = n \<Longrightarrow> unat (pu_landing_slot u) = n + l \<Longrightarrow>
   continues p l m (us @ [u]) (n + p)"
  by (induction p l m us n rule: continues.induct) auto

text \<open>Landing through a slot installs the last due update and leaves the rest continuing it.\<close>

fun installed_slot :: "u64 \<Rightarrow> u64 \<Rightarrow> pending_quote_update list \<Rightarrow> u64" where
  "installed_slot t m [] = m"
| "installed_slot t m (u # us) = installed_slot t (if pu_landing_slot u \<le> t then pu_publish_slot u else m) us"

lemma installed_slot_eq:
  "installed_slot t m us = (let due = filter (\<lambda>u. pu_landing_slot u \<le> t) us
     in if due = [] then m else pu_publish_slot (last due))"
  by (induction t m us rule: installed_slot.induct) (auto simp: Let_def)

lemma installed_slot_none:
  "(\<And>u. u \<in> set us \<Longrightarrow> \<not> pu_landing_slot u \<le> t) \<Longrightarrow> installed_slot t m us = m"
  by (induction t m us rule: installed_slot.induct) auto

lemma continues_land:
  assumes "continues p l (unat m) us n"
  shows "continues p l (unat (installed_slot t m us)) (filter (\<lambda>u. \<not> pu_landing_slot u \<le> t) us) n
    \<and> (unat t < unat (installed_slot t m us) + p + l \<or> n = unat (installed_slot t m us) + p)"
  using assms
proof (induction t m us rule: installed_slot.induct)
  case (2 t m u us)
  have rest: "continues p l (unat (pu_publish_slot u)) us n" using "2.prems" by simp
  show ?case
  proof (cases "pu_landing_slot u \<le> t")
    case True
    with "2.IH" rest show ?thesis by simp
  next
    case False
    have later: "\<not> pu_landing_slot v \<le> t" if "v \<in> set us" for v
      using continues_landing[OF rest that] False "2.prems" by (simp add: word_le_nat_alt)
    then have "filter (\<lambda>u. \<not> pu_landing_slot u \<le> t) us = us" by simp
    with "2.prems" False installed_slot_none[of us t m] later show ?thesis
      by (simp add: word_le_nat_alt)
  qed
qed auto

definition run_continues :: "nat \<Rightarrow> nat \<Rightarrow> u64 \<Rightarrow> market_run \<Rightarrow> bool" where
  "run_continues p l n run \<longleftrightarrow>
     continues p l (unat (mid_publish_slot (mr_state run))) (mr_pending run) (unat n)"

lemma land_continues:
  assumes "run_continues p l n run"
  shows "run_continues p l n (land t run)"
    and "unat t < unat (mid_publish_slot (mr_state (land t run))) + p + l
       \<or> unat n = unat (mid_publish_slot (mr_state (land t run))) + p"
  using continues_land[OF assms[unfolded run_continues_def], of t]
  by (auto simp: run_continues_def land_def apply_landed_quote_updates_def installed_slot_eq Let_def)

definition punctual :: "quote_update_policy \<Rightarrow> bool" where
  "punctual policy \<longleftrightarrow> qp_maker_update_period_slots policy \<noteq> 0
     \<and> qp_update_success_probability_bps policy = 10000"

text \<open>How old a quote a trade can meet: the update in flight is at most this far away.\<close>

definition age_bound :: "quote_update_policy \<Rightarrow> nat" where
  "age_bound policy = unat (qp_maker_update_period_slots policy) + unat (qp_landing_latency_slots policy)"

lemma policy_feed_continues:
  assumes feed: "policy_feed policy n slot run = Some (n', run')" and pol: "punctual policy"
    and fits: "unat (ms_slot slot) + age_bound policy < 2 ^ 64"
    and inv: "run_continues (unat (qp_maker_update_period_slots policy)) (unat (qp_landing_latency_slots policy)) n run"
  shows "run_continues (unat (qp_maker_update_period_slots policy)) (unat (qp_landing_latency_slots policy)) n' run'"
    and "rr_max_quote_age_slots (mr_report run') = rr_max_quote_age_slots (mr_report run)"
    and "trade_part (mr_report run') = trade_part (mr_report run)"
    and "mr_state run' = mr_state run"
proof -
  let ?p = "unat (qp_maker_update_period_slots policy)" and ?l = "unat (qp_landing_latency_slots policy)"
  let ?Q = "\<lambda>n r. run_continues ?p ?l n r \<and> mr_state r = mr_state run
    \<and> rr_max_quote_age_slots (mr_report r) = rr_max_quote_age_slots (mr_report run)
    \<and> trade_part (mr_report r) = trade_part (mr_report run)"
  have k: "policy_step_keeps ?Q policy slot"
    unfolding policy_step_keeps_def
  proof (intro allI impI)
    fix n r assume n: "n \<le> ms_slot slot" and q: "?Q n r"
    have land: "quote_update_should_land policy n"
      using pol by (simp add: punctual_def quote_update_should_land_def)
    have b: "unat n + ?p + ?l < 2 ^ 64" using n fits by (simp add: word_le_nat_alt age_bound_def)
    let ?u = "\<lparr>pu_publish_slot = n, pu_landing_slot = saturating_add n (qp_landing_latency_slots policy),
      pu_mid_price = ms_fair_price slot\<rparr>"
    have "continues ?p ?l (unat (mid_publish_slot (mr_state r))) (mr_pending r @ [?u]) (unat n + ?p)"
      using conjunct1[OF q] b by (intro continues_append) (simp_all add: run_continues_def unat_saturating_add)
    then have sent: "run_continues ?p ?l (saturating_add n (qp_maker_update_period_slots policy))
        (send_update (policy_update policy slot n) r)"
      using b land by (simp add: run_continues_def send_update_def policy_update_def Let_def unat_saturating_add)
    show "?Q (saturating_add n (qp_maker_update_period_slots policy)) (send_update (policy_update policy slot n) r)"
      using conjunct2[OF q] by (simp add: sent send_update_keeps)
  qed
  from send_due_induct[OF feed[unfolded policy_feed_def] k] inv
  have "?Q n' run'" by simp
  then show "run_continues ?p ?l n' run'" "mr_state run' = mr_state run"
    "rr_max_quote_age_slots (mr_report run') = rr_max_quote_age_slots (mr_report run)"
    "trade_part (mr_report run') = trade_part (mr_report run)"
    by simp_all
qed


text \<open>Only an expired quote is refused as stale.\<close>

lemma mul_div_floor_Err: "mul_div_floor a b d = Err e \<Longrightarrow> e = DivByZero \<or> e = Overflow"
  by (auto simp: mul_div_floor_spec split: if_splits)

lemma amount_floor_Err:
  "mul_amount_floor x a = Err e \<Longrightarrow> e = DivByZero \<or> e = Overflow"
  "div_amount_floor x a = Err e \<Longrightarrow> e = DivByZero \<or> e = Overflow"
  by (auto simp: mul_amount_floor_def div_amount_floor_def and_then_eq_Err ok_or_def
      dest: mul_div_floor_Err split: option.splits)

lemma reference_fill_Err:
  "reference_fill s a l p b = Err e \<Longrightarrow> e \<in> {DivByZero, Overflow, InvalidAmount, Underflow}"
  by (auto simp: reference_fill_def and_then_eq_Err ok_or_def dest: amount_floor_Err
      split: if_splits option.splits)

lemma effective_price_Err:
  "effective_price m s k b = Err e \<Longrightarrow> e \<in> {InvalidConfig, DivByZero, Overflow}"
  by (auto simp: effective_price_def Let_def map_ok_eq dest: mul_div_floor_Err split: if_splits)

lemma base_equivalent_Err:
  "base_equivalent_amount m a b = Err e \<Longrightarrow> e = DivByZero \<or> e = Overflow"
  by (auto simp: base_equivalent_amount_def dest: amount_floor_Err split: if_splits)

lemma amount_less_fee_Err: "amount_less_fee a f = Err e \<Longrightarrow> e = InvalidFee \<or> e = InvalidAmount"
  by (auto simp: amount_less_fee_def Let_def split: if_splits)

lemma stale_only_when_expired:
  assumes "reference_quote_exact_in s p a b = Err StaleQuote"
  shows "unat (expire_slots p) \<le> quote_age s"
proof -
  have "quote_age_state s p = Ok Expired"
    using assms
    by (auto simp: reference_quote_exact_in_def validate_params_eq and_then_eq_Err Let_def quote_age_state_eq
        dest: reference_fill_Err effective_price_Err base_equivalent_Err amount_less_fee_Err
        split: if_splits prod.splits)
  then show ?thesis by (auto simp: quote_age_state_eq age_state_of_def split: if_splits)
qed

lemma execute_slot_not_stale:
  assumes "execute_reference_quote_slot r st params slot = Ok (r', st')"
    and "quote_age st < unat (expire_slots params)"
  shows "rr_rejected_stale r' = rr_rejected_stale r"
proof (cases "ms_flow slot")
  case None
  with assms show ?thesis by (simp add: execute_reference_quote_slot_def)
next
  case (Some flow)
  show ?thesis
  proof (cases "reference_quote_exact_in st params (fo_amount_in flow) (fo_side flow = BaseToQuote)")
    case (Inl e)
    moreover have "e \<noteq> StaleQuote" using stale_only_when_expired[of st params] Inl assms(2) by force
    ultimately show ?thesis using assms(1) Some
      by (cases e) (auto simp: execute_reference_quote_slot_def count_rejection_def Let_def)
  next
    case (Inr q)
    with assms(1) Some obtain fee edge where
      "record_fill (r\<lparr>rr_trades_attempted := rr_trades_attempted r + 1\<rparr>) st q fee edge = (r', st')"
      by (auto simp: execute_reference_quote_slot_def Let_def and_then_eq_Ok)
    then show ?thesis
      by (cases "rq_age_state q") (auto simp: record_fill_def Let_def)
  qed
qed

lemma land_quiet:
  "rr_rejected_stale (mr_report (land t run)) = rr_rejected_stale (mr_report run)"
  "rr_max_quote_age_slots (mr_report (land t run)) = rr_max_quote_age_slots (mr_report run)"
  by (simp_all add: land_def apply_landed_quote_updates_def Let_def)

lemma process_slot_punctual:
  assumes run': "process_slot order params slot run = Ok run'" and inv: "run_continues p l n run"
    and ahead: "ms_slot slot < n" and short: "p + l < unat (expire_slots params)"
    and age: "unat (rr_max_quote_age_slots (mr_report run)) \<le> p + l"
  shows "run_continues p l n run'" "unat (rr_max_quote_age_slots (mr_report run')) \<le> p + l"
    "rr_rejected_stale (mr_report run') = rr_rejected_stale (mr_report run)"
proof -
  obtain t r st where
    t_def: "(case order of UpdateBeforeSwap \<Rightarrow> ms_slot slot | SwapBeforeUpdate \<Rightarrow> saturating_sub (ms_slot slot) 1) = t"
    and ex: "execute_reference_quote_slot (mr_report (enter_slot (ms_slot slot) (land t run)))
      (mr_state (enter_slot (ms_slot slot) (land t run))) params slot = Ok (r, st)"
    and out: "run' = (if order = SwapBeforeUpdate
      then land (ms_slot slot) ((enter_slot (ms_slot slot) (land t run))\<lparr>mr_report := r, mr_state := st\<rparr>)
      else (enter_slot (ms_slot slot) (land t run))\<lparr>mr_report := r, mr_state := st\<rparr>)"
    using run' by (rule process_slot_cases)
  let ?run = "enter_slot (ms_slot slot) (land t run)"
  have t: "unat (ms_slot slot) \<le> unat t + 1"
    using t_def by (cases order) (auto simp: unat_saturating_sub)
  have "unat (ms_slot slot) < unat n" using ahead by (simp add: word_less_nat_alt)
  with land_continues(2)[OF inv, of t] t
  have now: "quote_age (mr_state ?run) \<le> p + l"
    by (auto simp: quote_age_def enter_slot_keeps)
  have cont: "run_continues p l n (?run\<lparr>mr_report := r, mr_state := st\<rparr>)"
    using land_continues(1)[OF inv, of t] execute_slot_updates(5)[OF ex]
    by (simp add: run_continues_def enter_slot_keeps)
  then show "run_continues p l n run'" using land_continues(1)[OF cont] by (simp add: out)
  have "rr_rejected_stale r = rr_rejected_stale (mr_report ?run)"
    using execute_slot_not_stale[OF ex] now short by linarith
  then show "rr_rejected_stale (mr_report run') = rr_rejected_stale (mr_report run)"
    by (simp add: out land_quiet enter_slot_def Let_def)
  have "unat (rr_max_quote_age_slots r) \<le> p + l"
    using execute_slot_updates(4)[OF ex] now age
    by (simp add: enter_slot_def Let_def land_quiet quote_age_def unat_saturating_sub max_def)
  then show "unat (rr_max_quote_age_slots (mr_report run')) \<le> p + l"
    by (simp add: out land_quiet)
qed

lemma punctual_slots:
  assumes "simulate_slots (policy_feed policy) order params slots previous n run = Some (Ok run')"
    and "punctual policy" "list_all (\<lambda>s. unat (ms_slot s) + age_bound policy < 2 ^ 64) slots"
    and "age_bound policy < unat (expire_slots params)"
    and "run_continues (unat (qp_maker_update_period_slots policy)) (unat (qp_landing_latency_slots policy)) n run"
    and "unat (rr_max_quote_age_slots (mr_report run)) \<le> age_bound policy"
  shows "unat (rr_max_quote_age_slots (mr_report run')) \<le> age_bound policy
    \<and> rr_rejected_stale (mr_report run') = rr_rejected_stale (mr_report run)"
  using assms
proof (induction slots arbitrary: previous n run)
  case Nil
  then show ?case by simp
next
  case (Cons slot slots)
  from Cons.prems(1) obtain n1 run1 run2 where f: "policy_feed policy n slot run = Some (n1, run1)"
    and p: "process_slot order params slot run1 = Ok run2"
    and rest: "simulate_slots (policy_feed policy) order params slots (Some (ms_slot slot)) n1 run2 = Some (Ok run')"
    by (rule simulate_slots_ConsE)
  have fits: "unat (ms_slot slot) + age_bound policy < 2 ^ 64" using Cons.prems(3) by simp
  note c = policy_feed_continues[OF f Cons.prems(2) fits Cons.prems(5)]
  have "rr_rejected_stale (mr_report run1) = rr_rejected_stale (mr_report run)"
    using c(3) by (simp add: trade_part_def)
  moreover note process_slot_punctual[OF p c(1) policy_feed_returns(2)[OF f]
      Cons.prems(4)[unfolded age_bound_def]]
  ultimately show ?case
    using Cons.IH[OF rest Cons.prems(2) _ Cons.prems(4)] Cons.prems(3,6) c(2)
    by (simp add: age_bound_def)
qed

text \<open>
  Within the update envelope of a compiled configuration, and with updates that always land, no
  trade is refused as stale.
\<close>

lemma punctual_path_never_stale:
  assumes "simulate_reference_quote_market_path scenario slots = Some (Ok r)"
    and "qp_update_success_probability_bps (rs_quote_update_policy scenario) = 10000"
    and "compile_reference_quote_config input = Ok config" "rs_params scenario = cc_params config"
    and "qp_maker_update_period_slots (rs_quote_update_policy scenario)
          \<le> max_maker_update_period_slots (cc_quote_update_envelope config)"
    and "qp_landing_latency_slots (rs_quote_update_policy scenario)
          \<le> max_landing_latency_slots (cc_quote_update_envelope config)"
    and "list_all (\<lambda>s. unat (ms_slot s) + unat (expire_slots (rs_params scenario)) < 2 ^ 64) slots"
  shows "rr_rejected_stale r = 0
    \<and> unat (rr_max_quote_age_slots r) \<le> unat (qp_maker_update_period_slots (rs_quote_update_policy scenario))
        + unat (qp_landing_latency_slots (rs_quote_update_policy scenario))"
proof -
  let ?policy = "rs_quote_update_policy scenario"
  from assms(1) obtain run where v: "validate_quote_update_policy ?policy = Ok ()"
    and run: "simulate_slots (policy_feed ?policy) (qp_same_slot_order ?policy) (rs_params scenario) slots None
        (qp_maker_update_period_slots ?policy) (initial_run scenario) = Some (Ok run)"
    and r: "r = finish_report run" by (rule market_path_run)
  have pol: "punctual ?policy" using v assms(2) by (simp add: validated_policy punctual_def)
  have short: "age_bound ?policy < unat (expire_slots (rs_params scenario))"
    using assms(3-6) config_params_runtime
    by (auto simp: compile_Ok input_ok_def compiled_from_def envelope_ok_def age_bound_def word_le_nat_alt)
  have fits: "list_all (\<lambda>s. unat (ms_slot s) + age_bound ?policy < 2 ^ 64) slots"
    using assms(7) short by (auto simp: list_all_iff)
  have "run_continues (unat (qp_maker_update_period_slots ?policy)) (unat (qp_landing_latency_slots ?policy))
      (qp_maker_update_period_slots ?policy) (initial_run scenario)"
    by (simp add: run_continues_def initial_run_def)
  from punctual_slots[OF run pol fits short this]
  show ?thesis
    by (simp add: r finish_report_def initial_run_def age_bound_def)
qed

section \<open>Concrete runs\<close>

theorem market_path_at_last_slot_diverges_witness:
  "simulate_reference_quote_market_path sim_scenario
    [\<lparr>ms_slot = - 1, ms_fair_price = ONE, ms_flow = None\<rparr>] = None"
  by (rule market_path_at_last_slot_diverges)
    (simp_all add: sim_scenario_def sim_policy_def validate_quote_update_policy_def)

end
