(* ===== verification/Sim_Generate.thy ===== *)
theory Sim_Generate imports Sim_Maker Sim_Stats begin
text \<open>
  Generated scenarios of \<open>crates/meta_amm_sim/src/lib.rs\<close>: a seeded random walk of an integer
  fair price with Bernoulli trade flow, one path per path index, and the simulations over all
  paths.  Shown here: the walk and the flow stay within their limits, slots are numbered from
  zero, every generated simulation returns, and the paths of a punctual maker are never stale.
\<close>

section \<open>Scenarios\<close>

record generated_cpmm_scenario =
  gc_assumptions :: scenario_assumptions
  gc_seed :: u128
  gc_slots_per_path :: u64
  gc_initial_reserves :: cpmm_reserves
  gc_initial_fair_price :: q64x64
  gc_fee_bps :: u16
  gc_volatility_bps_per_slot :: u16
  gc_drift_bps_per_slot :: int
  gc_trade_probability_bps :: u16
  gc_max_trade_base_atoms :: u64

record generated_reference_scenario =
  gr_assumptions :: scenario_assumptions
  gr_seed :: u128
  gr_slots_per_path :: u64
  gr_initial_base_inventory :: u64
  gr_initial_quote_inventory :: u64
  gr_target_base_inventory :: u64
  gr_initial_fair_price :: q64x64
  gr_quote_update_policy :: quote_update_policy
  gr_params :: reference_quote_params
  gr_volatility_bps_per_slot :: u16
  gr_drift_bps_per_slot :: int
  gr_trade_probability_bps :: u16
  gr_max_trade_base_atoms :: u64

definition update_integer_price :: "u64 \<Rightarrow> int \<Rightarrow> u16 \<Rightarrow> u128 \<Rightarrow> u64 \<times> u128" where
  "update_integer_price price drift volatility rng =
    (let vol = uint volatility;
         (random_delta, rng) =
           (if vol = 0 then (0, rng)
            else let (v, rng) = rng_next_u64 rng in (uint v mod (vol * 2 + 1) - vol, rng));
         total_bps = drift + random_delta;
         multiplier = max (10000 + total_bps) 1;
         next_price = max (uint price * multiplier div 10000) 1
     in (word_of_int (min next_price (2 ^ 64 - 1)), rng))"

text \<open>The flow of a slot: with the trade probability, a side and an amount.\<close>

definition generate_flow ::
    "u64 \<Rightarrow> u16 \<Rightarrow> u64 \<Rightarrow> u128 \<Rightarrow> math_error + flow_order option \<times> u128" where
  "generate_flow fair_price trade_probability max_trade rng =
    (let (draw, rng) = rng_next_bps rng
     in if min trade_probability 10000 \<le> draw then Ok (None, rng)
        else
          let (sells, rng) = rng_next_bool rng;
              (v, rng) = rng_next_u64 rng;
              base_size = 1 + v mod max max_trade 1
          in if sells then Ok (Some \<lparr>fo_side = BaseToQuote, fo_amount_in = base_size\<rparr>, rng)
             else map_ok (\<lambda>amount. (Some \<lparr>fo_side = QuoteToBase, fo_amount_in = amount\<rparr>, rng))
                    (mul_amount_floor (from_int fair_price) base_size))"

fun generate_slots ::
    "int \<Rightarrow> u16 \<Rightarrow> u16 \<Rightarrow> u64 \<Rightarrow> nat list \<Rightarrow> u64 \<Rightarrow> u128 \<Rightarrow> math_error + market_slot list" where
  "generate_slots drift volatility trade_probability max_trade [] price rng = Ok []"
| "generate_slots drift volatility trade_probability max_trade (slot # slots) price rng =
    (let (price, rng) = update_integer_price price drift volatility rng
     in and_then (generate_flow price trade_probability max_trade rng) (\<lambda>(flow, rng).
        map_ok (Cons \<lparr>ms_slot = of_nat slot, ms_fair_price = from_int price, ms_flow = flow\<rparr>)
          (generate_slots drift volatility trade_probability max_trade slots price rng)))"

definition generate_reference_market_path ::
    "generated_reference_scenario \<Rightarrow> u32 \<Rightarrow> math_error + market_slot list" where
  "generate_reference_market_path scenario path_index =
    generate_slots (gr_drift_bps_per_slot scenario) (gr_volatility_bps_per_slot scenario)
      (gr_trade_probability_bps scenario) (gr_max_trade_base_atoms scenario)
      [0..<unat (gr_slots_per_path scenario)]
      (max (to_int_floor (gr_initial_fair_price scenario)) 1)
      (rng_new (gr_seed scenario + ucast path_index * 0x517cc1b727220a95))"

definition flow_events_of :: "market_slot list \<Rightarrow> flow_event list" where
  "flow_events_of slots = List.map_filter (\<lambda>slot. map_option (\<lambda>flow.
     \<lparr>fe_slot = ms_slot slot, fe_side = fo_side flow, fe_amount_in = fo_amount_in flow,
      fe_fair_price = ms_fair_price slot\<rparr>) (ms_flow slot)) slots"

definition generate_reference_flow_path ::
    "generated_reference_scenario \<Rightarrow> u32 \<Rightarrow> math_error + flow_event list" where
  "generate_reference_flow_path scenario path_index =
    map_ok flow_events_of (generate_reference_market_path scenario path_index)"

text \<open>The constant-product path draws the same way and keeps only the slots with a flow.\<close>

definition generate_flow_path :: "generated_cpmm_scenario \<Rightarrow> u32 \<Rightarrow> math_error + flow_event list" where
  "generate_flow_path scenario path_index =
    map_ok flow_events_of
      (generate_slots (gc_drift_bps_per_slot scenario) (gc_volatility_bps_per_slot scenario)
        (gc_trade_probability_bps scenario) (gc_max_trade_base_atoms scenario)
        [0..<unat (gc_slots_per_path scenario)]
        (max (to_int_floor (gc_initial_fair_price scenario)) 1)
        (rng_new (gc_seed scenario + ucast path_index * 0x9e3779b97f4a7c15)))"

section \<open>The walk and the flow stay within their limits\<close>

lemma update_integer_price_bounds:
  assumes "update_integer_price price drift vol rng = (p, rng')"
  shows "1 \<le> unat p"
    and "uint p \<le> max 1 (uint price * max (10000 + drift + uint vol) 1 div 10000)"
proof -
  define delta where "delta = (if uint vol = 0 then 0 else uint (fst (rng_next_u64 rng)) mod (uint vol * 2 + 1) - uint vol)"
  define nxt where "nxt = max (uint price * max (10000 + (drift + delta)) 1 div 10000) 1"
  have p: "p = word_of_int (min nxt (2 ^ 64 - 1))"
    using assms unfolding update_integer_price_def Let_def delta_def nxt_def
    by (cases "rng_next_u64 rng"; cases "uint vol = 0")
      (simp_all only: prod.case fst_conv prod.inject if_True if_False simp_thms)
  have n: "1 \<le> nxt" by (simp add: nxt_def)
  have u: "uint p = min nxt (2 ^ 64 - 1)"
    unfolding p using n by (intro uint_word_of_int_eq[THEN trans]) (simp add: take_bit_eq_mod)
  show "1 \<le> unat p" using u n by (simp add: unat_eq_nat_uint)
  have "delta \<le> uint vol"
    using pos_mod_bound[of "uint vol * 2 + 1" "uint (fst (rng_next_u64 rng))"] by (simp add: delta_def)
  then have "uint price * max (10000 + (drift + delta)) 1 \<le> uint price * max (10000 + drift + uint vol) 1"
    by (intro mult_left_mono) simp_all
  then have "nxt \<le> max 1 (uint price * max (10000 + drift + uint vol) 1 div 10000)"
    unfolding nxt_def by (subst max.commute) (intro max.mono order_refl zdiv_mono1, simp_all only: zero_less_numeral)
  with u show "uint p \<le> max 1 (uint price * max (10000 + drift + uint vol) 1 div 10000)" by simp
qed

definition flow_in_limits :: "u64 \<Rightarrow> q64x64 \<Rightarrow> flow_order \<Rightarrow> bool" where
  "flow_in_limits max_trade price flow \<longleftrightarrow> (\<exists>size. 1 \<le> unat size \<and> unat size \<le> max (unat max_trade) 1
     \<and> (case fo_side flow of
          BaseToQuote \<Rightarrow> fo_amount_in flow = size
        | QuoteToBase \<Rightarrow> mul_amount_floor price size = Ok (fo_amount_in flow)))"

lemma base_size_limits:
  "1 \<le> unat (1 + v mod max m (1 :: u64))" "unat (1 + v mod max m (1 :: u64)) \<le> max (unat m) 1"
proof -
  define k where "k = max m 1"
  have "1 \<le> k" by (simp add: k_def)
  then have "0 < unat k" by (simp add: word_le_nat_alt)
  then have r: "unat v mod unat k < unat k" by simp
  then have "unat (1 + v mod k) = 1 + unat v mod unat k"
    using u64_bound[of k] by (subst unat_add_fits) (simp_all add: unat_mod)
  then have "1 \<le> unat (1 + v mod k)" "unat (1 + v mod k) \<le> unat k"
    using r by linarith+
  moreover have "unat k = max (unat m) 1" by (simp add: k_def max_def word_le_nat_alt)
  ultimately show "1 \<le> unat (1 + v mod max m 1)" "unat (1 + v mod max m 1) \<le> max (unat m) 1"
    by (simp_all only: k_def[symmetric])
qed

lemma generate_flow_limits:
  assumes "generate_flow price prob m rng = Ok (Some flow, rng')"
  shows "flow_in_limits m (from_int price) flow"
  using assms
  by (auto simp: generate_flow_def flow_in_limits_def Let_def map_ok_eq split: prod.splits if_splits
      simp flip: One_nat_def intro: base_size_limits intro!: exI[where x = "1 + _ mod max m 1"] conjI)

lemma generate_slots_limits:
  assumes "generate_slots drift vol prob m slots price rng = Ok path"
  shows "map ms_slot path = map of_nat slots
    \<and> list_all (\<lambda>s. (\<exists>p. ms_fair_price s = from_int p \<and> 1 \<le> unat p)
       \<and> (case ms_flow s of None \<Rightarrow> True | Some flow \<Rightarrow> flow_in_limits m (ms_fair_price s) flow)) path"
  using assms
proof (induction slots arbitrary: price rng path)
  case (Cons slot slots)
  obtain p rng1 where u: "update_integer_price price drift vol rng = (p, rng1)" by fastforce
  with Cons.prems obtain flow rng2 rest where f: "generate_flow p prob m rng1 = Ok (flow, rng2)"
    and r: "generate_slots drift vol prob m slots p rng2 = Ok rest"
    and path: "path = \<lparr>ms_slot = of_nat slot, ms_fair_price = from_int p, ms_flow = flow\<rparr> # rest"
    by (auto simp: and_then_eq_Ok map_ok_eq)
  show ?case
    using Cons.IH[OF r] update_integer_price_bounds(1)[OF u] generate_flow_limits[of p prob m rng1 _ rng2] f
    by (auto simp: path split: option.splits)
qed auto

section \<open>Simulations over all paths\<close>

text \<open>
  The paths run in order and the first error ends the simulation; \<^const>\<open>None\<close> is a path that
  does not return.
\<close>

fun collect_paths :: "('i \<Rightarrow> (math_error + 'r) option) \<Rightarrow> 'i list \<Rightarrow> (math_error + 'r list) option" where
  "collect_paths run [] = Some (Ok [])"
| "collect_paths run (i # is) =
    (case run i of
       None \<Rightarrow> None
     | Some r \<Rightarrow>
        (case r of
           Err e \<Rightarrow> Some (Err e)
         | Ok report \<Rightarrow> map_option (map_ok (Cons report)) (collect_paths run is)))"

definition path_indices :: "scenario_assumptions \<Rightarrow> u32 list" where
  "path_indices assumptions = map of_nat [0..<unat (max (sc_path_count assumptions) 1)]"

text \<open>A run with its aggregate: \<^const>\<open>None\<close> also when a fill rate overflows.\<close>

definition aggregate_with :: "('r list \<Rightarrow> 'a option) \<Rightarrow> (math_error + 'r list) option \<Rightarrow> (math_error + 'a) option" where
  "aggregate_with aggregate result =
    (case result of
       None \<Rightarrow> None
     | Some r \<Rightarrow> (case r of Err e \<Rightarrow> Some (Err e) | Ok reports \<Rightarrow> map_option Ok (aggregate reports)))"

definition simulate_generated_cpmm :: "generated_cpmm_scenario \<Rightarrow> (math_error + aggregate_report) option" where
  "simulate_generated_cpmm scenario =
    aggregate_with (aggregate_reports (gc_assumptions scenario))
      (collect_paths (\<lambda>path_index. Some (and_then (generate_flow_path scenario path_index)
          (simulate_cpmm \<lparr>cs_assumptions = gc_assumptions scenario,
             cs_initial_reserves = gc_initial_reserves scenario, cs_fee_bps = gc_fee_bps scenario\<rparr>)))
        (path_indices (gc_assumptions scenario)))"

definition path_scenario :: "generated_reference_scenario \<Rightarrow> reference_quote_scenario" where
  "path_scenario scenario =
    \<lparr>rs_assumptions = gr_assumptions scenario,
     rs_initial_base_inventory = gr_initial_base_inventory scenario,
     rs_initial_quote_inventory = gr_initial_quote_inventory scenario,
     rs_target_base_inventory = gr_target_base_inventory scenario,
     rs_initial_mid_price = gr_initial_fair_price scenario,
     rs_quote_update_policy = gr_quote_update_policy scenario,
     rs_params = gr_params scenario\<rparr>"

definition simulate_generated_path ::
    "generated_reference_scenario \<Rightarrow> u32 \<Rightarrow> (math_error + reference_quote_report) option" where
  "simulate_generated_path scenario path_index =
    (case generate_reference_market_path scenario path_index of
       Err e \<Rightarrow> Some (Err e)
     | Ok slots \<Rightarrow> simulate_reference_quote_market_path (path_scenario scenario) slots)"

definition simulate_generated_reference_quote ::
    "generated_reference_scenario \<Rightarrow> (math_error + reference_aggregate_report) option" where
  "simulate_generated_reference_quote scenario =
    aggregate_with (aggregate_reference_reports (gr_assumptions scenario))
      (collect_paths (simulate_generated_path scenario) (path_indices (gr_assumptions scenario)))"

definition simulate_reference_quote_scenario_pack ::
    "generated_reference_scenario list \<Rightarrow> (math_error + reference_aggregate_report list) option" where
  "simulate_reference_quote_scenario_pack scenarios =
    collect_paths simulate_generated_reference_quote scenarios"

text \<open>The seeds of the default pack are ASCII words mixed into the seed of the caller.\<close>

definition default_params :: reference_quote_params where
  "default_params =
    \<lparr>fee_bps = 30, base_half_spread_bps = 10, aging_start_slots = 5, protected_start_slots = 10,
     expire_slots = 15, aging_surcharge_bps_per_slot = 2, max_aging_surcharge_bps = 20,
     max_trade_base_atoms = 10000, protected_max_trade_base_atoms = 500,
     inventory_skew_bps_per_10k_imbalance = 1000, max_inventory_skew_bps = 500,
     hard_inventory_band_bps = 3000\<rparr>"

definition default_calm :: "u128 \<Rightarrow> generated_reference_scenario" where
  "default_calm seed =
    \<lparr>gr_assumptions = \<lparr>sc_name = ''calm-fast-updates'',
       sc_flow_model = ''seeded random walk fair price with Bernoulli flow'',
       sc_landing_model = ''fast deterministic maker updates'', sc_path_count = 64\<rparr>,
     gr_seed = seed, gr_slots_per_path = 1000, gr_initial_base_inventory = 1000000,
     gr_initial_quote_inventory = 30000000000, gr_target_base_inventory = 1000000,
     gr_initial_fair_price = from_int 30000,
     gr_quote_update_policy = \<lparr>qp_maker_update_period_slots = 4, qp_landing_latency_slots = 1,
       qp_update_success_probability_bps = 9900, qp_failure_seed = seed XOR 0x616c6d5f66617374,
       qp_same_slot_order = SwapBeforeUpdate\<rparr>,
     gr_params = default_params, gr_volatility_bps_per_slot = 3, gr_drift_bps_per_slot = 0,
     gr_trade_probability_bps = 1500, gr_max_trade_base_atoms = 1000\<rparr>"

definition default_trending :: "u128 \<Rightarrow> generated_reference_scenario" where
  "default_trending seed = (default_calm seed)
    \<lparr>gr_assumptions := \<lparr>sc_name = ''trending-slow-updates'',
       sc_flow_model = ''positive drift fair price with Bernoulli flow'',
       sc_landing_model = ''slow maker updates with same-slot swap precedence'', sc_path_count = 64\<rparr>,
     gr_seed := seed XOR 0x7472656e64696e67,
     gr_quote_update_policy := \<lparr>qp_maker_update_period_slots = 9, qp_landing_latency_slots = 4,
       qp_update_success_probability_bps = 8500, qp_failure_seed = seed XOR 0x7472656e645f6c616e64,
       qp_same_slot_order = SwapBeforeUpdate\<rparr>,
     gr_volatility_bps_per_slot := 7, gr_drift_bps_per_slot := 2, gr_trade_probability_bps := 2000\<rparr>"

definition default_volatile :: "u128 \<Rightarrow> generated_reference_scenario" where
  "default_volatile seed = (default_calm seed)
    \<lparr>gr_assumptions := \<lparr>sc_name = ''volatile-dropped-updates'',
       sc_flow_model = ''high-volatility random walk with Bernoulli flow'',
       sc_landing_model = ''dropped quote updates and long landing latency'', sc_path_count = 64\<rparr>,
     gr_seed := seed XOR 0x766f6c6174696c65,
     gr_quote_update_policy := \<lparr>qp_maker_update_period_slots = 8, qp_landing_latency_slots = 6,
       qp_update_success_probability_bps = 6500, qp_failure_seed = seed XOR 0x766f6c5f64726f70,
       qp_same_slot_order = SwapBeforeUpdate\<rparr>,
     gr_volatility_bps_per_slot := 18, gr_trade_probability_bps := 2500, gr_max_trade_base_atoms := 1500\<rparr>"

definition default_reference_quote_scenario_pack :: "u128 \<Rightarrow> generated_reference_scenario list" where
  "default_reference_quote_scenario_pack seed = [default_calm seed, default_trending seed, default_volatile seed]"

section \<open>Generated paths\<close>

lemma collect_paths_Ok:
  "collect_paths run is = Some (Ok reports) \<longleftrightarrow> list_all2 (\<lambda>i r. run i = Some (Ok r)) is reports"
proof (induction "is" arbitrary: reports)
  case (Cons i "is")
  then show ?case
    by (cases reports) (auto simp: map_ok_eq split: option.splits sum.splits)
qed auto

lemma collect_paths_returns:
  assumes "\<And>i. i \<in> set is \<Longrightarrow> run i \<noteq> None"
  shows "\<exists>res. collect_paths run is = Some res"
  using assms
proof (induction "is")
  case (Cons i "is")
  then obtain r where "run i = Some r" by (metis list.set_intros(1) option.exhaust)
  with Cons show ?case by (auto split: sum.splits)
qed simp

lemma path_indices_nonempty: "path_indices a \<noteq> []"
proof -
  have "1 \<le> max (sc_path_count a) 1" by simp
  then have "0 < unat (max (sc_path_count a) 1)" by (simp add: word_le_nat_alt)
  then show ?thesis by (simp add: path_indices_def)
qed

text \<open>Slots are numbered from zero, below the number of slots.\<close>

lemma generated_path_slots:
  assumes "generate_reference_market_path scenario i = Ok slots"
  shows "list_all (\<lambda>s. ms_slot s < gr_slots_per_path scenario) slots"
    and "length slots = unat (gr_slots_per_path scenario)"
proof -
  have m: "map ms_slot slots = map of_nat [0..<unat (gr_slots_per_path scenario)]"
    using assms generate_slots_limits by (auto simp: generate_reference_market_path_def)
  show "length slots = unat (gr_slots_per_path scenario)"
    using m by (metis length_map length_upt minus_nat.diff_0)
  have "unat (of_nat k :: u64) = k" if "k < unat (gr_slots_per_path scenario)" for k
    using that u64_bound[of "gr_slots_per_path scenario"] by (intro unat_of_nat_fits) simp
  then have "n < gr_slots_per_path scenario" if "n \<in> set (map ms_slot slots)" for n
    using that unfolding m by (auto simp: word_less_nat_alt)
  then show "list_all (\<lambda>s. ms_slot s < gr_slots_per_path scenario) slots"
    by (simp add: list_all_iff)
qed

lemma generated_path_returns: "\<exists>res. simulate_generated_path scenario i = Some res"
proof (cases "generate_reference_market_path scenario i")
  case (Inr slots)
  have "list_all (\<lambda>s. ms_slot s < - 1) slots"
    using generated_path_slots(1)[OF Inr] by (auto simp: list_all_iff intro: less_le_trans)
  then have "\<exists>res. simulate_reference_quote_market_path (path_scenario scenario) slots = Some res"
    by (rule path_returns)
  with Inr show ?thesis by (simp add: simulate_generated_path_def)
qed (simp add: simulate_generated_path_def)


lemma simulate_path_accounts:
  assumes "simulate_generated_path scenario i = Some (Ok r)"
  shows "unat (rr_trades_filled r) \<le> unat (gr_slots_per_path scenario)"
    and "unat (rr_trades_attempted r) \<le> unat (gr_slots_per_path scenario)"
proof -
  from assms obtain slots where g: "generate_reference_market_path scenario i = Ok slots"
    and run: "simulate_reference_quote_market_path (path_scenario scenario) slots = Some (Ok r)"
    by (auto simp: simulate_generated_path_def split: sum.splits)
  have len: "length slots = unat (gr_slots_per_path scenario)" by (rule generated_path_slots(2)[OF g])
  have "report_accounts r slots"
    using path_accounts[OF run] len u64_bound[of "gr_slots_per_path scenario"] by simp
  then show "unat (rr_trades_filled r) \<le> unat (gr_slots_per_path scenario)"
    and "unat (rr_trades_attempted r) \<le> unat (gr_slots_per_path scenario)"
    using length_filter_le[of "\<lambda>s. ms_flow s \<noteq> None" slots] by (simp_all add: report_accounts_def len)
qed

lemma fill_rate_defined: "unat filled * 10000 < 2 ^ 64 \<Longrightarrow> fill_rate_bps filled attempted \<noteq> None"
  by (simp add: fill_rate_bps_def checked_mul_def)

lemma those_eq_None: "those xs = None \<longleftrightarrow> None \<in> set xs"
  by (induction xs) (auto split: option.splits)

text \<open>
  C21: a generated reference-quote simulation, over all its paths, returns with a report or an
  error, whatever the scenario, as long as the fill rate of a path of that many slots fits its
  integer.
\<close>

theorem generated_simulation_returns:
  assumes "unat (gr_slots_per_path scenario) * 10000 < 2 ^ 64"
  shows "\<exists>res. simulate_generated_reference_quote scenario = Some res"
proof -
  from collect_paths_returns[of "path_indices (gr_assumptions scenario)" "simulate_generated_path scenario"]
    generated_path_returns[of scenario]
  obtain res where res: "collect_paths (simulate_generated_path scenario) (path_indices (gr_assumptions scenario)) = Some res"
    by auto
  show ?thesis
  proof (cases res)
    case (Inl e)
    with res show ?thesis by (simp add: simulate_generated_reference_quote_def aggregate_with_def)
  next
    case (Inr reports)
    with res have all: "list_all2 (\<lambda>i r. simulate_generated_path scenario i = Some (Ok r))
        (path_indices (gr_assumptions scenario)) reports" by (simp add: collect_paths_Ok)
    have "reference_fill_rate_bps r \<noteq> None" if "r \<in> set reports" for r
    proof -
      from all that obtain i where "simulate_generated_path scenario i = Some (Ok r)"
        by (auto simp: list_all2_conv_all_nth in_set_conv_nth)
      from simulate_path_accounts(1)[OF this] assms have "unat (rr_trades_filled r) * 10000 < 2 ^ 64"
        by linarith
      then show ?thesis by (simp only: reference_fill_rate_bps_def fill_rate_defined not_False_eq_True)
    qed
    then have "those (map reference_fill_rate_bps reports) \<noteq> None"
      unfolding those_eq_None set_map by (metis imageE)
    with res Inr show ?thesis
      by (auto simp: simulate_generated_reference_quote_def aggregate_with_def aggregate_reference_reports_def)
  qed
qed

text \<open>
  C22: a maker whose policy stays within the update envelope of a compiled configuration, and
  whose updates always land, never has a trade refused as stale on any generated path, and its
  quote is never older than one update period plus the landing latency; the stale gate of the
  evaluation then never fires.
\<close>

theorem punctual_maker_never_stale:
  assumes sim: "simulate_generated_reference_quote scenario = Some (Ok report)"
    and "qp_update_success_probability_bps (gr_quote_update_policy scenario) = 10000"
    and "compile_reference_quote_config input = Ok config" "gr_params scenario = cc_params config"
    and "qp_maker_update_period_slots (gr_quote_update_policy scenario)
          \<le> max_maker_update_period_slots (cc_quote_update_envelope config)"
    and "qp_landing_latency_slots (gr_quote_update_policy scenario)
          \<le> max_landing_latency_slots (cc_quote_update_envelope config)"
    and fits: "unat (gr_slots_per_path scenario) + unat (expire_slots (gr_params scenario)) < 2 ^ 64"
  shows "sm_max (ra_rejected_stale report) = 0 \<and> stale_rate report = 0
    \<and> unat (sm_max (ra_max_quote_age_slots report))
        \<le> unat (qp_maker_update_period_slots (gr_quote_update_policy scenario))
          + unat (qp_landing_latency_slots (gr_quote_update_policy scenario))"
proof -
  from sim obtain reports where
    runs: "collect_paths (simulate_generated_path scenario) (path_indices (gr_assumptions scenario)) = Some (Ok reports)"
    and agg: "aggregate_reference_reports (gr_assumptions scenario) reports = Some report"
    by (auto simp: simulate_generated_reference_quote_def aggregate_with_def split: option.splits sum.splits)
  from runs have all: "list_all2 (\<lambda>i r. simulate_generated_path scenario i = Some (Ok r))
      (path_indices (gr_assumptions scenario)) reports" by (simp add: collect_paths_Ok)
  then have ne: "reports \<noteq> []" using path_indices_nonempty by auto
  have path: "rr_rejected_stale r = 0 \<and> unat (rr_max_quote_age_slots r)
        \<le> unat (qp_maker_update_period_slots (gr_quote_update_policy scenario))
          + unat (qp_landing_latency_slots (gr_quote_update_policy scenario))" if "r \<in> set reports" for r
  proof -
    from all that obtain i where "simulate_generated_path scenario i = Some (Ok r)"
      by (auto simp: list_all2_conv_all_nth in_set_conv_nth)
    then obtain slots where g: "generate_reference_market_path scenario i = Ok slots"
      and run: "simulate_reference_quote_market_path (path_scenario scenario) slots = Some (Ok r)"
      by (auto simp: simulate_generated_path_def split: sum.splits)
    have "list_all (\<lambda>s. unat (ms_slot s) + unat (expire_slots (rs_params (path_scenario scenario))) < 2 ^ 64) slots"
      using generated_path_slots(1)[OF g] fits
      by (auto simp: list_all_iff path_scenario_def word_less_nat_alt)
    from punctual_path_never_stale[OF run _ assms(3) _ _ _ this] assms(2,4-6) show ?thesis
      by (simp add: path_scenario_def)
  qed
  have stale: "ra_rejected_stale report = summarize_u64 (map rr_rejected_stale reports)"
    and age: "ra_max_quote_age_slots report = summarize_u64 (map rr_max_quote_age_slots reports)"
    using agg by (auto simp: aggregate_reference_reports_def)
  have p: "sm_max (summary_around (map f reports) m) \<in> f ` set reports"
    "sm_p95 (summary_around (map f reports) m) \<in> f ` set reports" for f :: "_ \<Rightarrow> u64" and m
    using summary_around_percentiles(4,5)[of "map f reports", OF _ refl] ne by simp_all
  have "sm_max (ra_rejected_stale report) \<in> rr_rejected_stale ` set reports"
    "sm_p95 (ra_rejected_stale report) \<in> rr_rejected_stale ` set reports"
    unfolding stale summarize_u64_def by (rule p)+
  then have "sm_max (ra_rejected_stale report) = 0" "sm_p95 (ra_rejected_stale report) = 0"
    using path by auto
  moreover have "sm_max (ra_max_quote_age_slots report) \<in> rr_max_quote_age_slots ` set reports"
    unfolding age summarize_u64_def by (rule p)
  then have "unat (sm_max (ra_max_quote_age_slots report))
      \<le> unat (qp_maker_update_period_slots (gr_quote_update_policy scenario))
        + unat (qp_landing_latency_slots (gr_quote_update_policy scenario))"
    using path by auto
  ultimately show ?thesis by (simp add: stale_rate_def rate_bps_def saturating_mul_def)
qed

section \<open>A concrete scenario\<close>

definition gen_scenario :: generated_reference_scenario where
  "gen_scenario =
    \<lparr>gr_assumptions = sim_assumptions, gr_seed = 7, gr_slots_per_path = 6,
     gr_initial_base_inventory = 1000000000, gr_initial_quote_inventory = 1000000000,
     gr_target_base_inventory = 1000000000, gr_initial_fair_price = ONE,
     gr_quote_update_policy = \<lparr>qp_maker_update_period_slots = 2, qp_landing_latency_slots = 1,
       qp_update_success_probability_bps = 10000, qp_failure_seed = 7,
       qp_same_slot_order = SwapBeforeUpdate\<rparr>,
     gr_params = example_params, gr_volatility_bps_per_slot = 0, gr_drift_bps_per_slot = 0,
     gr_trade_probability_bps = 0, gr_max_trade_base_atoms = 1000000\<rparr>"

definition quiet_slot :: "nat \<Rightarrow> market_slot" where
  "quiet_slot n = \<lparr>ms_slot = of_nat n, ms_fair_price = ONE, ms_flow = None\<rparr>"

lemma quiet_slots: "generate_slots 0 0 0 m slots 1 rng = Ok (map quiet_slot slots)"
proof (induction slots arbitrary: rng)
  case (Cons slot slots)
  have price: "update_integer_price 1 0 0 rng = (1, rng)" by (simp add: update_integer_price_def)
  obtain draw rng' where "rng_next_bps rng = (draw, rng')" by fastforce
  then have "generate_flow 1 0 m rng = Ok (None, rng')" by (simp add: generate_flow_def)
  with Cons show ?case
    by (simp add: price quiet_slot_def ONE_def from_int_def Q64_def)
qed simp

lemma gen_path: "generate_reference_market_path gen_scenario i = Ok (map quiet_slot [0, 1, 2, 3, 4, 5])"
proof -
  have "[0..<unat (gr_slots_per_path gen_scenario)] = [0, 1, 2, 3, 4, 5]" by (simp add: gen_scenario_def upt_rec)
  moreover have "max (to_int_floor (gr_initial_fair_price gen_scenario)) 1 = 1" by code_simp
  moreover have "gr_drift_bps_per_slot gen_scenario = 0" "gr_volatility_bps_per_slot gen_scenario = 0"
    "gr_trade_probability_bps gen_scenario = 0" by (simp_all add: gen_scenario_def)
  ultimately show ?thesis by (simp only: generate_reference_market_path_def quiet_slots)
qed

lemma gen_path_outcome:
  "outcome_is (\<lambda>r. rr_trades_attempted r = 0 \<and> rr_quote_updates_sent r = 2)
    (simulate_reference_quote_market_path (path_scenario gen_scenario) (map quiet_slot [0, 1, 2, 3, 4, 5]))"
  by code_simp

lemma gen_simulation: "\<exists>report. simulate_generated_reference_quote gen_scenario = Some (Ok report)"
proof -
  obtain r where run: "simulate_generated_path gen_scenario i = Some (Ok r)" and none: "rr_trades_attempted r = 0" for i
    using outcome_isD[OF gen_path_outcome] by (auto simp: simulate_generated_path_def gen_path)
  have "path_indices (gr_assumptions gen_scenario) = [0]"
    by (simp add: path_indices_def gen_scenario_def sim_assumptions_def)
  then have "collect_paths (simulate_generated_path gen_scenario) (path_indices (gr_assumptions gen_scenario)) = Some (Ok [r])"
    by (simp add: run)
  then show ?thesis
    by (simp add: simulate_generated_reference_quote_def aggregate_with_def aggregate_reference_reports_def
        reference_fill_rate_bps_def fill_rate_bps_def none)
qed

theorem generated_simulation_returns_witness:
  "\<exists>res. simulate_generated_reference_quote gen_scenario = Some res"
  by (rule generated_simulation_returns) (simp add: gen_scenario_def)

theorem punctual_maker_never_stale_witness:
  "\<exists>report. simulate_generated_reference_quote gen_scenario = Some (Ok report)
     \<and> unat (sm_max (ra_max_quote_age_slots report)) \<le> 3 \<and> sm_max (ra_rejected_stale report) = 0"
proof -
  from gen_simulation obtain report where
    run: "simulate_generated_reference_quote gen_scenario = Some (Ok report)" by blast
  have c: "compile_reference_quote_config example_input = Ok (compiled_from example_input)"
    using compile_Ok example_input_ok by blast
  from punctual_maker_never_stale[OF run _ c]
  have "unat (sm_max (ra_max_quote_age_slots report)) \<le> 3 \<and> sm_max (ra_rejected_stale report) = 0"
    by (simp add: gen_scenario_def compiled_from_def example_input_def example_envelope_def example_params_def)
  with run show ?thesis by blast
qed

end
