(* ===== verification/Calibration.thy ===== *)
theory Calibration imports Sim_Generate "HOL-Library.List_Lexorder" "HOL-Library.Char_ord" begin
text \<open>
  The calibration of \<open>crates/meta_amm_sim/src/calibration.rs\<close>: candidate scenario packs are
  simulated, evaluated, scored and ranked.  Shown here: the strategy of a candidate covers all
  its scenarios, and the ranking is a sorted permutation of the candidates.
\<close>

section \<open>Candidates\<close>

record calibration_candidate =
  ca_name :: string
  ca_scenarios :: "generated_reference_scenario list"

record calibration_score =
  sk_mean_p05_fill_rate_bps :: u16
  sk_mean_fill_rate_bps :: u16
  sk_mean_update_drop_rate_bps :: u16
  sk_rough_maker_score_quote_atoms :: int

record candidate_report =
  cr_candidate_name :: string
  cr_strategy_config :: strategy_config
  cr_score :: calibration_score
  cr_scenario_pack :: "reference_aggregate_report list"
  cr_evaluation :: "scenario_evaluation list"

definition map_params ::
    "(reference_quote_params \<Rightarrow> reference_quote_params) \<Rightarrow> generated_reference_scenario list \<Rightarrow> generated_reference_scenario list" where
  "map_params f scenarios = map (\<lambda>s. s\<lparr>gr_params := f (gr_params s)\<rparr>) scenarios"

definition map_policy ::
    "(quote_update_policy \<Rightarrow> quote_update_policy) \<Rightarrow> generated_reference_scenario list \<Rightarrow> generated_reference_scenario list" where
  "map_policy f scenarios = map (\<lambda>s. s\<lparr>gr_quote_update_policy := f (gr_quote_update_policy s)\<rparr>) scenarios"

definition faster_policy :: "quote_update_policy \<Rightarrow> quote_update_policy" where
  "faster_policy policy = policy
    \<lparr>qp_maker_update_period_slots := max (qp_maker_update_period_slots policy div 2) 2,
     qp_landing_latency_slots := max (qp_landing_latency_slots policy div 2) 1,
     qp_update_success_probability_bps := min (saturating_add (qp_update_success_probability_bps policy) 900) 9950\<rparr>"

definition default_reference_quote_calibration_candidates :: "u128 \<Rightarrow> calibration_candidate list" where
  "default_reference_quote_calibration_candidates seed =
    (let baseline = default_reference_quote_scenario_pack seed
     in [\<lparr>ca_name = ''baseline'', ca_scenarios = baseline\<rparr>,
         \<lparr>ca_name = ''wider-spread'', ca_scenarios = map_params (\<lambda>params. params
            \<lparr>base_half_spread_bps := 20, aging_surcharge_bps_per_slot := 4, max_aging_surcharge_bps := 40,
             protected_max_trade_base_atoms := 400\<rparr>) baseline\<rparr>,
         \<lparr>ca_name = ''faster-updates'', ca_scenarios = map_policy faster_policy baseline\<rparr>,
         \<lparr>ca_name = ''wide-and-fast'', ca_scenarios = map_policy faster_policy (map_params (\<lambda>params. params
            \<lparr>base_half_spread_bps := 18, aging_surcharge_bps_per_slot := 4, max_aging_surcharge_bps := 40,
             protected_max_trade_base_atoms := 400\<rparr>) baseline)\<rparr>,
         \<lparr>ca_name = ''tight-freshness'', ca_scenarios = map_policy faster_policy (map_params (\<lambda>params. params
            \<lparr>aging_start_slots := 3, protected_start_slots := 7, expire_slots := 11,
             aging_surcharge_bps_per_slot := 5, max_aging_surcharge_bps := 50,
             protected_max_trade_base_atoms := 300\<rparr>) baseline)\<rparr>])"

section \<open>The strategy of a candidate\<close>

definition widen :: "quote_update_envelope \<Rightarrow> quote_update_policy \<Rightarrow> quote_update_envelope" where
  "widen envelope policy = envelope
    \<lparr>max_maker_update_period_slots := max (max_maker_update_period_slots envelope) (qp_maker_update_period_slots policy),
     max_landing_latency_slots := max (max_landing_latency_slots envelope) (qp_landing_latency_slots policy),
     min_update_success_probability_bps :=
       min (min_update_success_probability_bps envelope) (qp_update_success_probability_bps policy)\<rparr>"

fun widen_envelope ::
    "reference_quote_params \<Rightarrow> generated_reference_scenario list \<Rightarrow> quote_update_envelope
      \<Rightarrow> math_error + quote_update_envelope" where
  "widen_envelope params [] envelope = Ok envelope"
| "widen_envelope params (scenario # scenarios) envelope =
    (if gr_params scenario \<noteq> params
        \<or> qp_same_slot_order (gr_quote_update_policy scenario) \<noteq> same_slot_order envelope
     then Err InvalidConfig
     else widen_envelope params scenarios (widen envelope (gr_quote_update_policy scenario)))"

definition strategy_config_from_scenarios :: "generated_reference_scenario list \<Rightarrow> math_error + strategy_config" where
  "strategy_config_from_scenarios scenarios =
    map_ok (\<lambda>envelope. \<lparr>st_params = gr_params (hd scenarios), st_quote_update_envelope = envelope\<rparr>)
      (widen_envelope (gr_params (hd scenarios)) scenarios
        \<lparr>max_maker_update_period_slots = 0, max_landing_latency_slots = 0,
         min_update_success_probability_bps = - 1,
         same_slot_order = qp_same_slot_order (gr_quote_update_policy (hd scenarios))\<rparr>)"

text \<open>The envelope covers a scenario, and the widening only widens.\<close>

definition envelope_covers :: "quote_update_envelope \<Rightarrow> quote_update_policy \<Rightarrow> bool" where
  "envelope_covers e p \<longleftrightarrow> qp_same_slot_order p = same_slot_order e
     \<and> qp_maker_update_period_slots p \<le> max_maker_update_period_slots e
     \<and> qp_landing_latency_slots p \<le> max_landing_latency_slots e
     \<and> min_update_success_probability_bps e \<le> qp_update_success_probability_bps p"

definition envelope_le :: "quote_update_envelope \<Rightarrow> quote_update_envelope \<Rightarrow> bool" where
  "envelope_le e e' \<longleftrightarrow> same_slot_order e = same_slot_order e'
     \<and> max_maker_update_period_slots e \<le> max_maker_update_period_slots e'
     \<and> max_landing_latency_slots e \<le> max_landing_latency_slots e'
     \<and> min_update_success_probability_bps e' \<le> min_update_success_probability_bps e"

lemma widen_covers:
  assumes "qp_same_slot_order p = same_slot_order e" "envelope_le (widen e p) e'"
  shows "envelope_le e e'" "envelope_covers e' p"
  using assms by (simp_all add: envelope_le_def envelope_covers_def widen_def)

lemma widen_envelope_covers:
  "widen_envelope params scenarios e = Ok e' \<Longrightarrow> envelope_le e e'
    \<and> list_all (\<lambda>s. gr_params s = params \<and> envelope_covers e' (gr_quote_update_policy s)) scenarios"
proof (induction params scenarios e rule: widen_envelope.induct)
  case (2 params scenario scenarios e)
  from "2.prems" have ok: "gr_params scenario = params"
      "qp_same_slot_order (gr_quote_update_policy scenario) = same_slot_order e"
    and rec: "widen_envelope params scenarios (widen e (gr_quote_update_policy scenario)) = Ok e'"
    by (simp_all split: if_splits)
  with "2.IH"[OF _ rec] widen_covers[OF ok(2), of e'] show ?case by simp
qed (simp add: envelope_le_def)

text \<open>
  The strategy taken from the scenarios of a candidate has their common parameters and
  update order, and an update envelope that every one of their maker policies keeps within.
\<close>

lemma strategy_covers_scenarios:
  assumes "strategy_config_from_scenarios scenarios = Ok strategy" and "s \<in> set scenarios"
  shows "gr_params s = st_params strategy
    \<and> envelope_covers (st_quote_update_envelope strategy) (gr_quote_update_policy s)"
proof -
  from assms(1) obtain e where w: "widen_envelope (gr_params (hd scenarios)) scenarios
        \<lparr>max_maker_update_period_slots = 0, max_landing_latency_slots = 0,
         min_update_success_probability_bps = - 1,
         same_slot_order = qp_same_slot_order (gr_quote_update_policy (hd scenarios))\<rparr> = Ok e"
    and "strategy = \<lparr>st_params = gr_params (hd scenarios), st_quote_update_envelope = e\<rparr>"
    by (auto simp: strategy_config_from_scenarios_def map_ok_eq)
  with widen_envelope_covers[OF w] assms(2) show ?thesis by (simp add: list_all_iff)
qed

section \<open>Scores and ranking\<close>

definition avg_u16 :: "u16 list \<Rightarrow> u128 \<Rightarrow> u16" where
  "avg_u16 values n = ucast (foldl (\<lambda>sum v. sum + (ucast v :: u128)) 0 values div n)"

text \<open>The sum of \<open>i128\<close> values panics on overflow: \<^const>\<open>None\<close>.\<close>

fun sum_i128 :: "int \<Rightarrow> int list \<Rightarrow> int option" where
  "sum_i128 acc [] = Some acc"
| "sum_i128 acc (v # vs) =
    (if i128_min \<le> acc + v \<and> acc + v \<le> i128_max then sum_i128 (acc + v) vs else None)"

text \<open>The mean fees are cast from \<open>u128\<close> to \<open>i128\<close>, which reinterprets the top bit.\<close>

definition score_candidate :: "reference_aggregate_report list \<Rightarrow> calibration_score option" where
  "score_candidate reports =
    (let n = max (length reports) 1
     in map_option (\<lambda>total.
          \<lparr>sk_mean_p05_fill_rate_bps = avg_u16 (map (\<lambda>r. sm_p05 (ra_fill_rate_bps r)) reports) (of_nat n),
           sk_mean_fill_rate_bps = avg_u16 (map (\<lambda>r. sm_mean (ra_fill_rate_bps r)) reports) (of_nat n),
           sk_mean_update_drop_rate_bps = avg_u16 (map (\<lambda>r.
             rate_bps (sm_mean (ra_quote_updates_dropped r)) (sm_mean (ra_quote_updates_sent r))) reports) (of_nat n),
           sk_rough_maker_score_quote_atoms = total sdiv int n\<rparr>)
        (sum_i128 0 (map (\<lambda>r. saturate_i128 (sint (sm_mean (ra_fees_quote_atoms r))
           - sm_mean (ra_taker_edge_quote_atoms r))) reports)))"

datatype ordering = Less | Equal | Greater

definition cmp :: "'a::linorder \<Rightarrow> 'a \<Rightarrow> ordering" where
  "cmp a b = (if a < b then Less else if a = b then Equal else Greater)"

definition then_with :: "ordering \<Rightarrow> ordering \<Rightarrow> ordering" where
  "then_with o1 o2 = (case o1 of Equal \<Rightarrow> o2 | _ \<Rightarrow> o1)"

definition compare_candidates :: "candidate_report \<Rightarrow> candidate_report \<Rightarrow> ordering" where
  "compare_candidates left right =
    then_with (cmp (pack_severity (cr_evaluation left)) (pack_severity (cr_evaluation right)))
    (then_with (cmp (sk_mean_p05_fill_rate_bps (cr_score right)) (sk_mean_p05_fill_rate_bps (cr_score left)))
    (then_with (cmp (sk_rough_maker_score_quote_atoms (cr_score right)) (sk_rough_maker_score_quote_atoms (cr_score left)))
    (cmp (cr_candidate_name left) (cr_candidate_name right))))"

text \<open>\<open>sort_by\<close> is a stable sort by the comparator.\<close>

fun insert_by :: "('a \<Rightarrow> 'a \<Rightarrow> ordering) \<Rightarrow> 'a \<Rightarrow> 'a list \<Rightarrow> 'a list" where
  "insert_by compare x [] = [x]"
| "insert_by compare x (y # ys) =
    (if compare x y = Greater then y # insert_by compare x ys else x # y # ys)"

definition sort_by :: "('a \<Rightarrow> 'a \<Rightarrow> ordering) \<Rightarrow> 'a list \<Rightarrow> 'a list" where
  "sort_by compare xs = foldr (insert_by compare) xs []"

definition report_candidate ::
    "gate_thresholds \<Rightarrow> calibration_candidate \<Rightarrow> (math_error + candidate_report) option" where
  "report_candidate thresholds candidate =
    (case simulate_reference_quote_scenario_pack (ca_scenarios candidate) of
       None \<Rightarrow> None
     | Some pack \<Rightarrow>
        (case pack of
           Err e \<Rightarrow> Some (Err e)
         | Ok reports \<Rightarrow>
            Option.bind (score_candidate reports) (\<lambda>score.
            Some (map_ok (\<lambda>strategy.
              \<lparr>cr_candidate_name = ca_name candidate, cr_strategy_config = strategy, cr_score = score,
               cr_scenario_pack = reports, cr_evaluation = evaluate_scenario_pack reports thresholds\<rparr>)
              (strategy_config_from_scenarios (ca_scenarios candidate))))))"

definition calibrate_reference_quote ::
    "u128 \<Rightarrow> gate_thresholds \<Rightarrow> (math_error + candidate_report list) option" where
  "calibrate_reference_quote seed thresholds =
    map_option (map_ok (sort_by compare_candidates))
      (collect_paths (report_candidate thresholds) (default_reference_quote_calibration_candidates seed))"

definition best_candidate :: "candidate_report list \<Rightarrow> candidate_report option" where
  "best_candidate reports = (case reports of [] \<Rightarrow> None | report # _ \<Rightarrow> Some report)"

text \<open>The comparator is the lexicographic order on a key, so sorting by it is well defined.\<close>

definition ranks_before :: "candidate_report \<Rightarrow> candidate_report \<Rightarrow> bool" where
  "ranks_before l r \<longleftrightarrow> compare_candidates l r \<noteq> Greater"

lemma then_with_cmp_Greater:
  "then_with (cmp a b) o2 = Greater \<longleftrightarrow> b < a \<or> a = b \<and> o2 = Greater"
  by (auto simp: then_with_def cmp_def not_less order.strict_iff_order)

lemma cmp_Greater: "cmp a b = Greater \<longleftrightarrow> b < a"
  by (auto simp: cmp_def not_less order.strict_iff_order)

lemma not_lex: "\<not> (b < a \<or> a = b \<and> P) \<longleftrightarrow> a < b \<or> a = b \<and> \<not> P" for a b :: "'a::linorder"
  by (cases a b rule: linorder_cases) auto

lemma ranks_before_iff:
  "ranks_before l r \<longleftrightarrow>
    (let sl = pack_severity (cr_evaluation l); sr = pack_severity (cr_evaluation r);
         fl = sk_mean_p05_fill_rate_bps (cr_score l); fr = sk_mean_p05_fill_rate_bps (cr_score r);
         ml = sk_rough_maker_score_quote_atoms (cr_score l); mr = sk_rough_maker_score_quote_atoms (cr_score r)
     in sl < sr \<or> sl = sr \<and> (fr < fl \<or> fr = fl \<and> (mr < ml \<or> mr = ml \<and> cr_candidate_name l \<le> cr_candidate_name r)))"
  unfolding ranks_before_def compare_candidates_def then_with_cmp_Greater cmp_Greater Let_def not_lex not_less ..

lemma lex_trans:
  "a < b \<or> a = b \<and> P \<Longrightarrow> b < c \<or> b = c \<and> Q \<Longrightarrow> (P \<Longrightarrow> Q \<Longrightarrow> R) \<Longrightarrow> a < c \<or> a = c \<and> R"
  for a b c :: "'a::linorder"
  by (auto intro: less_trans)

lemma lex_trans_rev:
  "b < a \<or> b = a \<and> P \<Longrightarrow> c < b \<or> c = b \<and> Q \<Longrightarrow> (P \<Longrightarrow> Q \<Longrightarrow> R) \<Longrightarrow> c < a \<or> c = a \<and> R"
  for a b c :: "'a::linorder"
  by (auto intro: less_trans)

lemma lex_total: "P \<or> Q \<Longrightarrow> (a < b \<or> a = b \<and> P) \<or> (b < a \<or> b = a \<and> Q)" for a b :: "'a::linorder"
  by (cases a b rule: linorder_cases) auto

lemma ranks_before_trans: "ranks_before a b \<Longrightarrow> ranks_before b c \<Longrightarrow> ranks_before a c"
  unfolding ranks_before_iff Let_def
  by (erule lex_trans, assumption) (erule lex_trans_rev, assumption, erule lex_trans_rev, assumption, erule order.trans)

lemma ranks_before_total: "ranks_before a b \<or> ranks_before b a"
  unfolding ranks_before_iff Let_def
  by (intro lex_total linear)

lemma insert_by_set: "set (insert_by c x ys) = insert x (set ys)" "mset (insert_by c x ys) = add_mset x (mset ys)"
  by (induction ys) auto

lemma insert_by_sorted:
  "sorted_wrt ranks_before ys \<Longrightarrow> sorted_wrt ranks_before (insert_by compare_candidates x ys)"
proof (induction ys)
  case (Cons y ys)
  show ?case
  proof (cases "compare_candidates x y = Greater")
    case True
    then have "ranks_before y x" using ranks_before_total[of x y] by (auto simp: ranks_before_def)
    with Cons True show ?thesis by (simp add: insert_by_set)
  next
    case False
    then have "ranks_before x y" by (simp add: ranks_before_def)
    with Cons.prems False show ?thesis by (auto dest: ranks_before_trans)
  qed
qed simp

lemma sort_by_sorted:
  "sorted_wrt ranks_before (sort_by compare_candidates xs) \<and> mset (sort_by compare_candidates xs) = mset xs"
  by (induction xs) (simp_all add: sort_by_def insert_by_sorted insert_by_set)

lemma sorted_head: "sorted_wrt ranks_before (b # rest) \<Longrightarrow> list_all (ranks_before b) (b # rest)"
  using ranks_before_total[of b b] by (simp add: list_all_iff)

text \<open>Candidates that tie on every key keep their order: the sort is stable.\<close>

definition same_rank :: "candidate_report \<Rightarrow> candidate_report \<Rightarrow> bool" where
  "same_rank l r \<longleftrightarrow> pack_severity (cr_evaluation l) = pack_severity (cr_evaluation r)
     \<and> sk_mean_p05_fill_rate_bps (cr_score l) = sk_mean_p05_fill_rate_bps (cr_score r)
     \<and> sk_rough_maker_score_quote_atoms (cr_score l) = sk_rough_maker_score_quote_atoms (cr_score r)
     \<and> cr_candidate_name l = cr_candidate_name r"

lemma same_rank_not_Greater: "same_rank k l \<Longrightarrow> same_rank k r \<Longrightarrow> compare_candidates l r \<noteq> Greater"
  by (simp add: same_rank_def compare_candidates_def then_with_def cmp_def)

lemma insert_by_stable:
  "filter (same_rank k) (insert_by compare_candidates x ys)
    = (if same_rank k x then x # filter (same_rank k) ys else filter (same_rank k) ys)"
  by (induction ys) (auto dest: same_rank_not_Greater)

lemma sort_by_stable: "filter (same_rank k) (sort_by compare_candidates rs) = filter (same_rank k) rs"
  by (induction rs) (simp_all add: sort_by_def insert_by_stable)

text \<open>
  C38: the ranking is a permutation of the candidates' reports in which a report stands before
  another only if its severity is lower, or at equal severity its mean 5th-percentile fill rate
  is higher, or at equal fill rate its rough maker score is higher, or at equal score its name is
  no later in the alphabet; reports that tie on all four keys keep their order; and the best
  candidate is the first of the ranking, none only when there are no candidates.
\<close>

theorem calibration_ranks_candidates:
  "sorted_wrt (\<lambda>l r.
      let severity = \<lambda>c. pack_severity (cr_evaluation c); fill_tail = \<lambda>c. sk_mean_p05_fill_rate_bps (cr_score c);
          maker_score = \<lambda>c. sk_rough_maker_score_quote_atoms (cr_score c)
      in severity l < severity r \<or> severity l = severity r \<and>
        (fill_tail r < fill_tail l \<or> fill_tail l = fill_tail r \<and>
          (maker_score r < maker_score l \<or> maker_score l = maker_score r \<and>
            cr_candidate_name l \<le> cr_candidate_name r)))
      (sort_by compare_candidates rs)
   \<and> mset (sort_by compare_candidates rs) = mset rs
   \<and> filter (same_rank k) (sort_by compare_candidates rs) = filter (same_rank k) rs
   \<and> (case best_candidate (sort_by compare_candidates rs) of
        None \<Rightarrow> rs = []
      | Some best \<Rightarrow> best \<in> set rs \<and> list_all (ranks_before best) rs)"
proof -
  note s = sort_by_sorted[of rs]
  have set_eq: "set (sort_by compare_candidates rs) = set rs" using s by (metis set_mset_mset)
  have "case best_candidate (sort_by compare_candidates rs) of
        None \<Rightarrow> rs = []
      | Some best \<Rightarrow> best \<in> set rs \<and> list_all (ranks_before best) rs"
  proof (cases "sort_by compare_candidates rs")
    case Nil
    with s show ?thesis by (simp add: best_candidate_def)
  next
    case (Cons b rest)
    then have "list_all (ranks_before b) (b # rest)" using sorted_head[of b rest] s by simp
    then have "list_all (ranks_before b) rs" using set_eq Cons by (metis list_all_iff)
    then show ?thesis using Cons set_eq by (auto simp: best_candidate_def)
  qed
  moreover have "sorted_wrt (\<lambda>l r.
      let severity = \<lambda>c. pack_severity (cr_evaluation c); fill_tail = \<lambda>c. sk_mean_p05_fill_rate_bps (cr_score c);
          maker_score = \<lambda>c. sk_rough_maker_score_quote_atoms (cr_score c)
      in severity l < severity r \<or> severity l = severity r \<and>
        (fill_tail r < fill_tail l \<or> fill_tail l = fill_tail r \<and>
          (maker_score r < maker_score l \<or> maker_score l = maker_score r \<and>
            cr_candidate_name l \<le> cr_candidate_name r)))
      (sort_by compare_candidates rs)"
    by (rule sorted_wrt_mono_rel[OF _ conjunct1[OF s]]) (auto simp: ranks_before_iff Let_def)
  ultimately show ?thesis using s sort_by_stable by blast
qed

text \<open>The scenarios of the default pack share their parameters and order.\<close>

lemma strategy_covers_scenarios_witness:
  "\<exists>strategy. strategy_config_from_scenarios (default_reference_quote_scenario_pack 77) = Ok strategy
     \<and> gr_params (default_volatile 77) = st_params strategy
     \<and> envelope_covers (st_quote_update_envelope strategy) (gr_quote_update_policy (default_volatile 77))"
proof -
  have "is_ok (strategy_config_from_scenarios (default_reference_quote_scenario_pack 77))" by code_simp
  then obtain strategy where
    s: "strategy_config_from_scenarios (default_reference_quote_scenario_pack 77) = Ok strategy"
    by (auto simp: is_ok_def split: sum.splits)
  have "default_volatile 77 \<in> set (default_reference_quote_scenario_pack 77)"
    by (simp add: default_reference_quote_scenario_pack_def)
  from strategy_covers_scenarios[OF s this] s show ?thesis by blast
qed


end
