(* ===== verification/Export.thy ===== *)
theory Export imports Config_Import Calibration begin

text \<open>
  The export of a calibrated strategy, \<open>export_reference_quote_config\<close> in
  \<open>crates/meta_amm_sim/src/calibration.rs\<close>, and its import by the configuration compiler.  The
  exported text is a sequence of quoted words; the importer finds each field's name as a word of
  its own and reads back the number or string after it.
\<close>

section \<open>The export\<close>

definition line :: "string \<Rightarrow> string" where
  "line s = s @ [NEWLINE]"

text \<open>A field with its name quoted: the name, a colon and a space, the value.\<close>

definition json_field :: "string \<Rightarrow> string \<Rightarrow> string" where
  "json_field name value = quoted name @ '': '' @ value"

definition same_slot_order_str :: "same_slot_update_order \<Rightarrow> string" where
  "same_slot_order_str order = (case order of
     UpdateBeforeSwap \<Rightarrow> ''update_before_swap'' | SwapBeforeUpdate \<Rightarrow> ''swap_before_update'')"

abbreviation show_word :: "'a::len word \<Rightarrow> string" where "show_word w \<equiv> show_nat (unat w)"

definition export_head :: "string \<Rightarrow> string" where
  "export_head name =
     line ''{''
   @ line (''  '' @ json_field ''version'' ''1,'')
   @ line (''  '' @ json_field ''mode'' (quoted ''ReferenceQuote'' @ '',''))
   @ ''  '' @ json_field ''candidate_name'' (json_string name) @ line '',''
   @ line (''  '' @ json_field ''warning''
       (quoted ''generated calibration output; not market replay or maker edge'' @ '',''))"

definition export_params :: "reference_quote_params \<Rightarrow> string" where
  "export_params p =
     line (''  '' @ json_field ''params'' ''{'')
   @ line (''    '' @ json_field ''fee_bps'' (show_word (fee_bps p) @ '',''))
   @ line (''    '' @ json_field ''base_half_spread_bps'' (show_word (base_half_spread_bps p) @ '',''))
   @ line (''    '' @ json_field ''aging_start_slots'' (show_word (aging_start_slots p) @ '',''))
   @ line (''    '' @ json_field ''protected_start_slots'' (show_word (protected_start_slots p) @ '',''))
   @ line (''    '' @ json_field ''expire_slots'' (show_word (expire_slots p) @ '',''))
   @ line (''    '' @ json_field ''aging_surcharge_bps_per_slot'' (show_word (aging_surcharge_bps_per_slot p) @ '',''))
   @ line (''    '' @ json_field ''max_aging_surcharge_bps'' (show_word (max_aging_surcharge_bps p) @ '',''))
   @ line (''    '' @ json_field ''max_trade_base_atoms'' (show_word (max_trade_base_atoms p) @ '',''))
   @ line (''    '' @ json_field ''protected_max_trade_base_atoms'' (show_word (protected_max_trade_base_atoms p) @ '',''))
   @ line (''    '' @ json_field ''inventory_skew_bps_per_10k_imbalance''
       (show_word (inventory_skew_bps_per_10k_imbalance p) @ '',''))
   @ line (''    '' @ json_field ''max_inventory_skew_bps'' (show_word (max_inventory_skew_bps p) @ '',''))
   @ line (''    '' @ json_field ''hard_inventory_band_bps'' (show_word (hard_inventory_band_bps p)))
   @ line ''  },''"

definition export_envelope :: "quote_update_envelope \<Rightarrow> string" where
  "export_envelope e =
     line (''  '' @ json_field ''quote_update_envelope'' ''{'')
   @ line (''    '' @ json_field ''max_maker_update_period_slots'' (show_word (max_maker_update_period_slots e) @ '',''))
   @ line (''    '' @ json_field ''max_landing_latency_slots'' (show_word (max_landing_latency_slots e) @ '',''))
   @ line (''    '' @ json_field ''min_update_success_probability_bps''
       (show_word (min_update_success_probability_bps e) @ '',''))
   @ line (''    '' @ json_field ''same_slot_order'' (quoted (same_slot_order_str (same_slot_order e))))
   @ line ''  },''"

definition export_score :: "calibration_score \<Rightarrow> string" where
  "export_score s =
     line (''  '' @ json_field ''score'' ''{'')
   @ line (''    '' @ json_field ''mean_p05_fill_rate_bps'' (show_word (sk_mean_p05_fill_rate_bps s) @ '',''))
   @ line (''    '' @ json_field ''mean_fill_rate_bps'' (show_word (sk_mean_fill_rate_bps s) @ '',''))
   @ line (''    '' @ json_field ''mean_update_drop_rate_bps'' (show_word (sk_mean_update_drop_rate_bps s) @ '',''))
   @ line (''    '' @ json_field ''rough_maker_score_quote_atoms'' (show_int (sk_rough_maker_score_quote_atoms s)))
   @ line ''  },''"

text \<open>One entry per finding, or one for a scenario without findings; entries are separated by \<open>,\<close> and a newline.\<close>

definition export_finding :: "scenario_evaluation \<Rightarrow> gate_finding \<Rightarrow> string" where
  "export_finding ev f =
     ''      {'' @ json_field ''scenario'' (json_string (ev_scenario_name ev))
   @ '', '' @ json_field ''severity'' (json_string (severity_as_str (gf_severity f)))
   @ '', '' @ json_field ''metric'' (json_string (gf_metric f))
   @ '', '' @ json_field ''observed'' (show_word (gf_observed f))
   @ '', '' @ json_field ''threshold'' (show_word (gf_threshold f)) @ ''}''"

definition export_no_findings :: "scenario_evaluation \<Rightarrow> string" where
  "export_no_findings ev =
     ''      {'' @ json_field ''scenario'' (json_string (ev_scenario_name ev))
   @ '', '' @ json_field ''severity'' (json_string (severity_as_str (ev_severity ev)))
   @ '', '' @ json_field ''metric'' (quoted ''none'') @ '', '' @ json_field ''observed'' ''0''
   @ '', '' @ json_field ''threshold'' ''0'' @ ''}''"

definition finding_entries :: "scenario_evaluation list \<Rightarrow> string list" where
  "finding_entries evs = concat (map (\<lambda>ev.
     if ev_findings ev = [] then [export_no_findings ev] else map (export_finding ev) (ev_findings ev)) evs)"

fun separated :: "string list \<Rightarrow> string" where
  "separated [] = []"
| "separated [e] = line e"
| "separated (e # es) = e @ line '','' @ separated es"

definition export_evaluation :: "scenario_evaluation list \<Rightarrow> string" where
  "export_evaluation evs =
     line (''  '' @ json_field ''evaluation'' ''{'')
   @ line (''    '' @ json_field ''severity'' (quoted (severity_as_str (pack_severity evs)) @ '',''))
   @ line (''    '' @ json_field ''scenario_findings'' ''['')
   @ separated (finding_entries evs)
   @ line ''    ]''
   @ line ''  },''"

definition export_assumption :: "reference_aggregate_report \<Rightarrow> bool \<Rightarrow> string" where
  "export_assumption r is_last =
     line (''    {'' @ json_field ''name'' (json_string (sc_name (ra_assumptions r)))
   @ '', '' @ json_field ''flow_model'' (json_string (sc_flow_model (ra_assumptions r)))
   @ '', '' @ json_field ''landing_model'' (json_string (sc_landing_model (ra_assumptions r)))
   @ '', '' @ json_field ''paths'' (show_word (ra_paths r)) @ ''}'' @ (if is_last then [] else '',''))"

fun export_assumptions :: "reference_aggregate_report list \<Rightarrow> string" where
  "export_assumptions [] = []"
| "export_assumptions (r # rs) = export_assumption r (rs = []) @ export_assumptions rs"

definition export_reference_quote_config :: "candidate_report \<Rightarrow> string" where
  "export_reference_quote_config candidate =
     export_head (cr_candidate_name candidate)
   @ export_params (st_params (cr_strategy_config candidate))
   @ export_envelope (st_quote_update_envelope (cr_strategy_config candidate))
   @ export_score (cr_score candidate)
   @ export_evaluation (cr_evaluation candidate)
   @ line (''  '' @ json_field ''scenario_assumptions'' ''['')
   @ export_assumptions (cr_scenario_pack candidate)
   @ line ''  ]''
   @ line ''}''"

definition export_best_config :: "candidate_report list \<Rightarrow> string option" where
  "export_best_config reports = map_option export_reference_quote_config (best_candidate reports)"

section \<open>The export as a sequence of quoted words\<close>

definition number_gap :: "'a::len word \<Rightarrow> string" where
  "number_gap w = '': '' @ show_nat (unat w) @ '','' @ NEWLINE # ''    ''"

definition head_words :: "string \<Rightarrow> (string \<times> string) list" where
  "head_words name =
    [(''version'', '': 1,'' @ NEWLINE # ''  ''), (''mode'', '': ''), (''ReferenceQuote'', '','' @ NEWLINE # ''  ''),
     (''candidate_name'', '': ''), (concat (map escape_char name), '','' @ NEWLINE # ''  ''), (''warning'', '': ''),
     (''generated calibration output; not market replay or maker edge'', '','' @ NEWLINE # ''  '')]"

definition params_words :: "reference_quote_params \<Rightarrow> (string \<times> string) list" where
  "params_words p =
    [(''params'', '': {'' @ NEWLINE # ''    ''), (''fee_bps'', number_gap (fee_bps p)),
     (''base_half_spread_bps'', number_gap (base_half_spread_bps p)),
     (''aging_start_slots'', number_gap (aging_start_slots p)),
     (''protected_start_slots'', number_gap (protected_start_slots p)),
     (''expire_slots'', number_gap (expire_slots p)),
     (''aging_surcharge_bps_per_slot'', number_gap (aging_surcharge_bps_per_slot p)),
     (''max_aging_surcharge_bps'', number_gap (max_aging_surcharge_bps p)),
     (''max_trade_base_atoms'', number_gap (max_trade_base_atoms p)),
     (''protected_max_trade_base_atoms'', number_gap (protected_max_trade_base_atoms p)),
     (''inventory_skew_bps_per_10k_imbalance'', number_gap (inventory_skew_bps_per_10k_imbalance p)),
     (''max_inventory_skew_bps'', number_gap (max_inventory_skew_bps p)),
     (''hard_inventory_band_bps'', '': '' @ show_nat (unat (hard_inventory_band_bps p))
        @ NEWLINE # ''  },'' @ NEWLINE # ''  '')]"

definition envelope_words :: "quote_update_envelope \<Rightarrow> (string \<times> string) list" where
  "envelope_words e =
    [(''quote_update_envelope'', '': {'' @ NEWLINE # ''    ''),
     (''max_maker_update_period_slots'', number_gap (max_maker_update_period_slots e)),
     (''max_landing_latency_slots'', number_gap (max_landing_latency_slots e)),
     (''min_update_success_probability_bps'', number_gap (min_update_success_probability_bps e)),
     (''same_slot_order'', '': '')]"

definition export_words :: "candidate_report \<Rightarrow> (string \<times> string) list" where
  "export_words c = head_words (cr_candidate_name c) @ params_words (st_params (cr_strategy_config c))
     @ envelope_words (st_quote_update_envelope (cr_strategy_config c))"

definition export_tail :: "candidate_report \<Rightarrow> string" where
  "export_tail candidate =
     quoted (same_slot_order_str (same_slot_order (st_quote_update_envelope (cr_strategy_config candidate))))
   @ NEWLINE # ''  },'' @ NEWLINE # export_score (cr_score candidate)
   @ export_evaluation (cr_evaluation candidate)
   @ line (''  '' @ json_field ''scenario_assumptions'' ''['')
   @ export_assumptions (cr_scenario_pack candidate)
   @ line ''  ]''
   @ line ''}''"

lemma words_append: "words (ws @ ws') tail = words ws (words ws' tail)"
  by (induction ws tail rule: words.induct) simp_all

lemma export_as_words:
  "export_reference_quote_config c = (''{'' @ NEWLINE # ''  '') @ words (export_words c) (export_tail c)"
  by (simp add: export_reference_quote_config_def export_head_def export_params_def export_envelope_def
      line_def json_field_def json_string_def export_words_def words_append head_words_def params_words_def
      envelope_words_def number_gap_def export_tail_def)

lemma export_words_ok: "unquoted (cr_candidate_name c) \<Longrightarrow> words_ok (export_words c)"
  by (simp add: words_ok_def export_words_def head_words_def params_words_def envelope_words_def number_gap_def
      escape_unquoted)

section \<open>The import of an export\<close>

definition field_names :: "string list" where
  "field_names = map field_name [FeeBps, BaseHalfSpreadBps, AgingStartSlots, ProtectedStartSlots, ExpireSlots,
     AgingSurchargeBpsPerSlot, MaxAgingSurchargeBps, MaxTradeBaseAtoms, ProtectedMaxTradeBaseAtoms,
     InventorySkewBpsPer10kImbalance, MaxInventorySkewBps, HardInventoryBandBps, MaxMakerUpdatePeriodSlots,
     MaxLandingLatencySlots, MinUpdateSuccessProbabilityBps, SameSlotOrder]"

text \<open>The name of a candidate hides no field: it has no quote and is not itself the name of a field.\<close>

definition name_ok :: "string \<Rightarrow> bool" where
  "name_ok name \<longleftrightarrow> unquoted name \<and> name \<notin> set field_names"

lemma name_not_field:
  assumes "name_ok name" "field_name f \<in> set field_names"
  shows "concat (map escape_char name) \<noteq> field_name f"
  using assms escape_plain[OF field_name_plain, of name f] by (auto simp: name_ok_def)

lemma escaped_name_differs:
  assumes "name_ok name"
  shows "concat (map escape_char name) \<noteq> ''fee_bps''" "concat (map escape_char name) \<noteq> ''base_half_spread_bps''"
    "concat (map escape_char name) \<noteq> ''aging_start_slots''" "concat (map escape_char name) \<noteq> ''protected_start_slots''"
    "concat (map escape_char name) \<noteq> ''expire_slots''" "concat (map escape_char name) \<noteq> ''aging_surcharge_bps_per_slot''"
    "concat (map escape_char name) \<noteq> ''max_aging_surcharge_bps''" "concat (map escape_char name) \<noteq> ''max_trade_base_atoms''"
    "concat (map escape_char name) \<noteq> ''protected_max_trade_base_atoms''"
    "concat (map escape_char name) \<noteq> ''inventory_skew_bps_per_10k_imbalance''"
    "concat (map escape_char name) \<noteq> ''max_inventory_skew_bps''" "concat (map escape_char name) \<noteq> ''hard_inventory_band_bps''"
    "concat (map escape_char name) \<noteq> ''max_maker_update_period_slots''"
    "concat (map escape_char name) \<noteq> ''max_landing_latency_slots''"
    "concat (map escape_char name) \<noteq> ''min_update_success_probability_bps''"
    "concat (map escape_char name) \<noteq> ''same_slot_order''"
  using name_not_field[OF assms, of FeeBps] name_not_field[OF assms, of BaseHalfSpreadBps]
    name_not_field[OF assms, of AgingStartSlots] name_not_field[OF assms, of ProtectedStartSlots]
    name_not_field[OF assms, of ExpireSlots] name_not_field[OF assms, of AgingSurchargeBpsPerSlot]
    name_not_field[OF assms, of MaxAgingSurchargeBps] name_not_field[OF assms, of MaxTradeBaseAtoms]
    name_not_field[OF assms, of ProtectedMaxTradeBaseAtoms] name_not_field[OF assms, of InventorySkewBpsPer10kImbalance]
    name_not_field[OF assms, of MaxInventorySkewBps] name_not_field[OF assms, of HardInventoryBandBps]
    name_not_field[OF assms, of MaxMakerUpdatePeriodSlots] name_not_field[OF assms, of MaxLandingLatencySlots]
    name_not_field[OF assms, of MinUpdateSuccessProbabilityBps] name_not_field[OF assms, of SameSlotOrder]
  unfolding field_names_def list.map list.set by (simp_all only: field_name.simps insert_iff simp_thms)

text \<open>The exported text has the number \<open>n\<close> at a field.\<close>

definition exports_number :: "candidate_report \<Rightarrow> export_field \<Rightarrow> nat \<Rightarrow> bool" where
  "exports_number c f n \<longleftrightarrow> (\<exists>ch rest. number_end ch
     \<and> after_word (field_name f) (export_words c) (export_tail c) = Some ('': '' @ show_nat n @ ch # rest))"

lemma number_end_simps [simp]: "number_end (CHR '','')" "number_end NEWLINE"
  by (simp_all add: number_end_def is_ascii_whitespace_def)

lemma exports_number_parsed:
  assumes "exports_number c f n" "unquoted (cr_candidate_name c)"
  obtains ch rest where "number_end ch"
    "field_value (export_reference_quote_config c) f = Ok (CHR '' '' # show_nat n @ ch # rest)"
proof -
  from assms(1) obtain ch rest where ch: "number_end ch"
    and hit: "after_word (field_name f) (export_words c) (export_tail c) = Some (CHR '':'' # CHR '' '' # show_nat n @ ch # rest)"
    by (auto simp: exports_number_def)
  have "field_value (export_reference_quote_config c) f = Ok (CHR '' '' # show_nat n @ ch # rest)"
    unfolding export_as_words by (rule field_value_words[OF export_words_ok[OF assms(2)] _ hit]) simp
  with ch that show thesis by blast
qed

lemma parsed_u64:
  "exports_number c f (unat v) \<Longrightarrow> unquoted (cr_candidate_name c) \<Longrightarrow>
   parse_u64_field (export_reference_quote_config c) f = Ok v"
  using u64_bound[of v] by (elim exports_number_parsed) (simp_all add: parse_u64_field_value)

lemma parsed_u16:
  "exports_number c f (unat v) \<Longrightarrow> unquoted (cr_candidate_name c) \<Longrightarrow>
   parse_u16_field (export_reference_quote_config c) f = Ok v"
  by (elim exports_number_parsed) (simp_all add: parse_u16_field_value)

lemma number_gap_eq: "number_gap w @ s = '': '' @ show_nat (unat w) @ CHR '','' # NEWLINE # ''    '' @ s"
  by (simp add: number_gap_def)

lemma exported_version: "exports_number c Version (unat (1 :: u64))"
proof -
  have "show_nat 1 = ''1''" by code_simp
  then show ?thesis by (simp add: exports_number_def export_words_def head_words_def)
qed

lemmas export_words_defs = export_words_def head_words_def params_words_def envelope_words_def

lemma exported_params:
  assumes "name_ok (cr_candidate_name c)" "p = st_params (cr_strategy_config c)"
  shows "exports_number c FeeBps (unat (fee_bps p))"
    "exports_number c BaseHalfSpreadBps (unat (base_half_spread_bps p))"
    "exports_number c AgingStartSlots (unat (aging_start_slots p))"
    "exports_number c ProtectedStartSlots (unat (protected_start_slots p))"
    "exports_number c ExpireSlots (unat (expire_slots p))"
    "exports_number c AgingSurchargeBpsPerSlot (unat (aging_surcharge_bps_per_slot p))"
    "exports_number c MaxAgingSurchargeBps (unat (max_aging_surcharge_bps p))"
    "exports_number c MaxTradeBaseAtoms (unat (max_trade_base_atoms p))"
    "exports_number c ProtectedMaxTradeBaseAtoms (unat (protected_max_trade_base_atoms p))"
    "exports_number c InventorySkewBpsPer10kImbalance (unat (inventory_skew_bps_per_10k_imbalance p))"
    "exports_number c MaxInventorySkewBps (unat (max_inventory_skew_bps p))"
    "exports_number c HardInventoryBandBps (unat (hard_inventory_band_bps p))"
  using escaped_name_differs[OF assms(1)] assms(2)
  by (simp_all add: exports_number_def export_words_defs number_gap_eq)

lemma exported_envelope:
  assumes "name_ok (cr_candidate_name c)" "e = st_quote_update_envelope (cr_strategy_config c)"
  shows "exports_number c MaxMakerUpdatePeriodSlots (unat (max_maker_update_period_slots e))"
    "exports_number c MaxLandingLatencySlots (unat (max_landing_latency_slots e))"
    "exports_number c MinUpdateSuccessProbabilityBps (unat (min_update_success_probability_bps e))"
  using escaped_name_differs[OF assms(1)] assms(2)
  by (simp_all add: exports_number_def export_words_defs number_gap_eq)

lemma exported_string:
  assumes "unquoted (cr_candidate_name c)" "plain s"
    and "after_word (field_name f) (export_words c) (export_tail c) = Some (CHR '':'' # CHR '' '' # quoted s @ rest)"
  shows "parse_string_field (export_reference_quote_config c) f = Ok s"
proof -
  have "field_value (export_reference_quote_config c) f = Ok (CHR '' '' # quoted s @ rest)"
    unfolding export_as_words by (rule field_value_words[OF export_words_ok[OF assms(1)] _ assms(3)]) simp
  then show ?thesis using assms(2) by (rule parse_string_field_value)
qed

lemma exported_mode:
  assumes "unquoted (cr_candidate_name c)"
  shows "parse_string_field (export_reference_quote_config c) Mode = Ok ''ReferenceQuote''"
  by (rule exported_string[OF assms]) (simp_all add: export_words_defs is_control_def)

lemma exported_order:
  assumes "name_ok (cr_candidate_name c)"
  shows "parse_string_field (export_reference_quote_config c) SameSlotOrder
    = Ok (same_slot_order_str (same_slot_order (st_quote_update_envelope (cr_strategy_config c))))"
proof (rule exported_string)
  show "unquoted (cr_candidate_name c)" using assms by (simp add: name_ok_def)
  show "plain (same_slot_order_str (same_slot_order (st_quote_update_envelope (cr_strategy_config c))))"
    by (cases "same_slot_order (st_quote_update_envelope (cr_strategy_config c))")
      (simp_all add: same_slot_order_str_def is_control_def)
qed (use escaped_name_differs[OF assms] in \<open>simp add: export_words_defs number_gap_eq export_tail_def\<close>)

lemma order_of_str: "same_slot_order_of_str (same_slot_order_str order) = Ok order"
  by (cases order) (simp_all add: same_slot_order_of_str_def same_slot_order_str_def)

lemma parse_export:
  assumes "name_ok (cr_candidate_name c)"
  shows "parse_reference_quote_strategy_export (export_reference_quote_config c)
    = map_err ConfigRejected
       (and_then (validate_reference_quote_params (st_params (cr_strategy_config c))) (\<lambda>_.
        and_then (validate_quote_update_envelope (st_quote_update_envelope (cr_strategy_config c))
          (expire_slots (st_params (cr_strategy_config c)))) (\<lambda>_. Ok (cr_strategy_config c))))"
proof -
  let ?s = "export_reference_quote_config c"
  have u: "unquoted (cr_candidate_name c)" using assms by (simp add: name_ok_def)
  note p = exported_params[OF assms refl] and e = exported_envelope[OF assms refl]
  have params: "parse_params ?s = Ok (st_params (cr_strategy_config c))"
    by (simp add: parse_params_def p(1,2,6,7,10,11,12)[THEN parsed_u16[OF _ u]]
        p(3,4,5,8,9)[THEN parsed_u64[OF _ u]])
  have envelope: "parse_envelope ?s = Ok (st_quote_update_envelope (cr_strategy_config c))"
    by (simp add: parse_envelope_def exported_order[OF assms] order_of_str e(3)[THEN parsed_u16[OF _ u]]
        e(1,2)[THEN parsed_u64[OF _ u]])
  have version: "parse_u64_field ?s Version = Ok 1" by (rule parsed_u64[OF exported_version u])
  show ?thesis
    by (cases "validate_reference_quote_params (st_params (cr_strategy_config c))";
        cases "validate_quote_update_envelope (st_quote_update_envelope (cr_strategy_config c))
          (expire_slots (st_params (cr_strategy_config c)))")
      (simp_all add: parse_reference_quote_strategy_export_def version exported_mode[OF u] params envelope
        CONFIG_SCHEMA_VERSION_def map_err_def)
qed

text \<open>
  C23: the exported configuration of a candidate compiles on import exactly as the candidate's
  strategy compiles directly, with the same result or the same error, whatever its parameters,
  score, findings and assumptions are, as long as the candidate's name hides no field.
\<close>

theorem export_import_compiles:
  assumes "name_ok (cr_candidate_name c)"
  shows "compile_reference_quote_export (export_reference_quote_config c) pair budget
    = map_err ConfigRejected (compile_reference_quote_config
        \<lparr>in_strategy = cr_strategy_config c, in_token_pair = pair, in_account_budget = budget\<rparr>)"
  by (cases "validate_reference_quote_params (st_params (cr_strategy_config c))";
      cases "validate_quote_update_envelope (st_quote_update_envelope (cr_strategy_config c))
          (expire_slots (st_params (cr_strategy_config c)))";
      cases "validate_account_budget budget";
      cases "decimal_scale_new (tp_base_decimals pair) (tp_quote_decimals pair)")
    (simp_all add: compile_reference_quote_export_def reference_quote_input_from_export_def
      parse_export[OF assms] compile_reference_quote_config_def map_err_def)

text \<open>A candidate named like a field hides it: the importer takes its name for the field.\<close>

lemma name_collision_breaks_import:
  assumes "cr_candidate_name c = ''fee_bps''"
  shows "parse_reference_quote_strategy_export (export_reference_quote_config c) = Err (InvalidNumber FeeBps)"
proof -
  have u: "unquoted (cr_candidate_name c)" by (simp add: assms)
  have name: "concat (map escape_char ''fee_bps'') = ''fee_bps''" by code_simp
  let ?after = "CHR '','' # NEWLINE # CHR '' '' # CHR '' '' # quoted ''warning'' @ CHR '':'' # CHR '' ''
      # quoted ''generated calibration output; not market replay or maker edge''
      @ (CHR '','' # NEWLINE # ''  '') @ words (params_words (st_params (cr_strategy_config c))
      @ envelope_words (st_quote_update_envelope (cr_strategy_config c))) (export_tail c)"
  have hit: "after_word (field_name FeeBps) (export_words c) (export_tail c) = Some ?after"
    by (simp add: export_words_def head_words_def assms name[simplified])
  have "after_match (export_field_needle FeeBps) (export_reference_quote_config c) = Some ?after"
    unfolding export_as_words by (rule after_match_words[OF export_words_ok[OF u] _ hit]) simp
  then have "\<exists>rest. field_value (export_reference_quote_config c) FeeBps = Ok (CHR '' '' # QUOTE # rest)"
    by (simp add: field_value_def ok_or_def quoted_def)
  then obtain rest where v: "field_value (export_reference_quote_config c) FeeBps = Ok (CHR '' '' # QUOTE # rest)" ..
  have "parse_u16_field (export_reference_quote_config c) FeeBps = Err (InvalidNumber FeeBps)"
    by (simp add: parse_u16_field_def parse_u64_field_def v skip_ascii_whitespace_def is_ascii_whitespace_def
        is_ascii_digit_def)
  moreover have "parse_u64_field (export_reference_quote_config c) Version = Ok 1"
    by (rule parsed_u64[OF exported_version u])
  ultimately show ?thesis
    by (simp add: parse_reference_quote_strategy_export_def exported_mode[OF u] CONFIG_SCHEMA_VERSION_def parse_params_def)
qed

section \<open>The default candidates\<close>

definition candidate_validity :: "calibration_candidate \<Rightarrow> (config_error + unit) option" where
  "candidate_validity candidate =
    (case strategy_config_from_scenarios (ca_scenarios candidate) of
       Err e \<Rightarrow> None
     | Ok strategy \<Rightarrow> Some (and_then (validate_reference_quote_params (st_params strategy)) (\<lambda>_.
         validate_quote_update_envelope (st_quote_update_envelope strategy) (expire_slots (st_params strategy)))))"

text \<open>
  Whatever the seed, three of the five default candidates have a strategy that compiles; the
  update envelopes of the first two, at their slowest nine slots of period and six of latency,
  refresh no earlier than the quote expires, and are refused.
\<close>

lemma default_candidates_compile:
  "map (\<lambda>c. (ca_name c, candidate_validity c)) (default_reference_quote_calibration_candidates seed) =
    [(''baseline'', Some (Err QuoteUpdateEnvelopeInvalid)),
     (''wider-spread'', Some (Err QuoteUpdateEnvelopeInvalid)),
     (''faster-updates'', Some (Ok ())), (''wide-and-fast'', Some (Ok ())), (''tight-freshness'', Some (Ok ()))]"
  by code_simp

text \<open>A candidate with the example strategy.\<close>

definition example_candidate :: candidate_report where
  "example_candidate = \<lparr>cr_candidate_name = ''faster-updates'', cr_strategy_config = in_strategy example_input,
     cr_score = \<lparr>sk_mean_p05_fill_rate_bps = 9000, sk_mean_fill_rate_bps = 9500,
       sk_mean_update_drop_rate_bps = 100, sk_rough_maker_score_quote_atoms = - 5\<rparr>,
     cr_scenario_pack = [], cr_evaluation = []\<rparr>"

theorem export_import_compiles_witness:
  "compile_reference_quote_export (export_reference_quote_config example_candidate) example_pair
     reference_quote_jupiter_default = Ok (compiled_from example_input)"
proof -
  have "name_ok (cr_candidate_name example_candidate)"
    by (simp add: example_candidate_def name_ok_def field_names_def)
  from export_import_compiles[OF this, of example_pair reference_quote_jupiter_default]
  have "compile_reference_quote_export (export_reference_quote_config example_candidate) example_pair
      reference_quote_jupiter_default = map_err ConfigRejected (compile_reference_quote_config example_input)"
    by (simp add: example_candidate_def example_input_def)
  moreover have "compile_reference_quote_config example_input = Ok (compiled_from example_input)"
    using compile_Ok example_input_ok by blast
  ultimately show ?thesis by (simp add: map_err_def)
qed

end
