(* ===== verification/Command_Line.thy ===== *)
theory Command_Line imports Replay_Report Export begin
text \<open>
  The command line of the simulator, \<open>crates/meta_amm_sim/src/main.rs\<close>: which mode the arguments
  choose, the scenarios it runs, and the text it prints.  The result is the printed text;
  \<^const>\<open>None\<close> stands for a panic or a run that does not return.  Files are read by a parameter.
  Shown here: when the replay mode prints its report.
\<close>

section \<open>Printing\<close>

abbreviation println :: "string \<Rightarrow> string" where "println \<equiv> line"

definition print_summary :: "('a \<Rightarrow> string) \<Rightarrow> string \<Rightarrow> 'a summary \<Rightarrow> string" where
  "print_summary shown label s =
    println (label @ '': min='' @ shown (sm_min s) @ '' p05='' @ shown (sm_p05 s) @ '' mean='' @ shown (sm_mean s)
      @ '' p50='' @ shown (sm_p50 s) @ '' p95='' @ shown (sm_p95 s) @ '' max='' @ shown (sm_max s))"

abbreviation print_word :: "string \<Rightarrow> 'a::len word summary \<Rightarrow> string" where
  "print_word \<equiv> print_summary (\<lambda>w. show_word w)"

abbreviation print_summary_i128 :: "string \<Rightarrow> int summary \<Rightarrow> string" where
  "print_summary_i128 \<equiv> print_summary show_int"

definition field_line :: "string \<Rightarrow> string \<Rightarrow> string" where
  "field_line label value = println (label @ '': '' @ value)"

definition print_assumptions :: "scenario_assumptions \<Rightarrow> string" where
  "print_assumptions a =
     field_line ''scenario'' (sc_name a) @ field_line ''flow_model'' (sc_flow_model a)
   @ field_line ''landing_model'' (sc_landing_model a)"

definition print_cpmm_report :: "aggregate_report \<Rightarrow> string" where
  "print_cpmm_report report =
     println ''engine: CPMM''
   @ print_word ''trades_attempted'' (ag_trades_attempted report)
   @ print_word ''trades_filled'' (ag_trades_filled report)
   @ print_word ''fill_rate_bps'' (ag_fill_rate_bps report)
   @ print_word ''fees_quote_atoms'' (ag_fees_quote_atoms report)
   @ print_summary_i128 ''taker_edge_quote_atoms'' (ag_taker_edge_quote_atoms report)"

definition print_reference_report :: "reference_aggregate_report \<Rightarrow> string" where
  "print_reference_report report =
     println ''engine: ReferenceQuote''
   @ print_word ''trades_attempted'' (ra_trades_attempted report)
   @ print_word ''trades_filled'' (ra_trades_filled report)
   @ print_word ''fill_rate_bps'' (ra_fill_rate_bps report)
   @ print_word ''rejected_stale'' (ra_rejected_stale report)
   @ print_word ''rejected_protected'' (ra_rejected_protected report)
   @ print_word ''rejected_inventory'' (ra_rejected_inventory report)
   @ print_word ''quote_updates_sent'' (ra_quote_updates_sent report)
   @ print_word ''quote_updates_landed'' (ra_quote_updates_landed report)
   @ print_word ''quote_updates_dropped'' (ra_quote_updates_dropped report)
   @ print_word ''max_quote_age_slots'' (ra_max_quote_age_slots report)
   @ print_word ''fees_quote_atoms'' (ra_fees_quote_atoms report)
   @ print_summary_i128 ''taker_edge_quote_atoms'' (ra_taker_edge_quote_atoms report)
   @ print_word ''max_abs_inventory_imbalance_bps'' (ra_max_abs_inventory_imbalance_bps report)"

definition print_piecewise_report :: "piecewise_prop_report \<Rightarrow> string option" where
  "print_piecewise_report report =
    map_option (\<lambda>rate.
     println ''engine: PiecewiseProp''
   @ field_line ''trades_attempted'' (show_word (pr_trades_attempted report))
   @ field_line ''trades_filled'' (show_word (pr_trades_filled report))
   @ field_line ''trades_rejected'' (show_word (pr_trades_rejected report))
   @ field_line ''fill_rate_bps'' (show_word rate)
   @ field_line ''post_fills_applied'' (show_word (pr_post_fills_applied report))
   @ field_line ''max_segments_crossed'' (show_word (pr_max_segments_crossed report))
   @ field_line ''taker_edge_quote_atoms'' (show_int (pr_taker_edge_quote_atoms report))
   @ field_line ''final_bid_consumed_quantity'' (show_word (consumed_quantity (pr_final_bid_side report)))
   @ field_line ''final_ask_consumed_quantity'' (show_word (consumed_quantity (pr_final_ask_side report))))
    (piecewise_fill_rate_bps report)"

definition print_gate_finding :: "gate_finding \<Rightarrow> string" where
  "print_gate_finding f =
    println (''gate_finding: severity='' @ severity_as_str (gf_severity f) @ '' metric='' @ gf_metric f
      @ '' observed='' @ show_word (gf_observed f) @ '' threshold='' @ show_word (gf_threshold f))"

definition print_scenario :: "reference_aggregate_report \<times> scenario_evaluation \<Rightarrow> string" where
  "print_scenario entry = (let (scenario, evaluation) = entry in
     print_assumptions (ra_assumptions scenario)
   @ field_line ''paths'' (show_word (ra_paths scenario))
   @ field_line ''evaluation'' (severity_as_str (ev_severity evaluation))
   @ (if ev_findings evaluation = [] then println ''gate_findings: none''
      else concat (map print_gate_finding (ev_findings evaluation)))
   @ print_reference_report scenario @ println [])"

definition print_scenario_pack_report :: "reference_aggregate_report list \<Rightarrow> scenario_evaluation list \<Rightarrow> string" where
  "print_scenario_pack_report reports evaluations = concat (map print_scenario (zip reports evaluations))"

definition print_calibration_evaluation :: "scenario_evaluation \<Rightarrow> string" where
  "print_calibration_evaluation e =
    (if ev_findings e = [] then
       println (''scenario_gate: scenario='' @ ev_scenario_name e @ '' severity='' @ severity_as_str (ev_severity e)
         @ '' findings=none'')
     else concat (map (\<lambda>f.
       println (''scenario_gate: scenario='' @ ev_scenario_name e @ '' severity='' @ severity_as_str (gf_severity f)
         @ '' metric='' @ gf_metric f @ '' observed='' @ show_word (gf_observed f)
         @ '' threshold='' @ show_word (gf_threshold f))) (ev_findings e)))"

definition print_calibration_candidate :: "candidate_report \<Rightarrow> string" where
  "print_calibration_candidate c =
     field_line ''candidate'' (cr_candidate_name c)
   @ field_line ''evaluation'' (severity_as_str (pack_severity (cr_evaluation c)))
   @ println (''score: mean_p05_fill_rate_bps='' @ show_word (sk_mean_p05_fill_rate_bps (cr_score c))
       @ '' mean_fill_rate_bps='' @ show_word (sk_mean_fill_rate_bps (cr_score c))
       @ '' mean_update_drop_rate_bps='' @ show_word (sk_mean_update_drop_rate_bps (cr_score c))
       @ '' rough_maker_score_quote_atoms='' @ show_int (sk_rough_maker_score_quote_atoms (cr_score c)))
   @ concat (map print_calibration_evaluation (cr_evaluation c)) @ println []"

definition print_calibration_report :: "candidate_report list \<Rightarrow> string" where
  "print_calibration_report candidates = concat (map print_calibration_candidate candidates)"

definition print_reference_single_report :: "reference_quote_report \<Rightarrow> string option" where
  "print_reference_single_report report =
    map_option (\<lambda>rate.
     println ''engine: ReferenceQuote''
   @ field_line ''trades_attempted'' (show_word (rr_trades_attempted report))
   @ field_line ''trades_filled'' (show_word (rr_trades_filled report))
   @ field_line ''fill_rate_bps'' (show_word rate)
   @ field_line ''rejected_stale'' (show_word (rr_rejected_stale report))
   @ field_line ''rejected_protected'' (show_word (rr_rejected_protected report))
   @ field_line ''rejected_inventory'' (show_word (rr_rejected_inventory report))
   @ field_line ''quote_updates_sent'' (show_word (rr_quote_updates_sent report))
   @ field_line ''quote_updates_landed'' (show_word (rr_quote_updates_landed report))
   @ field_line ''quote_updates_dropped'' (show_word (rr_quote_updates_dropped report))
   @ field_line ''max_quote_age_slots'' (show_word (rr_max_quote_age_slots report))
   @ field_line ''fees_quote_atoms'' (show_word (rr_fees_quote_atoms report))
   @ field_line ''taker_edge_quote_atoms'' (show_int (rr_taker_edge_quote_atoms report))
   @ field_line ''max_abs_inventory_imbalance_bps'' (show_word (rr_max_abs_inventory_imbalance_bps report)))
    (reference_fill_rate_bps report)"

definition print_flow_distribution :: "flow_distribution_report \<Rightarrow> string" where
  "print_flow_distribution report =
     println ''replay_flow_distribution''
   @ field_line ''observations'' (show_word (fd_observations report))
   @ field_line ''trades'' (show_word (fd_trades report))
   @ field_line ''trade_probability_bps'' (show_word (fd_trade_probability_bps report))
   @ field_line ''base_to_quote_trades'' (show_word (fd_base_to_quote_trades report))
   @ field_line ''quote_to_base_trades'' (show_word (fd_quote_to_base_trades report))
   @ print_word ''base_equivalent_amount'' (fd_base_equivalent_amount report)"

definition print_landing_distribution :: "landing_distribution_report \<Rightarrow> string" where
  "print_landing_distribution report =
     println ''replay_landing_distribution''
   @ field_line ''quote_updates_sent'' (show_word (ld_quote_updates_sent report))
   @ field_line ''quote_updates_landed'' (show_word (ld_quote_updates_landed report))
   @ field_line ''quote_updates_dropped'' (show_word (ld_quote_updates_dropped report))
   @ field_line ''success_probability_bps'' (show_word (ld_success_probability_bps report))
   @ print_word ''latency_slots'' (ld_latency_slots report)"

section \<open>The scenarios of the generated run\<close>

definition reference_params :: reference_quote_params where
  "reference_params = \<lparr>fee_bps = 30, base_half_spread_bps = 10, aging_start_slots = 5,
     protected_start_slots = 10, expire_slots = 15, aging_surcharge_bps_per_slot = 2,
     max_aging_surcharge_bps = 20, max_trade_base_atoms = 10000, protected_max_trade_base_atoms = 500,
     inventory_skew_bps_per_10k_imbalance = 1000, max_inventory_skew_bps = 500,
     hard_inventory_band_bps = 3000\<rparr>"

definition smoke_assumptions :: scenario_assumptions where
  "smoke_assumptions = \<lparr>sc_name = ''generated-smoke'',
     sc_flow_model = ''seeded random walk fair price with Bernoulli flow'',
     sc_landing_model = ''deterministic quote latency with seeded update drops'', sc_path_count = 32\<rparr>"

definition smoke_seed :: u128 where "smoke_seed = 0x6d657461616d6d5f736d6f6b65000001"

definition smoke_cpmm :: generated_cpmm_scenario where
  "smoke_cpmm = \<lparr>gc_assumptions = smoke_assumptions, gc_seed = smoke_seed, gc_slots_per_path = 1000,
     gc_initial_reserves = \<lparr>base = 1000000, quote = 30000000000\<rparr>, gc_initial_fair_price = from_int 30000,
     gc_fee_bps = 30, gc_volatility_bps_per_slot = 5, gc_drift_bps_per_slot = 0,
     gc_trade_probability_bps = 1500, gc_max_trade_base_atoms = 1000\<rparr>"

definition smoke_reference :: generated_reference_scenario where
  "smoke_reference = \<lparr>gr_assumptions = smoke_assumptions, gr_seed = smoke_seed, gr_slots_per_path = 1000,
     gr_initial_base_inventory = 1000000, gr_initial_quote_inventory = 30000000000,
     gr_target_base_inventory = 1000000, gr_initial_fair_price = from_int 30000,
     gr_quote_update_policy = \<lparr>qp_maker_update_period_slots = 8, qp_landing_latency_slots = 5,
       qp_update_success_probability_bps = 7500,
       qp_failure_seed = smoke_seed XOR 0x71756f74655f757064617465,
       qp_same_slot_order = SwapBeforeUpdate\<rparr>,
     gr_params = reference_params, gr_volatility_bps_per_slot = 5, gr_drift_bps_per_slot = 0,
     gr_trade_probability_bps = 1500, gr_max_trade_base_atoms = 1000\<rparr>"

definition piecewise_side :: "math_error + piecewise_book_side" where
  "piecewise_side = side_new (map from_int [98, 99, 100, 101, 102, 103, 104]) 600"

definition piecewise_smoke_events :: "flow_event list" where
  "piecewise_smoke_events =
    [\<lparr>fe_slot = 1, fe_side = QuoteToBase, fe_amount_in = 9850, fe_fair_price = from_int 100\<rparr>,
     \<lparr>fe_slot = 2, fe_side = BaseToQuote, fe_amount_in = 100, fe_fair_price = from_int 100\<rparr>]"

section \<open>The four modes\<close>

definition expect :: "'e + 'a \<Rightarrow> 'a option" where
  "expect r = (case r of Ok x \<Rightarrow> Some x | Err e \<Rightarrow> None)"

definition expect_run :: "('e + 'a) option \<Rightarrow> 'a option" where
  "expect_run r = Option.bind r expect"

definition run_generated_smoke :: "string option" where
  "run_generated_smoke =
    Option.bind (expect_run (simulate_generated_cpmm smoke_cpmm)) (\<lambda>cpmm_report.
    Option.bind (expect_run (simulate_generated_reference_quote smoke_reference)) (\<lambda>reference_report.
    Option.bind (expect piecewise_side) (\<lambda>side.
    Option.bind (expect (simulate_piecewise_prop
      \<lparr>ps_assumptions = smoke_assumptions, ps_bid_side = side, ps_ask_side = side,
       ps_post_fill_policy = HealThenAdd\<rparr> piecewise_smoke_events)) (\<lambda>piecewise_report.
    Option.bind (print_piecewise_report piecewise_report) (\<lambda>piecewise_text.
    Some (print_assumptions smoke_assumptions @ field_line ''paths'' (show_word (sc_path_count smoke_assumptions))
      @ println [] @ print_cpmm_report cpmm_report
      @ println [] @ print_reference_report reference_report
      @ println [] @ piecewise_text
      @ println [] @ println ''warning: generated smoke output is not market replay or maker edge''))))))"

definition run_scenario_pack :: "string option" where
  "run_scenario_pack =
    map_option (\<lambda>report.
      let evaluation = evaluate_scenario_pack report reference_quote_default_thresholds
      in field_line ''scenario_pack'' ''default-reference-quote''
       @ field_line ''scenarios'' (show_nat (length report))
       @ field_line ''evaluation'' (severity_as_str (pack_severity evaluation))
       @ println [] @ print_scenario_pack_report report evaluation
       @ println ''warning: scenario-pack output is generated, not market replay'')
    (expect_run (simulate_reference_quote_scenario_pack
      (default_reference_quote_scenario_pack 0x6d657461616d6d5f7061636b)))"

definition DEFAULT_REFERENCE_QUOTE_CALIBRATION_SEED :: u128 where
  "DEFAULT_REFERENCE_QUOTE_CALIBRATION_SEED = 0x006d657461616d6d5f63616c"

definition run_reference_calibration :: "bool \<Rightarrow> string option" where
  "run_reference_calibration export_requested =
    map_option (\<lambda>report.
      field_line ''calibration'' ''reference-quote-generated''
      @ field_line ''candidates'' (show_nat (length report))
      @ (case best_candidate report of None \<Rightarrow> []
         | Some best \<Rightarrow> field_line ''best_candidate'' (cr_candidate_name best)
             @ field_line ''best_evaluation'' (severity_as_str (pack_severity (cr_evaluation best))))
      @ println [] @ print_calibration_report report
      @ println ''warning: calibration output is generated search plumbing, not market proof''
      @ (if export_requested then
           (case export_best_config report of None \<Rightarrow> []
            | Some config \<Rightarrow> println [] @ println ''config_export:'' @ config)
         else []))
    (expect_run (calibrate_reference_quote DEFAULT_REFERENCE_QUOTE_CALIBRATION_SEED
      reference_quote_default_thresholds))"

definition replay_assumptions :: scenario_assumptions where
  "replay_assumptions = \<lparr>sc_name = ''replay-csv'', sc_flow_model = ''CSV replay slot/flow path'',
     sc_landing_model = ''CSV quote update landing outcomes'', sc_path_count = 1\<rparr>"

definition replay_scenario :: "q64x64 \<Rightarrow> quote_update_policy \<Rightarrow> reference_quote_scenario" where
  "replay_scenario price policy =
    \<lparr>rs_assumptions = replay_assumptions, rs_initial_base_inventory = 1000000,
     rs_initial_quote_inventory = 30000000000, rs_target_base_inventory = 1000000,
     rs_initial_mid_price = price, rs_quote_update_policy = policy, rs_params = reference_params\<rparr>"

definition replay_policy :: "replay_market_path \<Rightarrow> math_error + quote_update_policy" where
  "replay_policy replay = quote_update_policy_from_replay replay SwapBeforeUpdate 0x7265706c61795f71756f7465"

definition run_replay_csv :: "string \<Rightarrow> string \<Rightarrow> string option" where
  "run_replay_csv path input =
    Option.bind (expect (parse_replay_csv input)) (\<lambda>replay.
    Option.bind (expect (flow_distribution replay)) (\<lambda>flow.
    Option.bind (expect (replay_policy replay)) (\<lambda>policy.
    Option.bind (first_fair_price replay) (\<lambda>price.
    Option.bind (expect_run (simulate_reference_quote_replay (replay_scenario price policy) replay)) (\<lambda>report.
    Option.bind (print_reference_single_report report) (\<lambda>report_text.
    Some (print_assumptions replay_assumptions
      @ field_line ''paths'' (show_word (sc_path_count replay_assumptions)) @ field_line ''source'' path
      @ println [] @ print_flow_distribution flow
      @ println [] @ print_landing_distribution (landing_distribution replay)
      @ println [] @ report_text
      @ println [] @ println ''warning: replay output is only as good as the supplied data schema'')))))))"

section \<open>Choosing the mode\<close>

fun replay_csv_path_arg :: "string list \<Rightarrow> string option option" where
  "replay_csv_path_arg [] = Some None"
| "replay_csv_path_arg (arg # args) =
    (if arg = ''--replay-csv'' then (case args of [] \<Rightarrow> None | path # _ \<Rightarrow> Some (Some path))
     else replay_csv_path_arg args)"

definition main_run :: "(string \<Rightarrow> string option) \<Rightarrow> string list \<Rightarrow> string option" where
  "main_run read_file args =
    (if ''--calibrate-reference'' \<in> set args \<or> ''--export-best-config'' \<in> set args
     then run_reference_calibration (''--export-best-config'' \<in> set args)
     else if ''--scenario-pack'' \<in> set args then run_scenario_pack
     else Option.bind (replay_csv_path_arg args) (\<lambda>path. case path of
         Some path \<Rightarrow> Option.bind (read_file path) (run_replay_csv path)
       | None \<Rightarrow> run_generated_smoke))"

section \<open>When the replay mode prints its report\<close>

lemma parsed_first_price:
  assumes "parse_replay_csv input = Ok path" "rp_quote_updates path \<noteq> []"
  shows "first_fair_price path = Some (ms_fair_price (hd (rp_slots path)))"
  using parsed_updates_of_slots[OF assms(1)] assms(2)
  by (cases "rp_slots path") (auto simp: updates_of_slots_def first_fair_price_def neq_Nil_conv)

lemma replay_fill_rate:
  assumes "simulate_reference_quote_replay scenario path = Some (Ok r)"
    and "length (rp_slots path) < 2 ^ 50" "length (rp_quote_updates path) < 2 ^ 64"
  shows "reference_fill_rate_bps r \<noteq> None"
proof -
  have acc: "report_accounts r (rp_slots path)"
    by (rule replay_accounts[OF assms(1) _ assms(3)]) (use assms(2) in simp)
  have "unat (rr_trades_filled r) \<le> length (filter (\<lambda>s. ms_flow s \<noteq> None) (rp_slots path))"
    using acc by (simp only: report_accounts_def) linarith
  also have "\<dots> \<le> length (rp_slots path)" by (rule length_filter_le)
  finally have "unat (rr_trades_filled r) * 10000 < 2 ^ 64" using assms(2) by simp
  then show ?thesis by (simp add: reference_fill_rate_bps_def fill_rate_defined)
qed

lemma expect_Some [simp]: "expect r = Some x \<longleftrightarrow> r = Ok x"
  by (cases r) (simp_all add: expect_def)

lemma expect_run_Some [simp]: "expect_run r = Some x \<longleftrightarrow> r = Some (Ok x)"
  by (cases r) (simp_all add: expect_run_def)

lemma printed_single_report: "print_reference_single_report r \<noteq> None \<longleftrightarrow> reference_fill_rate_bps r \<noteq> None"
  by (simp add: print_reference_single_report_def)

lemma run_replay_csv_Some:
  assumes "parse_replay_csv input = Ok path"
  shows "run_replay_csv file input \<noteq> None \<longleftrightarrow> (\<exists>flow policy price r. flow_distribution path = Ok flow
    \<and> replay_policy path = Ok policy \<and> first_fair_price path = Some price
    \<and> simulate_reference_quote_replay (replay_scenario price policy) path = Some (Ok r)
    \<and> print_reference_single_report r \<noteq> None)"
  using assms by (auto simp: run_replay_csv_def bind_eq_Some_conv)

text \<open>
  The replay mode prints its report, and panics nowhere, exactly when the file parses, the base
  amount of every trade can be computed, the recorded updates are in order with at least two
  different publish slots, and the simulation of the path returns without an error; the first
  price it asks for is then always there.
\<close>

lemma replay_mode_exact:
  assumes "parse_replay_csv input = Ok path"
    and "length (rp_slots path) < 2 ^ 50" "length (rp_quote_updates path) < 2 ^ 64"
  shows "run_replay_csv file input \<noteq> None \<longleftrightarrow>
    is_ok (flow_distribution path) \<and> validate_quote_updates (rp_quote_updates path) = Ok ()
    \<and> 1 < card (qe_publish_slot ` set (rp_quote_updates path))
    \<and> (\<exists>policy r. replay_policy path = Ok policy
        \<and> simulate_reference_quote_replay (replay_scenario (ms_fair_price (hd (rp_slots path))) policy) path
          = Some (Ok r))"
proof -
  let ?us = "rp_quote_updates path" and ?price = "ms_fair_price (hd (rp_slots path))"
  have policy: "validate_quote_updates ?us = Ok () \<and> 1 < card (qe_publish_slot ` set ?us)"
    if "replay_policy path = Ok policy" for policy
    using that unfolding replay_policy_def by (rule replay_policy_needs)
  have price: "first_fair_price path = Some ?price" if "1 < card (qe_publish_slot ` set ?us)"
    using parsed_first_price[OF assms(1)] that by fastforce
  have printed: "print_reference_single_report r \<noteq> None"
    if "simulate_reference_quote_replay scenario path = Some (Ok r)" for scenario r
    using replay_fill_rate[OF that assms(2,3)] by (simp only: printed_single_report simp_thms)
  show ?thesis
    unfolding run_replay_csv_Some[OF assms(1)]
  proof
    assume "\<exists>flow policy price r. flow_distribution path = Ok flow
    \<and> replay_policy path = Ok policy \<and> first_fair_price path = Some price
    \<and> simulate_reference_quote_replay (replay_scenario price policy) path = Some (Ok r)
    \<and> print_reference_single_report r \<noteq> None"
    then show "is_ok (flow_distribution path) \<and> validate_quote_updates ?us = Ok ()
    \<and> 1 < card (qe_publish_slot ` set ?us)
    \<and> (\<exists>policy r. replay_policy path = Ok policy
        \<and> simulate_reference_quote_replay (replay_scenario ?price policy) path = Some (Ok r))"
      using policy price by fastforce
  next
    assume "is_ok (flow_distribution path) \<and> validate_quote_updates ?us = Ok ()
    \<and> 1 < card (qe_publish_slot ` set ?us)
    \<and> (\<exists>policy r. replay_policy path = Ok policy
        \<and> simulate_reference_quote_replay (replay_scenario ?price policy) path = Some (Ok r))"
    then show "\<exists>flow policy price r. flow_distribution path = Ok flow
    \<and> replay_policy path = Ok policy \<and> first_fair_price path = Some price
    \<and> simulate_reference_quote_replay (replay_scenario price policy) path = Some (Ok r)
    \<and> print_reference_single_report r \<noteq> None"
      using price printed by (auto simp: is_ok_def split: sum.splits)
  qed
qed

lemma fixture_replay_policy:
  "replay_policy (rows_path fixture_rows)
    = Ok \<lparr>qp_maker_update_period_slots = 3, qp_landing_latency_slots = 2,
         qp_update_success_probability_bps = 6666, qp_failure_seed = 0x7265706c61795f71756f7465,
         qp_same_slot_order = SwapBeforeUpdate\<rparr>"
  by code_simp

lemma fixture_replay_runs:
  "outcome_is (\<lambda>r. rr_quote_updates_landed r = 2) (simulate_reference_quote_replay
    (replay_scenario (from_int 30000)
      \<lparr>qp_maker_update_period_slots = 3, qp_landing_latency_slots = 2,
       qp_update_success_probability_bps = 6666, qp_failure_seed = 0x7265706c61795f71756f7465,
       qp_same_slot_order = SwapBeforeUpdate\<rparr>) (rows_path fixture_rows))"
  by code_simp

lemma replay_mode_exact_witness: "run_replay_csv ''reference-replay.csv'' (write_replay fixture_rows) \<noteq> None"
proof -
  have len: "length (rp_slots (rows_path fixture_rows)) < 2 ^ 50"
    "length (rp_quote_updates (rows_path fixture_rows)) < 2 ^ 64"
    by (simp_all add: rows_path_def fixture_rows_def fixture_row_def)
  have "ms_fair_price (hd (rp_slots (rows_path fixture_rows))) = from_int 30000"
    by (simp add: rows_path_def fixture_rows_def fixture_row_def)
  then show ?thesis
    using replay_mode_exact[OF parse_write_replay len, of "''reference-replay.csv''"]
      replay_policy_needs[OF fixture_replay_policy[unfolded replay_policy_def]] fixture_replay_policy
      outcome_isD[OF fixture_replay_runs] fixture_flow_distribution
    by auto
qed

end
