(* ===== verification/Spec2Isabelle.thy ===== *)
theory Spec2Isabelle imports Cpmm Decimal Reference Piecewise Market_Refinement Program_Creation
  Program_Simulation Command_Line begin

text \<open>
  Verification library for the meta-amm repository: an on-chain market maker for Solana whose
  pools trade at a price a maker publishes (\<open>programs/meta_amm\<close>), the integer mathematics it
  prices with (\<open>crates/meta_amm_math\<close>), the compiler from a maker's strategy to the account the
  program reads (\<open>crates/meta_amm_config\<close>), and the simulator and calibration that choose a
  strategy (\<open>crates/meta_amm_sim\<close>).  Paths below are under \<open>src/\<close>.

  \<^bold>\<open>How the parts interact.\<close>  A maker calibrates candidate strategies in the simulator, exports
  the best one as text, and the configuration compiler imports and validates it and lays it out
  in 448 bytes.  The program stores these bytes in a pool account; a publisher posts quotes with
  rising sequence numbers; a taker's swap reads pool, quote and vaults, prices the trade with the
  reference quote of the mathematics crate and settles it through the token program.  The
  simulator prices its flow with the same function and replays recorded paths from CSV files.

  \<^bold>\<open>Conventions.\<close>  Theory \<open>Prelude\<close>: a Rust integer is a word of its width (\<open>u8\<close> to \<open>u128\<close>);
  signed integers are \<^typ>\<open>int\<close> with saturation and casts written out; checked, saturating and
  overflowing operations are functions on words, characterised over \<^const>\<open>unat\<close> in the
  collection \<open>unat_simps\<close>.  \<open>Result\<close> is a sum, \<open>Err e\<close> on the left and \<open>Ok x\<close> on the right,
  sequenced by \<open>and_then\<close> where the code has \<open>?\<close>.  A panic is \<^const>\<open>None\<close>.  Text is a list of
  characters up to U+00FF.

  \<^bold>\<open>Mathematics.\<close>
  \<^item> \<open>Fixed\<close> (\<open>fixed.rs\<close>, \<open>errors.rs\<close>): Q64.64 numbers and \<open>mul_div_floor\<close>, a limb-wise
    multiplication and a bit-serial division, proved equal to floor division.  Its contract is the
    locale \<open>floor_mul_div\<close>, on which every price rests.
  \<^item> \<open>Cpmm\<close> (\<open>cpmm.rs\<close>): the constant-product quote on every branch, its product of reserves,
    and that no trade is undone at a profit.
  \<^item> \<open>Decimal\<close> (\<open>decimal.rs\<close>) over the buffers of \<open>Bytes\<close>: scale factors and the pre-image of a
    token pair.
  \<^item> \<open>Reference\<close> (\<open>reference.rs\<close>): the reference quote.  An accepted swap is characterised by the
    predicate \<open>swap_contract\<close> over the naturals; price bounds, the hard inventory band, ageing and
    round trips follow from it.
  \<^item> \<open>Piecewise\<close> (\<open>piecewise.rs\<close>): a book side of six linear segments.  The functions mutate the
    side even when they fail, so they return the side and the result.

  \<^bold>\<open>Configuration.\<close>
  \<^item> \<open>Config\<close>: validation and compilation (\<open>meta_amm_config/src/lib.rs\<close>), with the exact set of
    inputs that compile and what a compiled configuration rules out later.
  \<^item> \<open>Config_Layout\<close>: the 448-byte account, its writer and the reader of the parameters.
  \<^item> \<open>Text_Format\<close>, \<open>Config_Import\<close>: the import of an exported strategy by text search.

  \<^bold>\<open>The program\<close> (\<open>programs/meta_amm/src/lib.rs\<close>).
  \<^item> \<open>Program_State\<close>: the accounts, arguments, errors and account methods.
  \<^item> \<open>Program\<close>: each of the eleven instructions with the account constraints of its Anchor
    context, as a function from the world of accounts to a new world or an error.
  \<^item> \<open>Program_Steps\<close>: the chain as a step relation.  Instructions run at slots that never fall, a
    refused instruction changes nothing, and between instructions the environment may change token
    accounts and mints at will.
  \<^item> \<open>Program_Effects\<close>: what each accepted instruction checked and wrote.
  \<^item> \<open>Program_Invariants\<close>: the four kinds of account, each an interpretation of the locale
    \<open>account_kind\<close>, and the invariant \<open>world_inv\<close> of reachable worlds.
  \<^item> \<open>Program_Settlement\<close>, \<open>Program_Properties\<close>: settlement of swaps and funding, replay
    protection (locale \<open>replay_protected\<close>), authority, history, and the errors a reachable world
    excludes.  \<open>Program_Demo\<close> is the concrete run the witnesses use.
  \<^item> \<open>Market_Refinement\<close>: an abstract market of listings, posted prices and fair trades, and the
    proof (locale \<open>simulation\<close>) that every step of the chain is one of its steps.

  \<^item> \<open>Program_Ledger\<close>: the custody of the vaults over any sequence of transactions.  Each vault
    account is an interpretation of the locale \<open>ledger\<close>: it holds what was funded and paid in less
    what was paid out.
  \<^item> \<open>Program_Creation\<close>: what creating a pool does on every input, errors included, and that a
    publisher can refresh the quote in every reachable state.

  \<^bold>\<open>The simulator\<close> (\<open>meta_amm_sim/src\<close>).
  \<^item> \<open>Sim_Core\<close>, \<open>Sim_Market\<close> (\<open>lib.rs\<close>): random numbers, flow, reports; the constant-product,
    piecewise and reference-quote simulations, slot by slot.  The generated and the replayed
    simulation differ in how quote updates are fed to the loop.
  \<^item> \<open>Sim_Accounting\<close>: the locale \<open>quote_feed\<close>, the contract of a feed, interpreted for both.
  \<^item> \<open>Sim_Maker\<close>, \<open>Sim_Generate\<close>: when a path returns, generated paths, and a maker who keeps to
    its envelope.
  \<^item> \<open>Sim_Stats\<close>: summaries, aggregate reports, and the gates that pass, warn on or block them.
  \<^item> \<open>Replay\<close>, \<open>Replay_Report\<close> (\<open>replay.rs\<close>): the CSV reader, the distributions of a recorded
    path and the policy derived from it.
  \<^item> \<open>Calibration\<close>, \<open>Export\<close> (\<open>calibration.rs\<close>): candidates, scores, ranking, the exported text
    and its import.
  \<^item> \<open>Command_Line\<close> (\<open>main.rs\<close>): the modes and the printed text.

  \<^bold>\<open>Program and simulator.\<close>  \<open>Program_Simulation\<close> relates the two: one swap has the same outcome in
  both, refusals included, and the recorded transactions of a pool, replayed in the simulator,
  give every fill and the vaults the program ended with.

  \<^bold>\<open>Termination.\<close>  No model takes fuel.  The loops of the piecewise book and the binary search are
  total functions with measures (the amount left to spend or sell, the width of the interval), the
  bit loops recurse on the number of bits.  The update loop of the simulator need not return: it
  is a partial function in the option monad, \<open>Sim_Maker\<close> shows that it returns on every path that
  stays below the last slot, hence on every generated path, and that it never returns at slot
  \<open>u64::MAX\<close>.

  \<^bold>\<open>Parameters and bounds.\<close>  The Solana runtime enters \<open>Program\<close> as the record \<open>runtime\<close>: the
  address derivations, the ids of the token programs and the effect of a checked transfer on mints
  and token accounts, none of which is under \<open>src/\<close>.  Settlement, funding, the ledgers, the replay
  and the comparison of one swap assume \<open>exact_transfers\<close>: a successful transfer by one of the two
  token programs between two different accounts debits and credits exactly the amount, unless the
  mint is a Token-2022 mint with a transfer fee.  Nothing is assumed of such a mint; that the
  program never moves one is proved from its extension check (\<open>loaded_plain\<close>,
  \<open>swap_checks_plain\<close>), and the token program of \<open>Program_Demo\<close> does withhold a fee on it
  (\<open>demo_fee_withheld\<close>).  The ledgers and the replay also assume \<open>no_owner_signs\<close>: nobody signs for
  the derived address that owns a vault.  That a publisher is never locked out assumes \<open>derivation_consistent\<close>: creating an
  address from seeds and the bump that was found for them gives the address that was found.  The
  runtime of \<open>Program_Demo\<close> satisfies all three.  Counters of the simulator count elements of a
  vector; where a theorem needs it, the bound on the length is a hypothesis.

  \<^bold>\<open>Not modelled.\<close>  Rent and lamports, account discriminators and space, and the byte encoding of
  the program's accounts other than the pool configuration; reading the arguments and files of the
  command line (a parameter of \<open>main_run\<close>); the test modules; the TypeScript SDK (\<open>sdk/ts\<close>) and
  the scripts and documents.  Characters beyond U+00FF, which the CSV reader and the importer
  treat like any other letter apart from some white space, are outside the text model.
\<close>

end
